(* ===== verification/Prelude.thy ===== *)
theory Prelude
  imports Main "HOL-Library.Word"
begin

text \<open>
  Shared vocabulary of the IronLink development: the errors a handler can raise, the
  result type, points in time, JSON payloads, and the reading of a PostgreSQL table as a
  list of rows, with the lemmas on those lists that every component uses.

  The two collections of facts below are filled by the component theories:
  \<open>key_simps\<close> holds what decides the equality of two Redis keys, \<open>view_simps\<close> what the
  operations of a component do to the observable contents of a Redis store.
\<close>

named_theorems key_simps \<open>equalities between the Redis keys the program builds\<close>
named_theorems view_simps \<open>effect of the operations on the observable Redis contents\<close>

section \<open>Errors and results\<close>

text \<open>
  An exception that leaves a handler. \<open>HTTPException\<close> carries the status code and the
  detail; \<open>IntegrityError\<close> is what a commit raises when a unique index declared by the
  models is violated; the others are the Python exceptions the code raises or lets through.
\<close>

datatype error =
    HTTPException nat string
  | IntegrityError
  | ValueError string
  | NotImplementedError string
  | UnsendDenied string
  | S3Error string
  | DataError
  | TypeError
  | AttributeError
  | FirebaseError
  | KeyError string
  | NameError string
  | SyntaxError

type_synonym 'a res = "error + 'a"

text \<open>
  Effects on Redis and on committed rows outlive a raised exception, so a handler over a
  state \<open>'s\<close> returns the state on every path.
\<close>

type_synonym ('s, 'a) handler = "'s \<Rightarrow> 'a res \<times> 's"

text \<open>
  Evaluating a global name of a module: \<open>globals\<close> are the names the module binds, and a name
  that is not among them raises where it is evaluated.
\<close>

definition with_name :: "string list \<Rightarrow> string \<Rightarrow> ('s, 'a) handler \<Rightarrow> ('s, 'a) handler" where
  "with_name globals n h s = (if n \<in> set globals then h s else (Inl (NameError n), s))"

text \<open>A comprehension whose element expression may raise; the first exception leaves it.\<close>

primrec map_res :: "('a \<Rightarrow> 'b res) \<Rightarrow> 'a list \<Rightarrow> 'b list res" where
  "map_res f [] = Inr []"
| "map_res f (x # xs) =
     (case f x of Inl e \<Rightarrow> Inl e
      | Inr y \<Rightarrow> (case map_res f xs of Inl e \<Rightarrow> Inl e | Inr ys \<Rightarrow> Inr (y # ys)))"

lemma map_res_Inr: "(\<And>x. x \<in> set xs \<Longrightarrow> f x = Inr (g x)) \<Longrightarrow> map_res f xs = Inr (map g xs)"
  by (induction xs) auto

lemma map_res_Inl: "x \<in> set xs \<Longrightarrow> f x = Inl e \<Longrightarrow> \<exists>e'. map_res f xs = Inl e'"
  by (induction xs) (auto split: sum.splits)

section \<open>Time\<close>

text \<open>
  A timezone-aware \<^verbatim>\<open>datetime\<close> is a number of microseconds since the epoch, the
  resolution of the Python type; a \<^verbatim>\<open>timedelta(seconds=n)\<close> is \<open>seconds n\<close>; the UTC
  date of an instant is its day number.
\<close>

type_synonym instant = int

definition seconds :: "int \<Rightarrow> int" where
  "seconds n = n * 1000000"

definition utc_date :: "instant \<Rightarrow> int" where
  "utc_date t = t div seconds 86400"

lemma seconds_mono [simp]: "seconds a \<le> seconds b \<longleftrightarrow> a \<le> b"
  by (simp add: seconds_def)

lemma seconds_less [simp]: "seconds a < seconds b \<longleftrightarrow> a < b"
  by (simp add: seconds_def)

lemma seconds_0 [simp]: "seconds 0 = 0"
  by (simp add: seconds_def)

section \<open>JSON payloads\<close>

text \<open>
  The dictionaries the program publishes and receives. Object fields keep the order in
  which the source writes them; a float is its literal; \<open>jget\<close> is \<^verbatim>\<open>frame.get(key)\<close>.
\<close>

datatype json =
    JNull
  | JBool bool
  | JInt int
  | JFloat string
  | JStr string
  | JArr "json list"
  | JObj "(string \<times> json) list"

type_synonym payload = "(string \<times> json) list"

definition jget :: "payload \<Rightarrow> string \<Rightarrow> json" where
  "jget p k = (case map_of p k of None \<Rightarrow> JNull | Some v \<Rightarrow> v)"

section \<open>Tables as lists of rows\<close>

text \<open>
  A table is the list of its rows in storage order. \<^verbatim>\<open>db.scalar(select(T).where(P))\<close>
  is the first matching row or \<open>None\<close>, \<^verbatim>\<open>db.scalars(...).all()\<close> all of them; an
  attribute assignment to loaded rows followed by a commit rewrites the rows in place.
\<close>

abbreviation scalar :: "('r \<Rightarrow> bool) \<Rightarrow> 'r list \<Rightarrow> 'r option" where
  "scalar \<equiv> List.find"

abbreviation scalars :: "('r \<Rightarrow> bool) \<Rightarrow> 'r list \<Rightarrow> 'r list" where
  "scalars \<equiv> filter"

definition update_where :: "('r \<Rightarrow> bool) \<Rightarrow> ('r \<Rightarrow> 'r) \<Rightarrow> 'r list \<Rightarrow> 'r list" where
  "update_where P f rows = map (\<lambda>r. if P r then f r else r) rows"

text \<open>A key is unique in a table when no two positions hold rows with the same key.\<close>

definition unique_on :: "('r \<Rightarrow> 'k) \<Rightarrow> 'r list \<Rightarrow> bool" where
  "unique_on key rows \<longleftrightarrow> distinct (map key rows)"

lemma unique_on_Nil [simp]: "unique_on key []"
  by (simp add: unique_on_def)

lemma unique_on_snoc [simp]:
  "unique_on key (rows @ [r]) \<longleftrightarrow> unique_on key rows \<and> key r \<notin> key ` set rows"
  by (auto simp: unique_on_def)

lemma unique_onD: "unique_on key rows \<Longrightarrow> x \<in> set rows \<Longrightarrow> y \<in> set rows \<Longrightarrow> key x = key y \<Longrightarrow> x = y"
  unfolding unique_on_def by (metis distinct_map inj_onD)

lemma find_SomeD: "scalar P rows = Some r \<Longrightarrow> r \<in> set rows \<and> P r"
  by (auto simp: find_Some_iff)

lemma find_NoneD: "scalar P rows = None \<Longrightarrow> r \<in> set rows \<Longrightarrow> \<not> P r"
  by (auto simp: find_None_iff)

lemma find_unique:
  assumes "unique_on key rows" and "r \<in> set rows"
  shows "scalar (\<lambda>x. key x = key r) rows = Some r"
proof (cases "scalar (\<lambda>x. key x = key r) rows")
  case None
  with assms(2) show ?thesis by (auto simp: find_None_iff)
next
  case (Some x)
  then have "x \<in> set rows \<and> key x = key r" by (rule find_SomeD)
  with assms have "x = r" by (blast dest: unique_onD)
  with Some show ?thesis by simp
qed

lemma find_cong_set:
  "(\<And>x. x \<in> set rows \<Longrightarrow> P x = Q x) \<Longrightarrow> scalar P rows = scalar Q rows"
  by (induction rows) auto

lemma find_append: "scalar P (xs @ ys) = (case scalar P xs of None \<Rightarrow> scalar P ys | Some r \<Rightarrow> Some r)"
  by (induction xs) auto

lemma update_where_Nil [simp]: "update_where P f [] = []"
  by (simp add: update_where_def)

lemma length_update_where [simp]: "length (update_where P f rows) = length rows"
  by (simp add: update_where_def)

lemma in_update_where:
  "y \<in> set (update_where P f rows) \<longleftrightarrow> (\<exists>x\<in>set rows. y = (if P x then f x else x))"
  by (auto simp: update_where_def)

lemma map_update_where:
  "(\<And>x. x \<in> set rows \<Longrightarrow> P x \<Longrightarrow> g (f x) = g x) \<Longrightarrow> map g (update_where P f rows) = map g rows"
  by (auto simp: update_where_def)

lemma unique_on_update_where:
  "unique_on key rows \<Longrightarrow> (\<And>x. x \<in> set rows \<Longrightarrow> P x \<Longrightarrow> key (f x) = key x) \<Longrightarrow> unique_on key (update_where P f rows)"
  unfolding unique_on_def by (simp add: map_update_where)

lemma find_update_where:
  assumes "\<And>x. P x \<Longrightarrow> Q (f x) = Q x"
  shows "scalar Q (update_where P f rows) =
    map_option (\<lambda>r. if P r then f r else r) (scalar Q rows)"
  by (induction rows) (auto simp: update_where_def assms)

text \<open>Selecting by a key the update keeps, and updating by the same key.\<close>

lemma find_update_key:
  assumes "\<And>x. key (f x) = key x"
  shows "scalar (\<lambda>x. key x = k) (update_where (\<lambda>x. key x = j) f rows) =
    (if k = j then map_option f (scalar (\<lambda>x. key x = k) rows)
     else scalar (\<lambda>x. key x = k) rows)"
proof -
  have "scalar (\<lambda>x. key x = k) (update_where (\<lambda>x. key x = j) f rows) =
    map_option (\<lambda>r. if key r = j then f r else r) (scalar (\<lambda>x. key x = k) rows)"
    by (rule find_update_where) (simp add: assms)
  then show ?thesis
    by (cases "scalar (\<lambda>x. key x = k) rows") (auto dest: find_SomeD)
qed

text \<open>Overwriting the row with a given key.\<close>

lemma find_overwrite:
  "scalar (\<lambda>x. key x = i) (update_where (\<lambda>x. key x = key r) (\<lambda>_. r) rows) =
    (if i = key r then map_option (\<lambda>_. r) (scalar (\<lambda>x. key x = i) rows)
     else scalar (\<lambda>x. key x = i) rows)"
  by (induction rows) (auto simp: update_where_def)

lemma map_overwrite:
  assumes "unique_on key rows" and "scalar (\<lambda>x. key x = key r) rows = Some r0" and "g r = g r0"
  shows "map g (update_where (\<lambda>x. key x = key r) (\<lambda>_. r) rows) = map g rows"
proof (rule map_update_where)
  fix x
  assume "x \<in> set rows" and "key x = key r"
  with find_SomeD [OF assms(2)] assms(1) have "x = r0" by (auto intro: unique_onD)
  with assms(3) show "g r = g x" by simp
qed

lemma update_where_other: "(\<And>x. x \<in> set rows \<Longrightarrow> \<not> P x) \<Longrightarrow> update_where P f rows = rows"
  by (induction rows) (auto simp: update_where_def)

section \<open>Ordered results\<close>

text \<open>The last \<open>n\<close> elements, and a descending order as the reverse of the ascending one.\<close>

definition tail_of :: "nat \<Rightarrow> 'a list \<Rightarrow> 'a list" where
  "tail_of n xs = drop (length xs - n) xs"

lemma sort_key_rev:
  assumes "distinct (map f xs)"
  shows "rev (sort_key (\<lambda>x. - f x :: int) xs) = sort_key f xs"
proof (rule map_sorted_distinct_set_unique [where f = f])
  have "sorted_wrt (\<lambda>x y. - f x \<le> - f y) (sort_key (\<lambda>x. - f x) xs)"
    using sorted_sort_key [of "\<lambda>x. - f x" xs] by (simp add: sorted_map)
  then show "sorted (map f (rev (sort_key (\<lambda>x. - f x) xs)))" by (simp add: sorted_map sorted_wrt_rev)
  show "distinct (map f (rev (sort_key (\<lambda>x. - f x) xs)))" "distinct (map f (sort_key f xs))"
    using assms by (simp_all add: distinct_map)
  show "inj_on f (set (rev (sort_key (\<lambda>x. - f x) xs)) \<union> set (sort_key f xs))"
    using assms by (simp add: distinct_map)
qed simp_all

lemma rev_take_rev: "rev (take n xs) = tail_of n (rev xs)"
  by (simp add: tail_of_def rev_take)

end
