(* ===== verification/Py_Str.thy ===== *)
theory Py_Str
  imports Prelude
begin

text \<open>
  The part of Python's \<^verbatim>\<open>str\<close> and \<^verbatim>\<open>int\<close> the program relies on: stripping, replacing,
  searching, lower-casing, decimal printing and \<^verbatim>\<open>int(s, base)\<close>. A character is a code
  point below 256, so the Unicode tables are those of that range.
\<close>

section \<open>Stripping, searching, replacing\<close>

definition is_space :: "char \<Rightarrow> bool" where
  "is_space c = (let n = (of_char c :: nat) in
     (9 \<le> n \<and> n \<le> 13) \<or> (28 \<le> n \<and> n \<le> 32) \<or> n = 133 \<or> n = 160)"

definition strip_by :: "(char \<Rightarrow> bool) \<Rightarrow> string \<Rightarrow> string" where
  "strip_by P s = rev (dropWhile P (rev (dropWhile P s)))"

definition strip :: "string \<Rightarrow> string" where
  "strip s = strip_by is_space s"

definition starts_with :: "string \<Rightarrow> string \<Rightarrow> bool" where
  "starts_with s p \<longleftrightarrow> take (length p) s = p"

text \<open>\<^verbatim>\<open>sub in s\<close>: some suffix of \<open>s\<close> starts with \<open>sub\<close>.\<close>

fun contains :: "string \<Rightarrow> string \<Rightarrow> bool" where
  "contains sub [] = (sub = [])"
| "contains sub (c # cs) = (starts_with (c # cs) sub \<or> contains sub cs)"

text \<open>
  \<^verbatim>\<open>s.replace(old, new)\<close> for a non-empty \<open>old\<close>: left to right, not overlapping. The
  counter is the number of characters of a match still to skip.
\<close>

fun repl :: "string \<Rightarrow> string \<Rightarrow> nat \<Rightarrow> string \<Rightarrow> string" where
  "repl old new k [] = []"
| "repl old new (Suc k) (c # cs) = repl old new k cs"
| "repl old new 0 (c # cs) =
     (if starts_with (c # cs) old then new @ repl old new (length old - 1) cs
      else c # repl old new 0 cs)"

definition replace :: "string \<Rightarrow> string \<Rightarrow> string \<Rightarrow> string" where
  "replace old new s = repl old new 0 s"

definition lower_char :: "char \<Rightarrow> char" where
  "lower_char c = (let n = (of_char c :: nat) in
     if (65 \<le> n \<and> n \<le> 90) \<or> (192 \<le> n \<and> n \<le> 222 \<and> n \<noteq> 215) then char_of (n + 32) else c)"

definition lower :: "string \<Rightarrow> string" where
  "lower s = map lower_char s"

lemma starts_with_iff: "starts_with s p \<longleftrightarrow> (\<exists>t. s = p @ t)"
  by (metis append_eq_conv_conj append_take_drop_id starts_with_def)

lemma contains_iff: "contains sub s \<longleftrightarrow> (\<exists>u v. s = u @ sub @ v)"
proof (induction s)
  case Nil
  then show ?case by simp
next
  case (Cons c cs)
  show ?case
  proof
    assume "contains sub (c # cs)"
    then consider t where "c # cs = sub @ t" | u v where "cs = u @ sub @ v"
      using Cons.IH by (auto simp: starts_with_iff)
    then show "\<exists>u v. c # cs = u @ sub @ v"
    proof cases
      case 1
      then show ?thesis by (metis append_Nil)
    next
      case 2
      then show ?thesis by (metis append_Cons)
    qed
  next
    assume "\<exists>u v. c # cs = u @ sub @ v"
    then obtain u v where uv: "c # cs = u @ sub @ v" by blast
    then show "contains sub (c # cs)"
    proof (cases u)
      case Nil
      with uv have "starts_with (c # cs) sub" by (auto simp: starts_with_iff)
      then show ?thesis by simp
    next
      case (Cons _ u')
      with uv show ?thesis using Cons.IH by auto
    qed
  qed
qed

lemma contains_absent: "c \<in> set sub \<Longrightarrow> c \<notin> set s \<Longrightarrow> \<not> contains sub s"
  by (auto simp: contains_iff)

lemma replace_absent: "\<not> contains old s \<Longrightarrow> replace old new s = s"
proof -
  have "\<not> contains old s \<Longrightarrow> repl old new 0 s = s" by (induction s) auto
  then show "\<not> contains old s \<Longrightarrow> replace old new s = s" by (simp add: replace_def)
qed

lemma replace_single: "replace [c] [] s = filter (\<lambda>x. x \<noteq> c) s"
proof -
  have "repl [c] [] 0 s = filter (\<lambda>x. x \<noteq> c) s"
    by (induction s) (auto simp: starts_with_def)
  then show ?thesis by (simp add: replace_def)
qed

lemma strip_by_id:
  assumes "s = [] \<or> (\<not> P (hd s) \<and> \<not> P (last s))"
  shows "strip_by P s = s"
proof -
  have "dropWhile P s = s" using assms by (auto simp: dropWhile_eq_self_iff)
  moreover have "dropWhile P (rev s) = rev s"
    using assms by (auto simp: dropWhile_eq_self_iff hd_rev)
  ultimately show ?thesis by (simp add: strip_by_def)
qed

section \<open>Decimal numbers\<close>

definition digit_char :: "nat \<Rightarrow> char" where
  "digit_char d = char_of ((if d < 10 then 48 else 87) + d)"

definition digit_of :: "char \<Rightarrow> nat option" where
  "digit_of c = (let n = (of_char c :: nat) in
     if 48 \<le> n \<and> n \<le> 57 then Some (n - 48)
     else if 97 \<le> n \<and> n \<le> 122 then Some (n - 87)
     else if 65 \<le> n \<and> n \<le> 90 then Some (n - 55)
     else None)"

lemma digit_of_digit_char [simp]: "d < 36 \<Longrightarrow> digit_of (digit_char d) = Some d"
  by (auto simp: digit_of_def digit_char_def Let_def)

text \<open>The digits of a number in a base, most significant first: \<^verbatim>\<open>str(n)\<close> for base 10.\<close>

fun str_base :: "nat \<Rightarrow> nat \<Rightarrow> string" where
  "str_base b n = (if b < 2 \<or> n < b then [digit_char n] else str_base b (n div b) @ [digit_char (n mod b)])"

declare str_base.simps [simp del]

definition str_int :: "int \<Rightarrow> string" where
  "str_int i = (if i < 0 then CHR ''-'' # str_base 10 (nat (- i)) else str_base 10 (nat i))"

text \<open>
  The digits accepted by \<^verbatim>\<open>int(s, base)\<close>: at least one digit, single underscores between
  digits.
\<close>

fun digs :: "nat \<Rightarrow> bool \<Rightarrow> nat \<Rightarrow> string \<Rightarrow> nat option" where
  "digs b ok acc [] = (if ok then Some acc else None)"
| "digs b ok acc (c # cs) =
     (if c = CHR ''_'' then (if ok then digs b False acc cs else None)
      else case digit_of c of None \<Rightarrow> None
           | Some d \<Rightarrow> if d < b then digs b True (acc * b + d) cs else None)"

definition py_int :: "nat \<Rightarrow> string \<Rightarrow> int option" where
  "py_int b s =
     (let t = strip s;
          neg = starts_with t ''-'';
          u = (if starts_with t ''-'' \<or> starts_with t ''+'' then tl t else t);
          v = (if b = 16 \<and> (starts_with u ''0x'' \<or> starts_with u ''0X'')
               then (if starts_with (drop 2 u) ''_'' then drop 3 u else drop 2 u) else u)
      in map_option (\<lambda>n. if neg then - int n else int n) (digs b False 0 v))"

lemma digs_digits:
  assumes "\<forall>d\<in>set ds. d < b" and "b \<le> 36"
  shows "digs b ok acc (map digit_char ds) =
    (if ds = [] \<and> \<not> ok then None else Some (foldl (\<lambda>a d. a * b + d) acc ds))"
  using assms(1)
proof (induction ds arbitrary: ok acc)
  case Nil
  then show ?case by simp
next
  case (Cons d ds)
  then have "d < b" by simp
  then have "d < 36" using assms(2) by simp
  moreover have "digit_of CHR ''_'' = None" by (simp add: digit_of_def)
  ultimately have "digit_char d \<noteq> CHR ''_''" by (metis digit_of_digit_char option.distinct(1))
  with Cons \<open>d < b\<close> \<open>d < 36\<close> show ?case by simp
qed

fun digits_base :: "nat \<Rightarrow> nat \<Rightarrow> nat list" where
  "digits_base b n = (if b < 2 \<or> n < b then [n] else digits_base b (n div b) @ [n mod b])"

declare digits_base.simps [simp del]

lemma str_base_digits: "str_base b n = map digit_char (digits_base b n)"
proof (induction b n rule: digits_base.induct)
  case (1 b n)
  then show ?case
    by (subst str_base.simps, subst digits_base.simps) simp
qed

lemma digits_base_nonempty [simp]: "digits_base b n \<noteq> []"
  by (subst digits_base.simps) simp

lemma digits_base_less: "2 \<le> b \<Longrightarrow> \<forall>d\<in>set (digits_base b n). d < b"
proof (induction b n rule: digits_base.induct)
  case (1 b n)
  then show ?case by (subst digits_base.simps) auto
qed

lemma foldl_digits_base: "2 \<le> b \<Longrightarrow> foldl (\<lambda>a d. a * b + d) 0 (digits_base b n) = n"
proof (induction b n rule: digits_base.induct)
  case (1 b n)
  then show ?case by (subst digits_base.simps) auto
qed

lemma digs_str_base: "2 \<le> b \<Longrightarrow> b \<le> 36 \<Longrightarrow> digs b False 0 (str_base b n) = Some n"
  by (simp add: str_base_digits digs_digits digits_base_less foldl_digits_base)

lemma digit_char_neq: "d < 10 \<Longrightarrow> digit_of c = None \<Longrightarrow> digit_char d \<noteq> c"
  using digit_of_digit_char [of d] by auto

lemma str_base_chars: "c \<in> set (str_base 10 n) \<Longrightarrow> \<exists>d<10. c = digit_char d"
  using digits_base_less [of 10 n] by (auto simp: str_base_digits)

lemma is_space_no_digit: "is_space c \<Longrightarrow> digit_of c = None"
  by (auto simp: is_space_def digit_of_def Let_def)

lemma strip_digits:
  assumes "s \<noteq> []" and "digit_of (hd s) \<noteq> None \<or> hd s = CHR ''-''" and "digit_of (last s) \<noteq> None"
  shows "strip s = s"
proof -
  have "\<not> is_space CHR ''-''" by (simp add: is_space_def)
  with assms have "\<not> is_space (hd s)" "\<not> is_space (last s)"
    using is_space_no_digit by auto
  then show ?thesis by (simp add: strip_def strip_by_id)
qed

lemma digit_of_str_base: "c \<in> set (str_base 10 n) \<Longrightarrow> digit_of c \<noteq> None"
  by (auto dest!: str_base_chars)

lemma str_base_nonempty [simp]: "str_base b n \<noteq> []"
  by (simp add: str_base_digits)

lemma digit_of_str_base_ends:
  "digit_of (hd (str_base 10 n)) \<noteq> None" "digit_of (last (str_base 10 n)) \<noteq> None"
  using digit_of_str_base [OF hd_in_set] digit_of_str_base [OF last_in_set] by simp_all

lemma not_sign_digits:
  assumes "s \<noteq> []" and "digit_of (hd s) \<noteq> None"
  shows "\<not> starts_with s ''-''" and "\<not> starts_with s ''+''"
proof -
  have "digit_of CHR ''-'' = None" "digit_of CHR ''+'' = None" by (simp_all add: digit_of_def)
  with assms show "\<not> starts_with s ''-''" "\<not> starts_with s ''+''"
    by (cases s; auto simp: starts_with_def)+
qed

text \<open>Printing an integer and reading it back: \<^verbatim>\<open>int(str(i)) == i\<close>.\<close>

lemma py_int_str_int [simp]: "py_int 10 (str_int i) = Some i"
proof (cases "i < 0")
  case True
  let ?t = "str_base 10 (nat (- i))"
  have "strip (CHR ''-'' # ?t) = CHR ''-'' # ?t"
    using digit_of_str_base_ends [of "nat (- i)"] by (intro strip_digits) auto
  moreover have "starts_with (CHR ''-'' # ?t) ''-''" by (simp add: starts_with_def)
  ultimately show ?thesis
    using True by (simp add: py_int_def str_int_def digs_str_base)
next
  case False
  let ?t = "str_base 10 (nat i)"
  note h = digit_of_str_base_ends [of "nat i"]
  then have "strip ?t = ?t" by (intro strip_digits) auto
  with False not_sign_digits [OF _ h(1)] show ?thesis
    by (simp add: py_int_def str_int_def digs_str_base)
qed

lemma str_int_inject [simp]: "str_int i = str_int j \<longleftrightarrow> i = j"
  by (metis option.inject py_int_str_int)

text \<open>The truth value of an optional string: false when it is missing or empty.\<close>

definition truthy_str :: "string option \<Rightarrow> bool" where
  "truthy_str x = (case x of None \<Rightarrow> False | Some s \<Rightarrow> s \<noteq> [])"

section \<open>Words\<close>

text \<open>\<^verbatim>\<open>s.split()\<close>.\<close>

function split_ws :: "string \<Rightarrow> string list" where
  "split_ws [] = []"
| "split_ws (c # cs) =
     (if is_space c then split_ws cs
      else takeWhile (\<lambda>x. \<not> is_space x) (c # cs) # split_ws (dropWhile (\<lambda>x. \<not> is_space x) cs))"
  by pat_completeness auto
termination by (relation "measure length") (auto simp: length_dropWhile_le less_Suc_eq_le)

lemma split_ws_words: "w \<in> set (split_ws s) \<Longrightarrow> w \<noteq> [] \<and> set w \<subseteq> {c \<in> set s. \<not> is_space c}"
proof (induction s rule: split_ws.induct)
  case (2 c cs)
  show ?case
  proof (cases "is_space c")
    case True
    with 2 show ?thesis by auto
  next
    case False
    then have "w = takeWhile (\<lambda>x. \<not> is_space x) (c # cs) \<or> w \<in> set (split_ws (dropWhile (\<lambda>x. \<not> is_space x) cs))"
      using 2(3) by simp
    then show ?thesis
      using 2(2) [OF False] False by (auto dest!: set_takeWhileD set_dropWhileD subsetD)
  qed
qed simp

end
