(* ===== verification/Uuid.thy ===== *)
theory Uuid
  imports Py_Str
begin

text \<open>
  \<^verbatim>\<open>uuid.UUID\<close> as the program uses it: 128-bit values, \<^verbatim>\<open>str(u)\<close> in the 8-4-4-4-12 form
  and the constructor \<^verbatim>\<open>UUID(s)\<close> on strings, which drops \<^verbatim>\<open>urn:\<close>, \<^verbatim>\<open>uuid:\<close>, braces and
  hyphens, wants 32 remaining characters and reads them with \<^verbatim>\<open>int(s, 16)\<close>.
\<close>

type_synonym uuid = "128 word"

fun hexd :: "nat \<Rightarrow> nat \<Rightarrow> nat list" where
  "hexd 0 n = []"
| "hexd (Suc k) n = hexd k (n div 16) @ [n mod 16]"

definition hex32 :: "uuid \<Rightarrow> string" where
  "hex32 u = map digit_char (hexd 32 (unat u))"

definition uuid_str :: "uuid \<Rightarrow> string" where
  "uuid_str u = (let h = hex32 u in
     take 8 h @ ''-'' @ take 4 (drop 8 h) @ ''-'' @ take 4 (drop 12 h) @ ''-'' @
     take 4 (drop 16 h) @ ''-'' @ drop 20 h)"

definition uuid_parse :: "string \<Rightarrow> uuid option" where
  "uuid_parse s =
     (let t = replace ''uuid:'' [] (replace ''urn:'' [] s);
          h = replace ''-'' [] (strip_by (\<lambda>c. c \<in> set ''{}'') t)
      in if length h \<noteq> 32 then None
         else case py_int 16 h of None \<Rightarrow> None
              | Some i \<Rightarrow> if 0 \<le> i \<and> i < 2 ^ 128 then Some (word_of_int i) else None)"

lemma length_hexd [simp]: "length (hexd k n) = k"
  by (induction k arbitrary: n) auto

lemma hexd_less: "\<forall>d\<in>set (hexd k n). d < 16"
  by (induction k arbitrary: n) auto

lemma foldl_hexd: "foldl (\<lambda>a d. a * 16 + d) 0 (hexd k n) = n mod 16 ^ k"
proof (induction k arbitrary: n)
  case 0
  then show ?case by simp
next
  case (Suc k)
  have "n mod (16 * 16 ^ k) = 16 * (n div 16 mod 16 ^ k) + n mod 16"
    by (rule mod_mult2_eq)
  with Suc show ?case by (simp add: mult.commute)
qed

lemma length_hex32 [simp]: "length (hex32 u) = 32"
  by (simp add: hex32_def)

lemma hex32_chars: "c \<in> set (hex32 u) \<Longrightarrow> \<exists>d<16. c = digit_char d"
  using hexd_less [of 32 "unat u"] by (auto simp: hex32_def)

lemma digs_hex32: "digs 16 False 0 (hex32 u) = Some (unat u)"
proof -
  have "unat u < 16 ^ 32" using unsigned_less [of u] by simp
  then show ?thesis
    by (simp add: hex32_def digs_digits [OF hexd_less] foldl_hexd length_0_conv [symmetric]
        del: length_0_conv)
qed

lemma hex_char_digit: "d < 16 \<Longrightarrow> digit_of (digit_char d) \<noteq> None"
  by simp

lemma hex32_no: "digit_of c = None \<Longrightarrow> c \<notin> set (hex32 u)"
  by (auto dest!: hex32_chars)

lemma uuid_str_chars: "c \<in> set (uuid_str u) \<Longrightarrow> c = CHR ''-'' \<or> (\<exists>d<16. c = digit_char d)"
  by (auto simp: uuid_str_def Let_def dest: in_set_takeD in_set_dropD intro!: hex32_chars)

lemma length_uuid_str [simp]: "length (uuid_str u) = 36"
  by (simp add: uuid_str_def Let_def)

lemma hex32_split:
  "take 8 h @ take 4 (drop 8 h) @ take 4 (drop 12 h) @ take 4 (drop 16 h) @ drop 20 h = h"
proof -
  have "take 4 (drop 16 h) @ drop 20 h = drop 16 h"
    using append_take_drop_id [of 4 "drop 16 h"] by simp
  moreover have "take 4 (drop 12 h) @ drop 16 h = drop 12 h"
    using append_take_drop_id [of 4 "drop 12 h"] by simp
  moreover have "take 4 (drop 8 h) @ drop 12 h = drop 8 h"
    using append_take_drop_id [of 4 "drop 8 h"] by simp
  ultimately show ?thesis by simp
qed

lemma not_hex:
  "digit_char d \<noteq> c" if "d < 16" "digit_of c = None \<or> (\<exists>e\<ge>16. digit_of c = Some e)"
  using that digit_of_digit_char [of d] by fastforce

lemma hex32_not:
  "digit_of c = None \<or> (\<exists>e\<ge>16. digit_of c = Some e) \<Longrightarrow> c \<notin> set (hex32 u)"
  by (auto dest!: hex32_chars simp: not_hex)

lemma uuid_str_no:
  assumes "digit_of c = None \<or> (\<exists>e\<ge>16. digit_of c = Some e)" and "c \<noteq> CHR ''-''"
  shows "c \<notin> set (uuid_str u)"
  using assms by (auto dest!: uuid_str_chars simp: not_hex)

text \<open>What separates an identifier from the other material of a Redis key.\<close>

lemma uuid_str_neq:
  assumes "c \<in> set xs" and "digit_of c = None \<or> (\<exists>e\<ge>16. digit_of c = Some e)" and "c \<noteq> CHR ''-''"
  shows "uuid_str u \<noteq> xs"
  using assms uuid_str_no by blast

lemma hex32_no_hyphen: "filter (\<lambda>x. x \<noteq> CHR ''-'') (hex32 u) = hex32 u"
  using hex32_no [of "CHR ''-''" u] by (auto simp: filter_id_conv digit_of_def)

lemma filter_uuid_str: "filter (\<lambda>x. x \<noteq> CHR ''-'') (uuid_str u) = hex32 u"
proof -
  have "filter (\<lambda>x. x \<noteq> CHR ''-'') (uuid_str u) =
    filter (\<lambda>x. x \<noteq> CHR ''-'') (take 8 (hex32 u) @ take 4 (drop 8 (hex32 u)) @
      take 4 (drop 12 (hex32 u)) @ take 4 (drop 16 (hex32 u)) @ drop 20 (hex32 u))"
    by (simp add: uuid_str_def Let_def)
  then show ?thesis by (simp only: hex32_split hex32_no_hyphen)
qed

lemma py_int_hex32: "py_int 16 (hex32 u) = Some (int (unat u))"
proof -
  have ne: "hex32 u \<noteq> []" by (metis length_hex32 list.size(3) zero_neq_numeral)
  then have h: "digit_of (hd (hex32 u)) \<noteq> None" "digit_of (last (hex32 u)) \<noteq> None"
    using hex32_chars [OF hd_in_set [of "hex32 u"]] hex32_chars [OF last_in_set [of "hex32 u"]]
    by (auto simp: hex_char_digit)
  then have "strip (hex32 u) = hex32 u" using ne by (intro strip_digits) auto
  moreover have "CHR ''x'' \<notin> set (hex32 u)" "CHR ''X'' \<notin> set (hex32 u)"
    by (rule hex32_not, simp add: digit_of_def)+
  then have "\<not> starts_with (hex32 u) ''0x''" "\<not> starts_with (hex32 u) ''0X''"
    by (auto simp: starts_with_iff)
  ultimately show ?thesis
    using not_sign_digits [OF ne h(1)] by (simp add: py_int_def digs_hex32)
qed

text \<open>The string form of an identifier reads back as the identifier.\<close>

lemma uuid_parse_str [simp]: "uuid_parse (uuid_str u) = Some u"
proof -
  have "digit_of CHR ''u'' = Some 30" "digit_of CHR '':'' = None"
    "digit_of CHR ''{'' = None" "digit_of CHR ''}'' = None"
    by (simp_all add: digit_of_def)
  then have no: "CHR ''u'' \<notin> set (uuid_str u)" "CHR '':'' \<notin> set (uuid_str u)"
    "CHR ''{'' \<notin> set (uuid_str u)" "CHR ''}'' \<notin> set (uuid_str u)"
    using uuid_str_no by force+
  then have r: "replace ''uuid:'' [] (replace ''urn:'' [] (uuid_str u)) = uuid_str u"
    using contains_absent [of "CHR ''u''" _ "uuid_str u"] by (simp add: replace_absent)
  have "uuid_str u \<noteq> []" by (metis length_uuid_str list.size(3) zero_neq_numeral)
  with no have "strip_by (\<lambda>c. c \<in> set ''{}'') (uuid_str u) = uuid_str u"
    by (intro strip_by_id) (metis empty_iff empty_set hd_in_set insert_iff last_in_set list.simps(15))
  moreover have "int (unat u) < 2 ^ 128" using unsigned_less [of u] by (simp add: uint_nat [symmetric])
  ultimately show ?thesis
    by (simp add: uuid_parse_def r replace_single filter_uuid_str py_int_hex32)
qed

lemma uuid_str_inject [simp]: "uuid_str u = uuid_str v \<longleftrightarrow> u = v"
  by (metis option.inject uuid_parse_str)

end
