(* ===== verification/Models.thy ===== *)
theory Models
  imports Uuid
begin

text \<open>
  The data model of \<^verbatim>\<open>app/models\<close>: one record per mapped class with a field per column,
  the enumerations with the strings their columns hold, and the database as a record of
  tables. \<open>updated_at\<close>, which SQLAlchemy maintains and no code reads, is left out.
  \<open>integrity\<close> collects the primary keys, unique indexes and foreign keys the models
  declare; a commit that would break one raises \<open>IntegrityError\<close> and changes nothing.
\<close>

section \<open>Enumerations\<close>

datatype UserStatus = ACTIVE | SUSPENDED | DEACTIVATED

primrec status_value :: "UserStatus \<Rightarrow> string" where
  "status_value ACTIVE = ''active''"
| "status_value SUSPENDED = ''suspended''"
| "status_value DEACTIVATED = ''deactivated''"

datatype UserRole = SOLDIER | NCO | OFFICER | ADMIN | SUPERADMIN

primrec role_value :: "UserRole \<Rightarrow> string" where
  "role_value SOLDIER = ''soldier''"
| "role_value NCO = ''nco''"
| "role_value OFFICER = ''officer''"
| "role_value ADMIN = ''admin''"
| "role_value SUPERADMIN = ''superadmin''"

datatype MessageStatus = SENT | DELIVERED | READ | FAILED

primrec message_status_value :: "MessageStatus \<Rightarrow> string" where
  "message_status_value SENT = ''sent''"
| "message_status_value DELIVERED = ''delivered''"
| "message_status_value READ = ''read''"
| "message_status_value FAILED = ''failed''"

datatype GroupRole = OBSERVER | MEMBER | MODERATOR | G_ADMIN | OWNER

primrec group_role_value :: "GroupRole \<Rightarrow> string" where
  "group_role_value OBSERVER = ''observer''"
| "group_role_value MEMBER = ''member''"
| "group_role_value MODERATOR = ''moderator''"
| "group_role_value G_ADMIN = ''admin''"
| "group_role_value OWNER = ''owner''"

datatype JoinRequestStatus = PENDING | APPROVED | REJECTED

primrec join_status_value :: "JoinRequestStatus \<Rightarrow> string" where
  "join_status_value PENDING = ''pending''"
| "join_status_value APPROVED = ''approved''"
| "join_status_value REJECTED = ''rejected''"

datatype AuditAction =
    LOGIN_SUCCESS | LOGIN_FAILED | LOGOUT | TOKEN_REFRESH
  | MFA_CHALLENGED | MFA_PASSED | MFA_FAILED | SESSION_REVOKED
  | USER_CREATED | USER_UPDATED | USER_SUSPENDED | USER_REACTIVATED
  | ROLE_CHANGED | PASSWORD_CHANGED | DEVICE_FINGERPRINT_CHANGED
  | MESSAGE_DELETED | MESSAGE_DELETED_FOR_EVERYONE
  | GROUP_CREATED | GROUP_MEMBER_ADDED | GROUP_MEMBER_REMOVED | GROUP_MEMBER_ROLE_CHANGED
  | ADMIN_IMPERSONATE | EXPORT_DATA | CONFIG_CHANGED
  | SUSPICIOUS_LOGIN | RATE_LIMIT_HIT | FORCE_DISCONNECT

primrec audit_value :: "AuditAction \<Rightarrow> string" where
  "audit_value LOGIN_SUCCESS = ''auth.login.success''"
| "audit_value LOGIN_FAILED = ''auth.login.failed''"
| "audit_value LOGOUT = ''auth.logout''"
| "audit_value TOKEN_REFRESH = ''auth.token.refresh''"
| "audit_value MFA_CHALLENGED = ''auth.mfa.challenge''"
| "audit_value MFA_PASSED = ''auth.mfa.passed''"
| "audit_value MFA_FAILED = ''auth.mfa.failed''"
| "audit_value SESSION_REVOKED = ''auth.session.revoked''"
| "audit_value USER_CREATED = ''user.created''"
| "audit_value USER_UPDATED = ''user.updated''"
| "audit_value USER_SUSPENDED = ''user.suspended''"
| "audit_value USER_REACTIVATED = ''user.reactivated''"
| "audit_value ROLE_CHANGED = ''user.role.changed''"
| "audit_value PASSWORD_CHANGED = ''user.password.changed''"
| "audit_value DEVICE_FINGERPRINT_CHANGED = ''user.device_fingerprint.changed''"
| "audit_value MESSAGE_DELETED = ''message.deleted''"
| "audit_value MESSAGE_DELETED_FOR_EVERYONE = ''message.deleted_for_everyone''"
| "audit_value GROUP_CREATED = ''group.created''"
| "audit_value GROUP_MEMBER_ADDED = ''group.member.added''"
| "audit_value GROUP_MEMBER_REMOVED = ''group.member.removed''"
| "audit_value GROUP_MEMBER_ROLE_CHANGED = ''group.member.role_changed''"
| "audit_value ADMIN_IMPERSONATE = ''admin.impersonate''"
| "audit_value EXPORT_DATA = ''admin.data.export''"
| "audit_value CONFIG_CHANGED = ''admin.config.changed''"
| "audit_value SUSPICIOUS_LOGIN = ''security.suspicious_login''"
| "audit_value RATE_LIMIT_HIT = ''security.rate_limit''"
| "audit_value FORCE_DISCONNECT = ''security.force_disconnect''"

section \<open>Rows\<close>

record user =
  u_id :: uuid
  u_created_at :: instant
  phone_number :: string
  full_name :: string
  username :: "string option"
  department :: "string option"
  fcm_token :: "string option"
  hashed_military_id :: string
  hashed_password :: string
  device_fingerprint :: "string option"
  token_version :: int
  u_status :: string
  u_role :: string
  expiry_date :: "int option"
  last_seen_at :: "instant option"
  is_online :: bool
  u_avatar_object_key :: "string option"
  mfa_enabled :: bool

record user_session =
  s_id :: uuid
  s_created_at :: instant
  s_user_id :: uuid
  refresh_token_hash :: string
  s_ip_address :: string
  s_user_agent :: "string option"
  device_type :: "string option"
  device_name :: "string option"
  os_version :: "string option"
  app_version :: "string option"
  geo_country :: "string option"
  geo_city :: "string option"
  geo_lat :: "int option"
  geo_lon :: "int option"
  last_active_at :: "instant option"
  s_expires_at :: instant
  revoked_at :: "instant option"
  ws_connection_id :: "string option"

record message =
  m_id :: uuid
  m_created_at :: instant
  sender_id :: "uuid option"
  recipient_id :: "uuid option"
  m_group_id :: "uuid option"
  message_type :: string
  content_ciphertext :: "string option"
  media_object_key :: "string option"
  media_mime_type :: "string option"
  media_size_bytes :: "int option"
  reply_to_id :: "uuid option"
  m_status :: string
  delivered_at :: "instant option"
  read_at :: "instant option"
  is_secret :: bool
  is_self_destruct :: bool
  destruct_after_seconds :: "int option"
  destruct_at :: "instant option"
  is_destructed :: bool
  deleted_at :: "instant option"
  deleted_for_everyone :: bool
  is_edited :: bool
  edit_count :: int

record group =
  g_id :: uuid
  g_created_at :: instant
  g_name :: string
  g_description :: "string option"
  g_avatar_object_key :: "string option"
  group_type :: string
  max_members :: int
  is_archived :: bool
  only_admins_can_post :: bool
  is_announcement_group :: bool
  join_approval_required :: bool
  only_admins_can_add_members :: bool
  disappearing_messages_seconds :: "int option"

record group_member =
  gm_id :: uuid
  gm_created_at :: instant
  gm_group_id :: uuid
  gm_user_id :: uuid
  gm_role :: string
  added_by_id :: "uuid option"
  joined_at :: instant
  is_muted :: bool
  muted_until :: "instant option"
  last_read_message_id :: "uuid option"

record join_request =
  jr_id :: uuid
  jr_created_at :: instant
  jr_group_id :: uuid
  jr_user_id :: uuid
  jr_status :: string
  jr_message :: "string option"
  decided_by_id :: "uuid option"
  decided_at :: "instant option"

record broadcast =
  b_id :: uuid
  b_created_at :: instant
  b_title :: string
  b_body :: string
  b_department :: "string option"
  b_priority :: string
  created_by_id :: "uuid option"
  b_expires_at :: "instant option"

record broadcast_ack =
  ba_id :: uuid
  ba_created_at :: instant
  ba_broadcast_id :: uuid
  ba_user_id :: uuid

record audit_log =
  a_id :: uuid
  a_created_at :: instant
  actor_id :: "uuid option"
  actor_role :: "string option"
  impersonator_id :: "uuid option"
  action :: string
  resource_type :: "string option"
  resource_id :: "string option"
  description :: "string option"
  before_state :: "payload option"
  after_state :: "payload option"
  metadata :: "payload option"
  a_ip_address :: "string option"
  a_user_agent :: "string option"
  a_session_id :: "uuid option"
  success :: bool
  error_code :: "string option"

text \<open>An audit row with only the columns every insertion gives; the others default to NULL.\<close>

definition audit_row :: "uuid \<Rightarrow> instant \<Rightarrow> uuid option \<Rightarrow> string option \<Rightarrow> string \<Rightarrow> bool \<Rightarrow> audit_log" where
  "audit_row i now actor role act ok =
     \<lparr>a_id = i, a_created_at = now, actor_id = actor, actor_role = role, impersonator_id = None,
      action = act, resource_type = None, resource_id = None, description = None,
      before_state = None, after_state = None, metadata = None, a_ip_address = None,
      a_user_agent = None, a_session_id = None, success = ok, error_code = None\<rparr>"

section \<open>The database\<close>

record db =
  users :: "user list"
  sessions :: "user_session list"
  messages :: "message list"
  groups :: "group list"
  group_members :: "group_member list"
  join_requests :: "join_request list"
  broadcasts :: "broadcast list"
  broadcast_acks :: "broadcast_ack list"
  audit_logs :: "audit_log list"

definition empty_db :: db where
  "empty_db = \<lparr>users = [], sessions = [], messages = [], groups = [], group_members = [],
     join_requests = [], broadcasts = [], broadcast_acks = [], audit_logs = []\<rparr>"

text \<open>A nullable foreign key is NULL or refers to an existing row.\<close>

definition ref_ok :: "'i list \<Rightarrow> 'i option \<Rightarrow> bool" where
  "ref_ok ids r = (case r of None \<Rightarrow> True | Some i \<Rightarrow> i \<in> set ids)"

lemma ref_ok_simps [simp]: "ref_ok ids None" "ref_ok ids (Some i) \<longleftrightarrow> i \<in> set ids"
  by (simp_all add: ref_ok_def)

definition users_ok :: "user list \<Rightarrow> bool" where
  "users_ok us \<longleftrightarrow> unique_on u_id us \<and> unique_on phone_number us \<and>
     distinct (filter (\<lambda>n. n \<noteq> None) (map username us))"

definition sessions_ok :: "uuid list \<Rightarrow> user_session list \<Rightarrow> bool" where
  "sessions_ok uids ss \<longleftrightarrow> unique_on s_id ss \<and> unique_on refresh_token_hash ss \<and>
     (\<forall>s\<in>set ss. s_user_id s \<in> set uids)"

definition messages_ok :: "uuid list \<Rightarrow> uuid list \<Rightarrow> message list \<Rightarrow> bool" where
  "messages_ok uids gids ms \<longleftrightarrow> unique_on m_id ms \<and>
     (\<forall>m\<in>set ms. ref_ok uids (sender_id m) \<and> ref_ok uids (recipient_id m) \<and>
        ref_ok gids (m_group_id m) \<and> ref_ok (map m_id ms) (reply_to_id m))"

definition members_ok :: "uuid list \<Rightarrow> uuid list \<Rightarrow> group_member list \<Rightarrow> bool" where
  "members_ok uids gids gms \<longleftrightarrow> unique_on gm_id gms \<and>
     unique_on (\<lambda>m. (gm_group_id m, gm_user_id m)) gms \<and>
     (\<forall>m\<in>set gms. gm_group_id m \<in> set gids \<and> gm_user_id m \<in> set uids \<and> ref_ok uids (added_by_id m))"

definition requests_ok :: "uuid list \<Rightarrow> uuid list \<Rightarrow> join_request list \<Rightarrow> bool" where
  "requests_ok uids gids rs \<longleftrightarrow> unique_on jr_id rs \<and>
     unique_on (\<lambda>r. (jr_group_id r, jr_user_id r)) rs \<and>
     (\<forall>r\<in>set rs. jr_group_id r \<in> set gids \<and> jr_user_id r \<in> set uids \<and> ref_ok uids (decided_by_id r))"

definition broadcasts_ok :: "uuid list \<Rightarrow> broadcast list \<Rightarrow> bool" where
  "broadcasts_ok uids bs \<longleftrightarrow> unique_on b_id bs \<and> (\<forall>b\<in>set bs. ref_ok uids (created_by_id b))"

definition acks_ok :: "uuid list \<Rightarrow> uuid list \<Rightarrow> broadcast_ack list \<Rightarrow> bool" where
  "acks_ok uids bids acks \<longleftrightarrow> unique_on ba_id acks \<and>
     unique_on (\<lambda>a. (ba_broadcast_id a, ba_user_id a)) acks \<and>
     (\<forall>a\<in>set acks. ba_broadcast_id a \<in> set bids \<and> ba_user_id a \<in> set uids)"

definition audit_ok :: "uuid list \<Rightarrow> audit_log list \<Rightarrow> bool" where
  "audit_ok uids as \<longleftrightarrow> unique_on a_id as \<and> (\<forall>a\<in>set as. ref_ok uids (actor_id a))"

definition integrity :: "db \<Rightarrow> bool" where
  "integrity d \<longleftrightarrow>
     users_ok (users d) \<and>
     sessions_ok (map u_id (users d)) (sessions d) \<and>
     messages_ok (map u_id (users d)) (map g_id (groups d)) (messages d) \<and>
     unique_on g_id (groups d) \<and>
     members_ok (map u_id (users d)) (map g_id (groups d)) (group_members d) \<and>
     requests_ok (map u_id (users d)) (map g_id (groups d)) (join_requests d) \<and>
     broadcasts_ok (map u_id (users d)) (broadcasts d) \<and>
     acks_ok (map u_id (users d)) (map b_id (broadcasts d)) (broadcast_acks d) \<and>
     audit_ok (map u_id (users d)) (audit_logs d)"

text \<open>
  \<open>commit d d' x\<close>: the transaction turned \<open>d\<close> into \<open>d'\<close> and the handler goes on with \<open>x\<close>;
  a violated constraint raises and rolls back.
\<close>

definition commit :: "db \<Rightarrow> db \<Rightarrow> 'a \<Rightarrow> 'a res \<times> db" where
  "commit d d' x = (if integrity d' then (Inr x, d') else (Inl IntegrityError, d))"

lemma commit_Inr: "fst (commit d d' x) = Inr y \<Longrightarrow> y = x \<and> snd (commit d d' x) = d' \<and> integrity d'"
  by (auto simp: commit_def split: if_splits)

lemma integrity_commit [intro]: "integrity d \<Longrightarrow> integrity (snd (commit d d' x))"
  by (simp add: commit_def)

lemma integrity_empty: "integrity empty_db"
  by (simp add: integrity_def empty_db_def users_ok_def sessions_ok_def messages_ok_def members_ok_def
      requests_ok_def broadcasts_ok_def acks_ok_def audit_ok_def)

text \<open>Lookup by primary key.\<close>

definition user_by_id :: "db \<Rightarrow> uuid \<Rightarrow> user option" where
  "user_by_id d i = scalar (\<lambda>u. u_id u = i) (users d)"

definition message_by_id :: "db \<Rightarrow> uuid \<Rightarrow> message option" where
  "message_by_id d i = scalar (\<lambda>m. m_id m = i) (messages d)"

text \<open>Overwriting a loaded row by its primary key.\<close>

definition set_user :: "user \<Rightarrow> db \<Rightarrow> db" where
  "set_user u d = d\<lparr>users := update_where (\<lambda>x. u_id x = u_id u) (\<lambda>_. u) (users d)\<rparr>"

definition set_message :: "message \<Rightarrow> db \<Rightarrow> db" where
  "set_message m d = d\<lparr>messages := update_where (\<lambda>x. m_id x = m_id m) (\<lambda>_. m) (messages d)\<rparr>"

definition add_audit :: "audit_log \<Rightarrow> db \<Rightarrow> db" where
  "add_audit a d = d\<lparr>audit_logs := audit_logs d @ [a]\<rparr>"

lemma set_user_sel [simp]:
  "sessions (set_user u d) = sessions d" "messages (set_user u d) = messages d"
  "groups (set_user u d) = groups d" "group_members (set_user u d) = group_members d"
  "join_requests (set_user u d) = join_requests d" "broadcasts (set_user u d) = broadcasts d"
  "broadcast_acks (set_user u d) = broadcast_acks d" "audit_logs (set_user u d) = audit_logs d"
  by (simp_all add: set_user_def)

lemma set_message_sel [simp]:
  "sessions (set_message m d) = sessions d" "users (set_message m d) = users d"
  "groups (set_message m d) = groups d" "group_members (set_message m d) = group_members d"
  "join_requests (set_message m d) = join_requests d" "broadcasts (set_message m d) = broadcasts d"
  "broadcast_acks (set_message m d) = broadcast_acks d" "audit_logs (set_message m d) = audit_logs d"
  by (simp_all add: set_message_def)

lemma add_audit_sel [simp]:
  "sessions (add_audit a d) = sessions d" "users (add_audit a d) = users d"
  "messages (add_audit a d) = messages d"
  "groups (add_audit a d) = groups d" "group_members (add_audit a d) = group_members d"
  "join_requests (add_audit a d) = join_requests d" "broadcasts (add_audit a d) = broadcasts d"
  "broadcast_acks (add_audit a d) = broadcast_acks d" "audit_logs (add_audit a d) = audit_logs d @ [a]"
  by (simp_all add: add_audit_def)

lemma map_id_set_user [simp]: "map u_id (users (set_user u d)) = map u_id (users d)"
  by (simp add: set_user_def map_update_where)

lemma map_id_set_message [simp]: "map m_id (messages (set_message m d)) = map m_id (messages d)"
  by (simp add: set_message_def map_update_where)

lemma user_by_id_set_user:
  "user_by_id (set_user u d) i =
    (if i = u_id u then map_option (\<lambda>_. u) (user_by_id d i) else user_by_id d i)"
  by (simp add: user_by_id_def set_user_def find_overwrite)

lemma message_by_id_set_message:
  "message_by_id (set_message m d) i =
    (if i = m_id m then map_option (\<lambda>_. m) (message_by_id d i) else message_by_id d i)"
  by (simp add: message_by_id_def set_message_def find_overwrite)

lemma by_id_frame [simp]:
  "user_by_id (set_message m d) i = user_by_id d i"
  "user_by_id (add_audit a d) i = user_by_id d i"
  "message_by_id (add_audit a d) i = message_by_id d i"
  "message_by_id (set_user u d) i = message_by_id d i"
  by (simp_all add: user_by_id_def message_by_id_def)

lemma user_by_idD: "user_by_id d i = Some u \<Longrightarrow> u \<in> set (users d) \<and> u_id u = i"
  unfolding user_by_id_def by (drule find_SomeD) simp

lemma message_by_idD: "message_by_id d i = Some m \<Longrightarrow> m \<in> set (messages d) \<and> m_id m = i"
  unfolding message_by_id_def by (drule find_SomeD) simp

section \<open>Updates that keep the constraints\<close>

lemma integrity_set_user:
  assumes "integrity d" and "user_by_id d (u_id u) = Some u0"
    and "phone_number u = phone_number u0" and "username u = username u0"
  shows "integrity (set_user u d)"
proof -
  have un: "unique_on u_id (users d)" and ok: "users_ok (users d)"
    using assms(1) by (simp_all add: integrity_def users_ok_def)
  have f: "scalar (\<lambda>x. u_id x = u_id u) (users d) = Some u0"
    using assms(2) by (simp add: user_by_id_def)
  have "map phone_number (users (set_user u d)) = map phone_number (users d)"
    "map username (users (set_user u d)) = map username (users d)"
    using map_overwrite [OF un f assms(3)] map_overwrite [OF un f assms(4)]
    by (simp_all add: set_user_def)
  with ok have "users_ok (users (set_user u d))"
    by (simp add: users_ok_def unique_on_def)
  with assms(1) show ?thesis by (simp add: integrity_def)
qed

lemma integrity_set_message:
  assumes "integrity d" and "message_by_id d (m_id m) = Some m0"
    and "sender_id m = sender_id m0" "recipient_id m = recipient_id m0"
    and "m_group_id m = m_group_id m0" "reply_to_id m = reply_to_id m0"
  shows "integrity (set_message m d)"
proof -
  have m0: "m0 \<in> set (messages d)" using assms(2) by (auto dest: message_by_idD)
  have ok: "messages_ok (map u_id (users d)) (map g_id (groups d)) (messages d)"
    using assms(1) by (simp add: integrity_def)
  have ids: "map m_id (messages (set_message m d)) = map m_id (messages d)" by simp
  have "x \<in> set (messages d) \<or> x = m" if "x \<in> set (messages (set_message m d))" for x
    using that by (auto simp: set_message_def in_update_where split: if_splits)
  with ok m0 have "messages_ok (map u_id (users d)) (map g_id (groups d)) (messages (set_message m d))"
    unfolding messages_ok_def unique_on_def ids using assms(3-) by metis
  with assms(1) show ?thesis by (simp add: integrity_def)
qed

lemma integrity_add_audit:
  assumes "integrity d" and "a_id a \<notin> a_id ` set (audit_logs d)"
    and "ref_ok (map u_id (users d)) (actor_id a)"
  shows "integrity (add_audit a d)"
  using assms by (auto simp: integrity_def audit_ok_def)

lemma in_ids: "user_by_id d i = Some u \<Longrightarrow> i \<in> set (map u_id (users d))"
  by (auto dest: user_by_idD)

end
