(* ===== verification/Redis.thy ===== *)
theory Redis
  imports Uuid "HOL-Library.FSet"
begin

text \<open>
  The Redis server is not part of the repository, so it is a parameter: the commands the
  program issues are the fields of a record \<open>'s redis\<close> over an abstract server state
  \<open>'s\<close>, and every definition that talks to Redis takes such a record. What the program
  relies on is stated in two locales over observations of a server state: the string under
  a key (\<open>strs\<close>), the members of the set under a key (\<open>members\<close>) and the remaining time
  to live in milliseconds (\<open>ttl\<close>).
  \<^item> \<open>redis_values\<close>: what each command does to strings and sets. A command on a key of the
    wrong type is an error in Redis, so a law about a string command assumes that the key
    holds no set, and the other way round.
  \<^item> \<open>redis\<close>: the same with expiry, and with time passing (\<open>r_elapse\<close>).

  \<open>FakeRedis\<close> of \<^verbatim>\<open>tests/fakes.py\<close>, the in-memory double the repository's tests run
  against, satisfies the value laws (interpretation \<open>fake\<close>). A reference store with
  expiry satisfies all of them (interpretation \<open>ref\<close>): the laws are consistent, and the
  witnesses of the other theories run on it.
\<close>

record 's redis =
  r_get :: "string \<Rightarrow> 's \<Rightarrow> string option"
  r_set :: "string \<Rightarrow> string \<Rightarrow> nat option \<Rightarrow> 's \<Rightarrow> 's"
  r_delete :: "string \<Rightarrow> 's \<Rightarrow> 's"
  r_getdel :: "string \<Rightarrow> 's \<Rightarrow> string option \<times> 's"
  r_incr :: "string \<Rightarrow> 's \<Rightarrow> int \<times> 's"
  r_exists :: "string \<Rightarrow> 's \<Rightarrow> bool"
  r_expire :: "string \<Rightarrow> nat \<Rightarrow> 's \<Rightarrow> 's"
  r_ttl :: "string \<Rightarrow> 's \<Rightarrow> int"
  r_sadd :: "string \<Rightarrow> string \<Rightarrow> 's \<Rightarrow> 's"
  r_srem :: "string \<Rightarrow> string \<Rightarrow> 's \<Rightarrow> 's"
  r_scard :: "string \<Rightarrow> 's \<Rightarrow> nat"
  r_sismember :: "string \<Rightarrow> string \<Rightarrow> 's \<Rightarrow> bool"
  r_smembers :: "string \<Rightarrow> 's \<Rightarrow> string fset"
  r_elapse :: "nat \<Rightarrow> 's \<Rightarrow> 's"

text \<open>
  A counter key holds the decimal form of a number below a bound, or nothing; \<^verbatim>\<open>INCR\<close> is
  specified up to the largest signed 64-bit integer.
\<close>

definition counter_below :: "int \<Rightarrow> string option \<Rightarrow> bool" where
  "counter_below m x \<longleftrightarrow> (case x of None \<Rightarrow> True
     | Some v \<Rightarrow> (case py_int 10 v of None \<Rightarrow> False | Some n \<Rightarrow> v = str_int n \<and> 0 \<le> n \<and> n < m))"

definition count_of :: "string option \<Rightarrow> int" where
  "count_of x = (case x of None \<Rightarrow> 0 | Some v \<Rightarrow> (case py_int 10 v of None \<Rightarrow> 0 | Some n \<Rightarrow> n))"

abbreviation incr_limit :: int where
  "incr_limit \<equiv> 2 ^ 63 - 1"

lemma counter_simps [simp]:
  "count_of None = 0" "count_of (Some (str_int n)) = n"
  "counter_below m None" "counter_below m (Some (str_int n)) \<longleftrightarrow> 0 \<le> n \<and> n < m"
  by (simp_all add: count_of_def counter_below_def)

lemma counter_count_nonneg: "counter_below m x \<Longrightarrow> 0 \<le> count_of x"
  by (auto simp: counter_below_def count_of_def split: option.splits)

lemma counter_mono: "counter_below m x \<Longrightarrow> m \<le> n \<Longrightarrow> counter_below n x"
  by (auto simp: counter_below_def split: option.splits)

lemma counter_below_iff: "counter_below m x \<longleftrightarrow> x = None \<or> (\<exists>n. x = Some (str_int n) \<and> 0 \<le> n \<and> n < m)"
  by (auto simp: counter_below_def split: option.splits)

section \<open>The laws\<close>

locale redis_values =
  fixes R :: "'s redis"
    and strs :: "'s \<Rightarrow> string \<Rightarrow> string option"
    and members :: "'s \<Rightarrow> string \<Rightarrow> string fset"
  assumes get: "members s k = {||} \<Longrightarrow> r_get R k s = strs s k"
    and strs_set: "members s k = {||} \<Longrightarrow> strs (r_set R k v ex s) = (strs s)(k := Some v)"
    and members_set: "members s k = {||} \<Longrightarrow> members (r_set R k v ex s) = members s"
    and strs_delete: "strs (r_delete R k s) = (strs s)(k := None)"
    and members_delete: "members (r_delete R k s) = (members s)(k := {||})"
    and getdel: "members s k = {||} \<Longrightarrow> fst (r_getdel R k s) = strs s k"
    and strs_getdel: "members s k = {||} \<Longrightarrow> strs (snd (r_getdel R k s)) = (strs s)(k := None)"
    and members_getdel: "members s k = {||} \<Longrightarrow> members (snd (r_getdel R k s)) = members s"
    and incr: "members s k = {||} \<Longrightarrow> counter_below incr_limit (strs s k) \<Longrightarrow>
      fst (r_incr R k s) = count_of (strs s k) + 1"
    and strs_incr: "members s k = {||} \<Longrightarrow> counter_below incr_limit (strs s k) \<Longrightarrow>
      strs (snd (r_incr R k s)) = (strs s)(k := Some (str_int (count_of (strs s k) + 1)))"
    and members_incr: "members s k = {||} \<Longrightarrow> counter_below incr_limit (strs s k) \<Longrightarrow>
      members (snd (r_incr R k s)) = members s"
    and exists_str: "members s k = {||} \<Longrightarrow> r_exists R k s \<longleftrightarrow> strs s k \<noteq> None"
    and strs_expire: "0 < n \<Longrightarrow> strs (r_expire R k n s) = strs s"
    and members_expire: "0 < n \<Longrightarrow> members (r_expire R k n s) = members s"
    and strs_sadd: "strs s k = None \<Longrightarrow> strs (r_sadd R k m s) = strs s"
    and members_sadd: "strs s k = None \<Longrightarrow>
      members (r_sadd R k m s) = (members s)(k := finsert m (members s k))"
    and strs_srem: "strs s k = None \<Longrightarrow> strs (r_srem R k m s) = strs s"
    and members_srem: "strs s k = None \<Longrightarrow>
      members (r_srem R k m s) = (members s)(k := members s k |-| {|m|})"
    and scard: "strs s k = None \<Longrightarrow> r_scard R k s = fcard (members s k)"
    and sismember: "strs s k = None \<Longrightarrow> r_sismember R k m s \<longleftrightarrow> m |\<in>| members s k"
    and smembers: "strs s k = None \<Longrightarrow> r_smembers R k s = members s k"
begin

lemmas value_laws =
  get strs_set members_set strs_delete members_delete getdel strs_getdel members_getdel
  incr strs_incr members_incr exists_str strs_expire members_expire
  strs_sadd members_sadd strs_srem members_srem scard sismember smembers

end

locale redis = redis_values R strs members
  for R :: "'s redis"
    and strs :: "'s \<Rightarrow> string \<Rightarrow> string option"
    and members :: "'s \<Rightarrow> string \<Rightarrow> string fset" +
  fixes ttl :: "'s \<Rightarrow> string \<Rightarrow> nat option"
  assumes ttl_absent: "strs s k = None \<Longrightarrow> members s k = {||} \<Longrightarrow> ttl s k = None"
    and ttl_set: "ttl (r_set R k v ex s) = (ttl s)(k := map_option (\<lambda>n. n * 1000) ex)"
    and ttl_delete: "ttl (r_delete R k s) = (ttl s)(k := None)"
    and ttl_getdel: "members s k = {||} \<Longrightarrow> ttl (snd (r_getdel R k s)) = (ttl s)(k := None)"
    and ttl_incr: "members s k = {||} \<Longrightarrow> counter_below incr_limit (strs s k) \<Longrightarrow>
      ttl (snd (r_incr R k s)) = ttl s"
    and ttl_expire: "0 < n \<Longrightarrow> ttl (r_expire R k n s) =
      (ttl s)(k := if strs s k = None \<and> members s k = {||} then None else Some (n * 1000))"
    and ttl_sadd: "strs s k = None \<Longrightarrow> ttl (r_sadd R k m s) = ttl s"
    and ttl_cmd: "ttl s k = Some t \<Longrightarrow> r_ttl R k s = int ((t + 500) div 1000)"
    and strs_elapse: "strs (r_elapse R n s) k =
      (case ttl s k of None \<Rightarrow> strs s k | Some t \<Rightarrow> if t \<le> n then None else strs s k)"
    and members_elapse: "members (r_elapse R n s) k =
      (case ttl s k of None \<Rightarrow> members s k | Some t \<Rightarrow> if t \<le> n then {||} else members s k)"
    and ttl_elapse: "ttl (r_elapse R n s) k =
      (case ttl s k of None \<Rightarrow> None | Some t \<Rightarrow> if t \<le> n then None else Some (t - n))"
begin

lemmas ttl_laws =
  ttl_set ttl_delete ttl_getdel ttl_incr ttl_expire ttl_sadd ttl_cmd ttl_elapse

lemmas elapse_laws = strs_elapse members_elapse ttl_elapse

end

section \<open>A reference store with expiry\<close>

datatype rval = RStr string | RSet "string fset"

type_synonym store = "string \<Rightarrow> (rval \<times> nat option) option"

definition ref_strs :: "store \<Rightarrow> string \<Rightarrow> string option" where
  "ref_strs s k = (case s k of Some (RStr v, _) \<Rightarrow> Some v | _ \<Rightarrow> None)"

definition ref_members :: "store \<Rightarrow> string \<Rightarrow> string fset" where
  "ref_members s k = (case s k of Some (RSet S, _) \<Rightarrow> S | _ \<Rightarrow> {||})"

definition ref_ttl :: "store \<Rightarrow> string \<Rightarrow> nat option" where
  "ref_ttl s k = (case s k of Some (RStr _, t) \<Rightarrow> t
     | Some (RSet S, t) \<Rightarrow> (if S = {||} then None else t) | None \<Rightarrow> None)"

definition ref_redis :: "store redis" where
  "ref_redis = \<lparr>
     r_get = (\<lambda>k s. ref_strs s k),
     r_set = (\<lambda>k v ex s. s(k \<mapsto> (RStr v, map_option (\<lambda>n. n * 1000) ex))),
     r_delete = (\<lambda>k s. s(k := None)),
     r_getdel = (\<lambda>k s. (ref_strs s k, s(k := None))),
     r_incr = (\<lambda>k s. let n = count_of (ref_strs s k) + 1
                     in (n, s(k \<mapsto> (RStr (str_int n), ref_ttl s k)))),
     r_exists = (\<lambda>k s. s k \<noteq> None \<and> (ref_strs s k \<noteq> None \<or> ref_members s k \<noteq> {||})),
     r_expire = (\<lambda>k n s. case s k of None \<Rightarrow> s | Some (v, _) \<Rightarrow> s(k \<mapsto> (v, Some (n * 1000)))),
     r_ttl = (\<lambda>k s. case ref_ttl s k of Some t \<Rightarrow> int ((t + 500) div 1000) | None \<Rightarrow> - 1),
     r_sadd = (\<lambda>k m s. s(k \<mapsto> (RSet (finsert m (ref_members s k)), ref_ttl s k))),
     r_srem = (\<lambda>k m s. s(k \<mapsto> (RSet (ref_members s k |-| {|m|}), ref_ttl s k))),
     r_scard = (\<lambda>k s. fcard (ref_members s k)),
     r_sismember = (\<lambda>k m s. m |\<in>| ref_members s k),
     r_smembers = (\<lambda>k s. ref_members s k),
     r_elapse = (\<lambda>n s k. case s k of Some (v, Some t) \<Rightarrow> if t \<le> n then None else Some (v, Some (t - n))
                     | x \<Rightarrow> x) \<rparr>"

lemmas ref_defs = ref_redis_def ref_strs_def ref_members_def ref_ttl_def

interpretation ref: redis ref_redis ref_strs ref_members ref_ttl
  by unfold_locales
    (auto simp: ref_defs fun_eq_iff Let_def split: option.splits rval.splits prod.splits if_splits)

section \<open>FakeRedis of tests/fakes.py\<close>

text \<open>
  Two dictionaries, one for strings and one for sets; expiry arguments are accepted and
  ignored, and emptied sets stay in their dictionary.
\<close>

record fake_state =
  f_store :: "string \<Rightarrow> string option"
  f_sets :: "string \<Rightarrow> string fset option"

definition fake_members :: "fake_state \<Rightarrow> string \<Rightarrow> string fset" where
  "fake_members s k = (case f_sets s k of None \<Rightarrow> {||} | Some S \<Rightarrow> S)"

definition fake_delete :: "string \<Rightarrow> fake_state \<Rightarrow> fake_state" where
  "fake_delete k s = s\<lparr>f_store := (f_store s)(k := None), f_sets := (f_sets s)(k := None)\<rparr>"

definition fake_incr :: "string \<Rightarrow> fake_state \<Rightarrow> int \<times> fake_state" where
  "fake_incr k s =
     (let val = the (py_int 10 (case f_store s k of None \<Rightarrow> ''0'' | Some v \<Rightarrow> v)) + 1
      in (val, s\<lparr>f_store := (f_store s)(k \<mapsto> str_int val)\<rparr>))"

definition fake_sadd :: "string \<Rightarrow> string \<Rightarrow> fake_state \<Rightarrow> fake_state" where
  "fake_sadd k m s = s\<lparr>f_sets := (f_sets s)(k \<mapsto> finsert m (fake_members s k))\<rparr>"

definition fake_srem :: "string \<Rightarrow> string \<Rightarrow> fake_state \<Rightarrow> fake_state" where
  "fake_srem k m s =
     s\<lparr>f_sets := (f_sets s)(k := map_option (\<lambda>S. S |-| {|m|}) (f_sets s k))\<rparr>"

definition fake_redis :: "fake_state redis" where
  "fake_redis = \<lparr>
     r_get = (\<lambda>k s. f_store s k),
     r_set = (\<lambda>k v ex s. s\<lparr>f_store := (f_store s)(k \<mapsto> v)\<rparr>),
     r_delete = fake_delete,
     r_getdel = (\<lambda>k s. (f_store s k, s\<lparr>f_store := (f_store s)(k := None)\<rparr>)),
     r_incr = fake_incr,
     r_exists = (\<lambda>k s. f_store s k \<noteq> None),
     r_expire = (\<lambda>k n s. s),
     r_ttl = (\<lambda>k s. if f_store s k = None then - 2 else 42),
     r_sadd = fake_sadd,
     r_srem = fake_srem,
     r_scard = (\<lambda>k s. fcard (fake_members s k)),
     r_sismember = (\<lambda>k m s. m |\<in>| fake_members s k),
     r_smembers = (\<lambda>k s. fake_members s k),
     r_elapse = (\<lambda>n s. s) \<rparr>"

lemma py_int_zero: "py_int 10 ''0'' = Some 0"
proof -
  have "str_int 0 = ''0''" by code_simp
  with py_int_str_int [of 0] show ?thesis by simp
qed

lemma fake_incr_val:
  "counter_below m (f_store s k) \<Longrightarrow> fake_incr k s =
     (count_of (f_store s k) + 1,
      s\<lparr>f_store := (f_store s)(k \<mapsto> str_int (count_of (f_store s k) + 1))\<rparr>)"
  by (auto simp: fake_incr_def counter_below_iff py_int_zero Let_def split: option.splits)

interpretation fake: redis_values fake_redis f_store fake_members
  by unfold_locales
    (auto simp: fake_redis_def fun_eq_iff fake_incr_val fake_members_def fake_delete_def
       fake_sadd_def fake_srem_def split: option.splits)

end
