(* ===== verification/Json.thy ===== *)
theory Json
  imports Py_Str
begin

text \<open>
  \<^verbatim>\<open>json.dumps\<close> and \<^verbatim>\<open>json.loads\<close> of the standard library, which carry every frame,
  every Redis document and every published event of the program. \<open>dumps\<close> prints with the
  default separators and \<^verbatim>\<open>ensure_ascii\<close>; \<open>loads\<close> is the scanner of
  \<^verbatim>\<open>json.decoder\<close>. Floats are kept as their literal, code points are those below 256.
  \<open>loads_dumps\<close> is the round trip on values without floats and with distinct object keys,
  which is what the program's dictionaries are.
\<close>

section \<open>Printing\<close>

definition hex2 :: "nat \<Rightarrow> string" where
  "hex2 n = [digit_char (n div 16), digit_char (n mod 16)]"

definition esc_char :: "char \<Rightarrow> string" where
  "esc_char c = (let n = (of_char c :: nat) in
     if n = 34 then [CHR 92, CHR 34]
     else if n = 92 then [CHR 92, CHR 92]
     else if n = 8 then [CHR 92, CHR ''b'']
     else if n = 9 then [CHR 92, CHR ''t'']
     else if n = 10 then [CHR 92, CHR ''n'']
     else if n = 12 then [CHR 92, CHR ''f'']
     else if n = 13 then [CHR 92, CHR ''r'']
     else if n < 32 \<or> 126 < n then [CHR 92] @ ''u00'' @ hex2 n
     else [c])"

definition dump_string :: "string \<Rightarrow> string" where
  "dump_string s = [CHR 34] @ concat (map esc_char s) @ [CHR 34]"

fun join :: "string \<Rightarrow> string list \<Rightarrow> string" where
  "join sep [] = []"
| "join sep [x] = x"
| "join sep (x # y # ys) = x @ sep @ join sep (y # ys)"

fun dumps :: "json \<Rightarrow> string" where
  "dumps JNull = ''null''"
| "dumps (JBool b) = (if b then ''true'' else ''false'')"
| "dumps (JInt i) = str_int i"
| "dumps (JFloat lit) = lit"
| "dumps (JStr s) = dump_string s"
| "dumps (JArr vs) = ''['' @ join '', '' (map dumps vs) @ '']''"
| "dumps (JObj p) = ''{'' @ join '', '' (map (\<lambda>(k, v). dump_string k @ '': '' @ dumps v) p) @ ''}''"

section \<open>Scanning\<close>

definition json_ws :: "char \<Rightarrow> bool" where
  "json_ws c \<longleftrightarrow> c \<in> {CHR '' '', CHR 9, CHR 10, CHR 13}"

definition skip_ws :: "string \<Rightarrow> string" where
  "skip_ws s = dropWhile json_ws s"

definition hex_val :: "char \<Rightarrow> nat option" where
  "hex_val c = (case digit_of c of None \<Rightarrow> None | Some d \<Rightarrow> if d < 16 then Some d else None)"

definition hex4 :: "char \<Rightarrow> char \<Rightarrow> char \<Rightarrow> char \<Rightarrow> nat option" where
  "hex4 a b c d = (case (hex_val a, hex_val b, hex_val c, hex_val d) of
     (Some x, Some y, Some z, Some w) \<Rightarrow> Some (x * 4096 + y * 256 + z * 16 + w) | _ \<Rightarrow> None)"

definition backslash :: "char \<Rightarrow> char option" where
  "backslash c = map_of [(CHR 34, CHR 34), (CHR 92, CHR 92), (CHR ''/'', CHR ''/''), (CHR ''b'', CHR 8),
     (CHR ''f'', CHR 12), (CHR ''n'', CHR 10), (CHR ''r'', CHR 13), (CHR ''t'', CHR 9)] c"

fun scanstring :: "string \<Rightarrow> (string \<times> string) option" where
  "scanstring [] = None"
| "scanstring (c # cs) =
     (if c = CHR 34 then Some ([], cs)
      else if c = CHR 92 then
        (case cs of [] \<Rightarrow> None
         | e # es \<Rightarrow>
             if e = CHR ''u'' then
               (case es of w # x # y # z # rest \<Rightarrow>
                  (case hex4 w x y z of
                     None \<Rightarrow> None
                   | Some n \<Rightarrow> if n < 256 then map_option (\<lambda>(s, r). (char_of n # s, r)) (scanstring rest) else None)
                | _ \<Rightarrow> None)
             else (case backslash e of None \<Rightarrow> None
                   | Some b \<Rightarrow> map_option (\<lambda>(s, r). (b # s, r)) (scanstring es)))
      else if (of_char c :: nat) < 32 then None
      else map_option (\<lambda>(s, r). (c # s, r)) (scanstring cs))"

definition is_digit :: "char \<Rightarrow> bool" where
  "is_digit c = (let n = (of_char c :: nat) in 48 \<le> n \<and> n \<le> 57)"

text \<open>The number of characters of an optional fraction and of an optional exponent.\<close>

definition frac_len :: "string \<Rightarrow> nat" where
  "frac_len s = (if starts_with s ''.'' \<and> takeWhile is_digit (tl s) \<noteq> []
     then Suc (length (takeWhile is_digit (tl s))) else 0)"

definition exp_len :: "string \<Rightarrow> nat" where
  "exp_len s =
     (if starts_with s ''e'' \<or> starts_with s ''E'' then
        (let sign = (if starts_with (tl s) ''+'' \<or> starts_with (tl s) ''-'' then 1 else 0);
             ds = takeWhile is_digit (drop sign (tl s))
         in if ds = [] then 0 else 1 + sign + length ds)
      else 0)"

definition match_number :: "string \<Rightarrow> (json \<times> string) option" where
  "match_number s =
     (let sign = (if starts_with s ''-'' then 1 else 0);
          ds = takeWhile is_digit (drop sign s);
          il = sign + (if starts_with ds ''0'' then 1 else length ds);
          fl = frac_len (drop il s);
          el = exp_len (drop (il + fl) s)
      in if ds = [] then None
         else if fl = 0 \<and> el = 0
           then map_option (\<lambda>i. (JInt i, drop il s)) (py_int 10 (take il s))
         else Some (JFloat (take (il + fl + el) s), drop (il + fl + el) s))"

text \<open>A Python dictionary built from pairs: a repeated key keeps its place and takes the last value.\<close>

fun jset :: "string \<Rightarrow> json \<Rightarrow> payload \<Rightarrow> payload" where
  "jset k v [] = [(k, v)]"
| "jset k v ((k', v') # p) = (if k = k' then (k, v) # p else (k', v') # jset k v p)"

definition jdict :: "payload \<Rightarrow> payload" where
  "jdict p = foldl (\<lambda>d (k, v). jset k v d) [] p"

definition literals :: "(string \<times> json) list" where
  "literals = [(''null'', JNull), (''true'', JBool True), (''false'', JBool False), (''NaN'', JFloat ''NaN''),
     (''Infinity'', JFloat ''Infinity''), (''-Infinity'', JFloat ''-Infinity'')]"

text \<open>
  The recursive scanner. Its first argument bounds the number of values still to be read;
  every value consumes a character, so the length of the text is enough.
\<close>

fun scan_once :: "nat \<Rightarrow> string \<Rightarrow> (json \<times> string) option"
  and scan_items :: "nat \<Rightarrow> string \<Rightarrow> (json list \<times> string) option"
  and scan_pairs :: "nat \<Rightarrow> string \<Rightarrow> (payload \<times> string) option" where
  "scan_once 0 s = None"
| "scan_once (Suc n) s =
     (case s of
        [] \<Rightarrow> None
      | c # cs \<Rightarrow>
          if c = CHR 34 then map_option (\<lambda>(t, r). (JStr t, r)) (scanstring cs)
          else if c = CHR ''{'' then
            (if starts_with (skip_ws cs) ''}'' then Some (JObj [], tl (skip_ws cs))
             else map_option (\<lambda>(p, r). (JObj (jdict p), r)) (scan_pairs n (skip_ws cs)))
          else if c = CHR ''['' then
            (if starts_with (skip_ws cs) '']'' then Some (JArr [], tl (skip_ws cs))
             else map_option (\<lambda>(vs, r). (JArr vs, r)) (scan_items n (skip_ws cs)))
          else (case List.find (\<lambda>(w, v). starts_with s w) literals of
                  Some (w, v) \<Rightarrow> Some (v, drop (length w) s)
                | None \<Rightarrow> match_number s))"
| "scan_items 0 s = None"
| "scan_items (Suc n) s =
     (case scan_once n s of
        None \<Rightarrow> None
      | Some (v, r) \<Rightarrow>
          (case skip_ws r of
             [] \<Rightarrow> None
           | c # cs \<Rightarrow>
               if c = CHR '']'' then Some ([v], cs)
               else if c = CHR '','' then map_option (\<lambda>(vs, r'). (v # vs, r')) (scan_items n (skip_ws cs))
               else None))"
| "scan_pairs 0 s = None"
| "scan_pairs (Suc n) s =
     (if \<not> starts_with s [CHR 34] then None
      else case scanstring (tl s) of
        None \<Rightarrow> None
      | Some (k, r) \<Rightarrow>
          (if \<not> starts_with (skip_ws r) '':'' then None
           else case scan_once n (skip_ws (tl (skip_ws r))) of
             None \<Rightarrow> None
           | Some (v, r') \<Rightarrow>
               (case skip_ws r' of
                  [] \<Rightarrow> None
                | c # cs \<Rightarrow>
                    if c = CHR ''}'' then Some ([(k, v)], cs)
                    else if c = CHR '','' then map_option (\<lambda>(p, r''). ((k, v) # p, r'')) (scan_pairs n (skip_ws cs))
                    else None)))"

definition loads :: "string \<Rightarrow> json option" where
  "loads s =
     (let t = skip_ws s
      in case scan_once (Suc (length t)) t of
           None \<Rightarrow> None
         | Some (v, r) \<Rightarrow> if skip_ws r = [] then Some v else None)"

section \<open>Round trip\<close>

text \<open>Values without floats whose objects have distinct keys, and what may follow a printed value.\<close>

fun jplain :: "json \<Rightarrow> bool" where
  "jplain (JFloat _) = False"
| "jplain (JArr vs) = list_all jplain vs"
| "jplain (JObj p) = (distinct (map fst p) \<and> list_all (\<lambda>(k, v). jplain v) p)"
| "jplain _ = True"

definition stop :: "string \<Rightarrow> bool" where
  "stop r \<longleftrightarrow> r = [] \<or> hd r \<in> {CHR '','', CHR '']'', CHR ''}''}"

lemma hex_val_digit_char [simp]: "d < 16 \<Longrightarrow> hex_val (digit_char d) = Some d"
  by (simp add: hex_val_def)

lemma char_code: "c = d \<longleftrightarrow> (of_char c :: nat) = of_char d"
  by simp

lemma scanstring_esc: "scanstring (esc_char c @ t) = map_option (\<lambda>(s, r). (c # s, r)) (scanstring t)"
proof -
  define n where "n = (of_char c :: nat)"
  have c: "c = char_of n" and n: "n < 256" by (simp_all add: n_def)
  have zero: "hex_val CHR ''0'' = Some 0" by (simp add: hex_val_def digit_of_def)
  have hex: "hex4 CHR ''0'' CHR ''0'' (digit_char (n div 16)) (digit_char (n mod 16)) = Some n"
    using n by (simp add: hex4_def zero)
  consider "n \<in> {34, 92, 8, 9, 10, 12, 13}" | "n \<notin> {34, 92, 8, 9, 10, 12, 13}" "n < 32 \<or> 126 < n"
    | "n \<noteq> 34" "n \<noteq> 92" "32 \<le> n" "n \<le> 126" by force
  then show ?thesis
  proof cases
    case 1
    then have "c \<in> {CHR 34, CHR 92, CHR 8, CHR 9, CHR 10, CHR 12, CHR 13}"
      by (simp add: n_def char_code del: of_char_eq_iff)
    then show ?thesis by (auto simp: esc_char_def backslash_def)
  next
    case 2
    then show ?thesis using hex n by (simp add: esc_char_def n_def [symmetric] hex2_def c [symmetric])
  next
    case 3
    then have "c \<noteq> CHR 34" "c \<noteq> CHR 92" by (auto simp: n_def)
    with 3 show ?thesis by (simp add: esc_char_def n_def [symmetric])
  qed
qed

lemma scanstring_dump: "scanstring (concat (map esc_char s) @ CHR 34 # r) = Some (s, r)"
  by (induction s) (simp_all add: scanstring_esc)

lemma jset_fresh: "k \<notin> fst ` set p \<Longrightarrow> jset k v p = p @ [(k, v)]"
  by (induction k v p rule: jset.induct) auto

lemma jdict_distinct: "distinct (map fst p) \<Longrightarrow> jdict p = p"
proof -
  have "distinct (map fst (d @ p)) \<Longrightarrow> foldl (\<lambda>d (k, v). jset k v d) d p = d @ p" for d
    by (induction p arbitrary: d) (auto simp: jset_fresh)
  from this [of "[]"] show "distinct (map fst p) \<Longrightarrow> jdict p = p" by (simp add: jdict_def)
qed

lemma is_digit_digit_char [simp]: "d < 10 \<Longrightarrow> is_digit (digit_char d)"
  by (simp add: is_digit_def digit_char_def)

lemma is_digit_str_base: "c \<in> set (str_base 10 n) \<Longrightarrow> is_digit c"
  by (auto dest!: str_base_chars)

lemma stop_start:
  assumes "stop r" and "c \<notin> {CHR '','', CHR '']'', CHR ''}''}"
  shows "\<not> starts_with r [c]"
  using assms by (cases r) (auto simp: stop_def starts_with_def)

lemma stop_digits: "stop r \<Longrightarrow> takeWhile is_digit r = []"
  by (cases r) (auto simp: stop_def is_digit_def)

lemma stop_no_tail: "stop r \<Longrightarrow> frac_len r = 0 \<and> exp_len r = 0"
  by (simp add: frac_len_def exp_len_def stop_start)

lemma takeWhile_str_base: "stop r \<Longrightarrow> takeWhile is_digit (str_base 10 n @ r) = str_base 10 n"
  using is_digit_str_base by (simp add: takeWhile_append2 stop_digits)

lemma str_base_zero: "starts_with (str_base 10 n) ''0'' \<Longrightarrow> n = 0"
proof (induction n rule: less_induct)
  case (less n)
  show ?case
  proof (cases "n < 10")
    case True
    have "CHR ''0'' = digit_char 0" by code_simp
    with True have "digit_char n = digit_char 0"
      using less.prems by (simp add: str_base.simps starts_with_def)
    with True show ?thesis using digit_of_digit_char [of n] digit_of_digit_char [of 0] by simp
  next
    case False
    then have "str_base 10 n = str_base 10 (n div 10) @ [digit_char (n mod 10)]"
      by (simp add: str_base.simps [of 10 n])
    with less.prems have "starts_with (str_base 10 (n div 10)) ''0''"
      by (cases "str_base 10 (n div 10)") (simp_all add: starts_with_def)
    with less.IH [of "n div 10"] False show ?thesis by simp
  qed
qed

lemma match_number_str_int:
  assumes "stop r"
  shows "match_number (str_int i @ r) = Some (JInt i, r)"
proof -
  define n where "n = nat \<bar>i\<bar>"
  define sign where "sign = (if i < 0 then ''-'' else [])"
  have split: "str_int i = sign @ str_base 10 n" by (simp add: str_int_def sign_def n_def)
  have ds: "takeWhile is_digit (str_base 10 n @ r) = str_base 10 n"
    using assms by (rule takeWhile_str_base)
  have il: "(if starts_with (str_base 10 n) ''0'' then 1 else length (str_base 10 n)) = length (str_base 10 n)"
    using str_base_zero [of n] str_base.simps [of 10 0] by (cases "n = 0") auto
  have neg: "starts_with (str_int i @ r) ''-'' \<longleftrightarrow> i < 0"
  proof (cases "i < 0")
    case False
    then show ?thesis
      using not_sign_digits(1) [of "str_base 10 n @ r"] digit_of_str_base_ends(1) [of n]
      by (simp add: split sign_def)
  qed (simp add: split sign_def starts_with_def)
  let ?il = "length (str_int i)"
  have sgn: "(if starts_with (str_int i @ r) ''-'' then 1 else 0) = length sign"
    unfolding neg by (simp add: sign_def)
  have rest: "takeWhile is_digit (drop (length sign) (str_int i @ r)) = str_base 10 n"
    using ds by (simp add: split)
  have len: "length sign + (if starts_with (str_base 10 n) ''0'' then 1 else length (str_base 10 n)) = ?il"
    unfolding il by (simp add: split)
  show ?thesis
    unfolding match_number_def sgn Let_def rest len using stop_no_tail [OF assms] by simp
qed

text \<open>The first character of a printed value.\<close>

definition value_start :: "char \<Rightarrow> bool" where
  "value_start c \<longleftrightarrow> \<not> json_ws c \<and> c \<notin> {CHR '']'', CHR ''}'', CHR '',''}"

lemma digit_value_start: "is_digit c \<Longrightarrow> value_start c"
  by (auto simp: is_digit_def value_start_def json_ws_def)

lemma str_int_start: "str_int i \<noteq> []" "is_digit (hd (str_int i)) \<or> hd (str_int i) = CHR ''-''"
  using is_digit_str_base [OF hd_in_set] by (simp_all add: str_int_def)

lemma dumps_start: "jplain v \<Longrightarrow> dumps v \<noteq> [] \<and> value_start (hd (dumps v))"
proof (cases v)
  case (JInt i)
  moreover have "value_start CHR ''-''" by (simp add: value_start_def json_ws_def)
  ultimately show ?thesis using str_int_start [of i] digit_value_start by (metis dumps.simps(3))
qed (auto simp: value_start_def json_ws_def dump_string_def)

lemma skip_ws_start: "s \<noteq> [] \<Longrightarrow> value_start (hd s) \<Longrightarrow> skip_ws (s @ t) = s @ t"
  by (cases s) (simp_all add: skip_ws_def value_start_def)

lemma skip_ws_space [simp]: "skip_ws (CHR '' '' # t) = skip_ws t"
  by (simp add: skip_ws_def json_ws_def)

lemma skip_ws_punct [simp]:
  "skip_ws (CHR '','' # t) = CHR '','' # t" "skip_ws (CHR '']'' # t) = CHR '']'' # t"
  "skip_ws (CHR ''}'' # t) = CHR ''}'' # t" "skip_ws (CHR '':'' # t) = CHR '':'' # t"
  "skip_ws (CHR 34 # t) = CHR 34 # t" "skip_ws [] = []"
  by (simp_all add: skip_ws_def json_ws_def)

lemma stop_punct [simp]: "stop (CHR '','' # t)" "stop (CHR '']'' # t)" "stop (CHR ''}'' # t)" "stop []"
  by (simp_all add: stop_def)

definition scans :: "json \<Rightarrow> bool" where
  "scans v \<longleftrightarrow> (\<forall>n r. length (dumps v) \<le> n \<longrightarrow> stop r \<longrightarrow> scan_once n (dumps v @ r) = Some (v, r))"

lemma scansI:
  assumes "dumps v \<noteq> []"
    and "\<And>n r. length (dumps v) \<le> Suc n \<Longrightarrow> stop r \<Longrightarrow> scan_once (Suc n) (dumps v @ r) = Some (v, r)"
  shows "scans v"
  unfolding scans_def
proof (intro allI impI)
  fix n r
  assume "length (dumps v) \<le> n" "stop r"
  moreover from this assms(1) obtain m where "n = Suc m" by (cases n) auto
  ultimately show "scan_once n (dumps v @ r) = Some (v, r)" using assms(2) by blast
qed

lemma scansD: "scans v \<Longrightarrow> length (dumps v) \<le> n \<Longrightarrow> stop r \<Longrightarrow> scan_once n (dumps v @ r) = Some (v, r)"
  by (simp add: scans_def)

lemma scan_items_dumps:
  "\<lbrakk>\<forall>v\<in>set vs. jplain v \<and> scans v; vs \<noteq> []; length (join '', '' (map dumps vs)) < n\<rbrakk> \<Longrightarrow>
   scan_items n (join '', '' (map dumps vs) @ CHR '']'' # r) = Some (vs, r)"
proof (induction vs arbitrary: n)
  case Nil
  then show ?case by simp
next
  case (Cons v vs)
  obtain m where n: "n = Suc m" using Cons.prems(3) by (cases n) auto
  show ?case
  proof (cases vs)
    case Nil
    then show ?thesis using Cons.prems n by (simp add: scansD)
  next
    case (Cons w ws)
    let ?tail = "join '', '' (map dumps vs) @ CHR '']'' # r"
    have w: "skip_ws (dumps w @ t) = dumps w @ t" for t
      using Cons.prems(1) Cons dumps_start [of w] by (simp add: skip_ws_start)
    have ws: "skip_ws ?tail = ?tail"
      by (cases ws) (simp_all add: Cons w)
    have "scan_once m (dumps v @ CHR '','' # CHR '' '' # ?tail) = Some (v, CHR '','' # CHR '' '' # ?tail)"
      using Cons.prems n Cons by (simp add: scansD)
    moreover have "scan_items m ?tail = Some (vs, r)"
      using Cons.IH [of m] Cons.prems n Cons by simp
    ultimately show ?thesis using n ws Cons by simp
  qed
qed

lemma scan_pairs_dumps:
  "\<lbrakk>\<forall>(k, v)\<in>set p. jplain v \<and> scans v; p \<noteq> [];
    length (join '', '' (map (\<lambda>(k, v). dump_string k @ '': '' @ dumps v) p)) < n\<rbrakk> \<Longrightarrow>
   scan_pairs n (join '', '' (map (\<lambda>(k, v). dump_string k @ '': '' @ dumps v) p) @ CHR ''}'' # r) = Some (p, r)"
proof (induction p arbitrary: n)
  case Nil
  then show ?case by simp
next
  case (Cons kv p)
  obtain k v where kv: "kv = (k, v)" by force
  obtain m where n: "n = Suc m" using Cons.prems(3) by (cases n) auto
  have v: "skip_ws (dumps v @ t) = dumps v @ t" for t
    using Cons.prems(1) kv dumps_start [of v] by (simp add: skip_ws_start)
  show ?case
  proof (cases p)
    case Nil
    then show ?thesis using Cons.prems n kv v
      by (simp add: scansD dump_string_def scanstring_dump starts_with_def)
  next
    case (Cons w ws)
    let ?f = "\<lambda>(k, v). dump_string k @ '': '' @ dumps v"
    let ?tail = "join '', '' (map ?f p) @ CHR ''}'' # r"
    have ws: "skip_ws ?tail = ?tail"
      by (cases ws) (simp_all add: Cons dump_string_def case_prod_beta)
    have "scan_once m (dumps v @ CHR '','' # CHR '' '' # ?tail) = Some (v, CHR '','' # CHR '' '' # ?tail)"
      using Cons.prems n kv Cons by (simp add: scansD)
    moreover have "scan_pairs m ?tail = Some (p, r)"
      using Cons.IH [of m] Cons.prems n kv Cons by simp
    ultimately show ?thesis using n ws kv v Cons
      by (simp add: dump_string_def scanstring_dump starts_with_def)
  qed
qed

lemma str_base_Cons: "\<exists>c t. str_base 10 n = c # t \<and> is_digit c"
proof -
  obtain c t where s: "str_base 10 n = c # t" by (cases "str_base 10 n") simp_all
  then have "is_digit c" by (intro is_digit_str_base [of _ n]) simp
  with s show ?thesis by blast
qed

lemma no_literal_number: "scalar (\<lambda>(w, v). starts_with (str_int i @ r) w) literals = None"
proof -
  have "\<not> starts_with (str_int i @ r) w" if "w \<in> fst ` set literals" for w
  proof (cases "i < 0")
    case True
    obtain c t where "str_base 10 (nat (- i)) = c # t" "is_digit c" using str_base_Cons by blast
    with True that show ?thesis
      by (auto simp: str_int_def literals_def starts_with_def is_digit_def)
  next
    case False
    obtain c t where "str_base 10 (nat i) = c # t" "is_digit c" using str_base_Cons by blast
    with False that show ?thesis
      by (auto simp: str_int_def literals_def starts_with_def is_digit_def)
  qed
  then show ?thesis by (force simp: find_None_iff)
qed

lemma scans_int: "scans (JInt i)"
proof (rule scansI)
  fix n r
  assume "stop r"
  obtain c t where c: "str_int i = c # t" "is_digit c \<or> c = CHR ''-''"
    using str_int_start [of i] by (cases "str_int i") auto
  then have "c \<noteq> CHR 34" "c \<noteq> CHR ''{''" "c \<noteq> CHR ''[''" by (auto simp: is_digit_def)
  with c no_literal_number [of i r] match_number_str_int [OF \<open>stop r\<close>, of i]
  show "scan_once (Suc n) (dumps (JInt i) @ r) = Some (JInt i, r)" by simp
qed (simp add: str_int_start)

lemma scans_plain: "jplain v \<Longrightarrow> scans v"
proof (induction v)
  case (JArr vs)
  then have vs: "\<forall>v\<in>set vs. jplain v \<and> scans v" by (auto simp: list_all_iff)
  show ?case
  proof (rule scansI)
    fix m r
    assume len: "length (dumps (JArr vs)) \<le> Suc m"
    let ?t = "join '', '' (map dumps vs)"
    show "scan_once (Suc m) (dumps (JArr vs) @ r) = Some (JArr vs, r)"
    proof (cases vs)
      case Nil
      then show ?thesis by (simp add: starts_with_def)
    next
      case (Cons w ws)
      then have w: "dumps w \<noteq> []" "value_start (hd (dumps w))" using vs dumps_start [of w] by auto
      obtain u where u: "?t = dumps w @ u" using Cons by (cases ws) auto
      then have "skip_ws (?t @ CHR '']'' # r) = ?t @ CHR '']'' # r" "\<not> starts_with (?t @ CHR '']'' # r) '']''"
        using w skip_ws_start [of "dumps w"]
        by (simp, cases "dumps w") (auto simp: starts_with_def value_start_def)
      then show ?thesis
        using scan_items_dumps [OF vs, of m r] len Cons by simp
    qed
  qed simp
next
  case (JObj p)
  then have p: "\<forall>(k, v)\<in>set p. jplain v \<and> scans v" by (auto simp: list_all_iff)
  show ?case
  proof (rule scansI)
    fix m r
    assume len: "length (dumps (JObj p)) \<le> Suc m"
    let ?t = "join '', '' (map (\<lambda>(k, v). dump_string k @ '': '' @ dumps v) p)"
    show "scan_once (Suc m) (dumps (JObj p) @ r) = Some (JObj p, r)"
    proof (cases p)
      case Nil
      then show ?thesis by (simp add: starts_with_def)
    next
      case (Cons w ws)
      then obtain u where u: "?t = CHR 34 # u" by (cases ws) (auto simp: dump_string_def case_prod_beta)
      then show ?thesis
        using scan_pairs_dumps [OF p, of m r] len Cons JObj.prems jdict_distinct [of p]
        by (simp add: starts_with_def)
    qed
  qed simp
qed (auto simp: scans_int intro!: scansI simp: literals_def starts_with_def dump_string_def scanstring_dump
    split: if_splits)

theorem loads_dumps: "jplain v \<Longrightarrow> loads (dumps v) = Some v"
proof -
  assume v: "jplain v"
  then have ws: "skip_ws (dumps v) = dumps v"
    using skip_ws_start [of "dumps v" "[]"] dumps_start [of v] by simp
  have "scan_once (Suc (length (dumps v))) (dumps v @ []) = Some (v, [])"
    by (rule scansD) (simp_all add: scans_plain v)
  with ws show ?thesis by (simp add: loads_def)
qed

section \<open>Python's str on JSON values\<close>

definition hex_escape :: "nat \<Rightarrow> string" where
  "hex_escape n = CHR 92 # CHR ''x'' # hex2 n"

definition repr_char :: "char \<Rightarrow> char \<Rightarrow> string" where
  "repr_char quote c = (let n = (of_char c :: nat) in
     if c = quote \<or> n = 92 then [CHR 92, c]
     else if n = 9 then [CHR 92, CHR ''t''] else if n = 10 then [CHR 92, CHR ''n''] else if n = 13 then [CHR 92, CHR ''r'']
     else if n < 32 \<or> (127 \<le> n \<and> n \<le> 160) \<or> n = 173 then hex_escape n
     else [c])"

definition repr_str :: "string \<Rightarrow> string" where
  "repr_str s =
     (let quote = (if CHR 39 \<in> set s \<and> CHR 34 \<notin> set s then CHR 34 else CHR 39)
      in [quote] @ concat (map (repr_char quote) s) @ [quote])"

fun py_repr :: "json \<Rightarrow> string" where
  "py_repr JNull = ''None''"
| "py_repr (JBool b) = (if b then ''True'' else ''False'')"
| "py_repr (JInt i) = str_int i"
| "py_repr (JFloat lit) = lit"
| "py_repr (JStr s) = repr_str s"
| "py_repr (JArr vs) = ''['' @ join '', '' (map py_repr vs) @ '']''"
| "py_repr (JObj p) = ''{'' @ join '', '' (map (\<lambda>(k, v). repr_str k @ '': '' @ py_repr v) p) @ ''}''"

definition py_str :: "json \<Rightarrow> string" where
  "py_str v = (case v of JStr s \<Rightarrow> s | _ \<Rightarrow> py_repr v)"

text \<open>\<^verbatim>\<open>bool(v)\<close>, and whether \<^verbatim>\<open>key in v\<close>, which raises (\<open>None\<close>) on a number, a truth value or \<^verbatim>\<open>None\<close>.\<close>

fun truthy :: "json \<Rightarrow> bool" where
  "truthy JNull = False"
| "truthy (JBool b) = b"
| "truthy (JInt i) = (i \<noteq> 0)"
| "truthy (JFloat lit) =
     (\<exists>c\<in>set (takeWhile (\<lambda>c. c \<noteq> CHR ''e'' \<and> c \<noteq> CHR ''E'') lit). c \<in> set ''123456789naIfity'')"
| "truthy (JStr s) = (s \<noteq> [])"
| "truthy (JArr vs) = (vs \<noteq> [])"
| "truthy (JObj p) = (p \<noteq> [])"

definition py_in :: "string \<Rightarrow> json \<Rightarrow> bool option" where
  "py_in key v =
     (case v of
        JObj p \<Rightarrow> Some (key \<in> fst ` set p)
      | JArr vs \<Rightarrow> Some (JStr key \<in> set vs)
      | JStr s \<Rightarrow> Some (contains key s)
      | _ \<Rightarrow> None)"

end
