(* ===== verification/Config.thy ===== *)
theory Config
  imports Py_Str
begin

text \<open>
  \<^verbatim>\<open>app/config.py\<close>: the settings object, its validators and its connection URLs, and the
  derivation of the three Redis pool URLs in \<^verbatim>\<open>app/core/redis.py\<close>. \<open>Settings\<close> maps the
  values resolved from the environment to a settings object or to the list of validation
  errors.
\<close>

record settings =
  APP_NAME :: string
  ENV :: string
  DEBUG :: bool
  API_PREFIX :: string
  ALLOWED_ORIGINS :: "string list"
  SECRET_KEY :: string
  ACCESS_TOKEN_EXPIRE_MINUTES :: int
  REFRESH_TOKEN_EXPIRE_DAYS :: int
  TOKEN_ALGORITHM :: string
  POSTGRES_USER :: string
  POSTGRES_PASSWORD :: string
  POSTGRES_HOST :: string
  POSTGRES_PORT :: int
  POSTGRES_DB :: string
  DB_POOL_SIZE :: int
  DB_MAX_OVERFLOW :: int
  DB_POOL_PRE_PING :: bool
  REDIS_HOST :: string
  REDIS_PORT :: int
  REDIS_PASSWORD :: string
  REDIS_DB :: int
  REDIS_DB_PUBSUB :: int
  REDIS_DB_OTP :: int
  REDIS_DB_SESSIONS :: int
  OTP_TTL_SECONDS :: nat
  OTP_MAX_ATTEMPTS :: int
  MINIO_ENDPOINT :: string
  MINIO_ROOT_USER :: string
  MINIO_ROOT_PASSWORD :: string
  MINIO_SECURE :: bool
  MINIO_BUCKET_AVATARS :: string
  MINIO_BUCKET_ATTACHMENTS :: string
  MINIO_PRESIGN_EXPIRY_SECONDS :: int
  DB_ENCRYPTION_KEY :: string
  RATE_LIMIT_REQUESTS_PER_MINUTE :: int
  RATE_LIMIT_WS_PER_USER :: int
  FIREBASE_CREDENTIALS_FILE :: string
  AUDIT_LOG_RETENTION_DAYS :: int

text \<open>The values of the class body, used where the environment gives none.\<close>

definition settings_defaults :: settings where
  "settings_defaults = \<lparr>APP_NAME = ''IronLink'', ENV = ''development'', DEBUG = False,
     API_PREFIX = ''/api/v1'', ALLOWED_ORIGINS = [], SECRET_KEY = [],
     ACCESS_TOKEN_EXPIRE_MINUTES = 60, REFRESH_TOKEN_EXPIRE_DAYS = 7, TOKEN_ALGORITHM = ''HS256'',
     POSTGRES_USER = ''ironlink_user'', POSTGRES_PASSWORD = [], POSTGRES_HOST = ''db'',
     POSTGRES_PORT = 5432, POSTGRES_DB = ''ironlink'', DB_POOL_SIZE = 20, DB_MAX_OVERFLOW = 30,
     DB_POOL_PRE_PING = True, REDIS_HOST = ''redis'', REDIS_PORT = 6379, REDIS_PASSWORD = [],
     REDIS_DB = 0, REDIS_DB_PUBSUB = 0, REDIS_DB_OTP = 1, REDIS_DB_SESSIONS = 2,
     OTP_TTL_SECONDS = 300, OTP_MAX_ATTEMPTS = 5, MINIO_ENDPOINT = ''minio:9000'',
     MINIO_ROOT_USER = ''ironlink_minio'', MINIO_ROOT_PASSWORD = [], MINIO_SECURE = False,
     MINIO_BUCKET_AVATARS = ''avatars'', MINIO_BUCKET_ATTACHMENTS = ''attachments'',
     MINIO_PRESIGN_EXPIRY_SECONDS = 900, DB_ENCRYPTION_KEY = [],
     RATE_LIMIT_REQUESTS_PER_MINUTE = 60, RATE_LIMIT_WS_PER_USER = 3,
     FIREBASE_CREDENTIALS_FILE = [], AUDIT_LOG_RETENTION_DAYS = 365\<rparr>"

lemma settings_defaults_sel [simp]:
  "ENV settings_defaults = ''development''"
  "ACCESS_TOKEN_EXPIRE_MINUTES settings_defaults = 60" "REFRESH_TOKEN_EXPIRE_DAYS settings_defaults = 7"
  "OTP_TTL_SECONDS settings_defaults = 300" "OTP_MAX_ATTEMPTS settings_defaults = 5"
  by (simp_all add: settings_defaults_def)

definition require_env :: "string \<Rightarrow> string res" where
  "require_env v =
     (if v \<in> {''development'', ''staging'', ''production''} then Inr v
      else Inl (ValueError ''Input should be development, staging or production''))"

definition require_pg_password :: "string \<Rightarrow> string res" where
  "require_pg_password v =
     (if v = [] then Inl (ValueError ''POSTGRES_PASSWORD must be set in the environment'') else Inr v)"

definition require_minio_password :: "string \<Rightarrow> string res" where
  "require_minio_password v =
     (if v = [] then Inl (ValueError ''MINIO_ROOT_PASSWORD must be set in the environment'') else Inr v)"

definition require_encryption_key :: "string \<Rightarrow> string res" where
  "require_encryption_key v =
     (if v = [] then Inl (ValueError ''DB_ENCRYPTION_KEY must be set - used for column-level encryption'')
      else if length v < 32 then Inl (ValueError ''DB_ENCRYPTION_KEY must be at least 32 characters'')
      else Inr v)"

text \<open>
  Pydantic runs every field validator (base settings validate their defaults too) and
  reports all failures together, in declaration order.
\<close>

definition failure_of :: "'a res \<Rightarrow> error list" where
  "failure_of r = (case r of Inl e \<Rightarrow> [e] | Inr _ \<Rightarrow> [])"

definition Settings :: "settings \<Rightarrow> error list + settings" where
  "Settings env =
     (let errs = failure_of (require_env (ENV env)) @
                 failure_of (require_pg_password (POSTGRES_PASSWORD env)) @
                 failure_of (require_minio_password (MINIO_ROOT_PASSWORD env)) @
                 failure_of (require_encryption_key (DB_ENCRYPTION_KEY env))
      in if errs = [] then Inr env else Inl errs)"

definition postgres_url :: "string \<Rightarrow> settings \<Rightarrow> string" where
  "postgres_url driver c = ''postgresql+'' @ driver @ ''://'' @ POSTGRES_USER c @ '':'' @ POSTGRES_PASSWORD c @
     ''@'' @ POSTGRES_HOST c @ '':'' @ str_int (POSTGRES_PORT c) @ ''/'' @ POSTGRES_DB c"

definition database_url :: "settings \<Rightarrow> string" where
  "database_url c = postgres_url ''asyncpg'' c"

definition sync_database_url :: "settings \<Rightarrow> string" where
  "sync_database_url c = postgres_url ''psycopg2'' c"

definition redis_url :: "settings \<Rightarrow> string" where
  "redis_url c =
     (let auth = (if REDIS_PASSWORD c \<noteq> [] then '':'' @ REDIS_PASSWORD c @ ''@'' else [])
      in ''redis://'' @ auth @ REDIS_HOST c @ '':'' @ str_int (REDIS_PORT c) @ ''/'' @ str_int (REDIS_DB c))"

text \<open>The URL \<open>_make_pool\<close> hands to the connection pool for a database index.\<close>

definition make_pool :: "settings \<Rightarrow> int \<Rightarrow> string" where
  "make_pool c db = replace (''/'' @ str_int (REDIS_DB c)) (''/'' @ str_int db) (redis_url c)"

section \<open>Start-up validation\<close>

lemma failure_of_Nil [simp]: "failure_of r = [] \<longleftrightarrow> (\<exists>x. r = Inr x)"
  by (cases r) (simp_all add: failure_of_def)

lemma validators_Inr [simp]:
  "(\<exists>x. require_env v = Inr x) \<longleftrightarrow> v \<in> {''development'', ''staging'', ''production''}"
  "(\<exists>x. require_pg_password v = Inr x) \<longleftrightarrow> v \<noteq> []"
  "(\<exists>x. require_minio_password v = Inr x) \<longleftrightarrow> v \<noteq> []"
  "(\<exists>x. require_encryption_key v = Inr x) \<longleftrightarrow> 32 \<le> length v"
  by (auto simp: require_env_def require_pg_password_def require_minio_password_def require_encryption_key_def)

definition settings_ok :: "settings \<Rightarrow> bool" where
  "settings_ok env \<longleftrightarrow> ENV env \<in> {''development'', ''staging'', ''production''} \<and>
     POSTGRES_PASSWORD env \<noteq> [] \<and> MINIO_ROOT_PASSWORD env \<noteq> [] \<and> 32 \<le> length (DB_ENCRYPTION_KEY env)"

lemma Settings_cases: "if settings_ok env then Settings env = Inr env else \<exists>es. Settings env = Inl es"
  by (cases "settings_ok env")
    (simp_all add: Settings_def Let_def settings_ok_def del: insert_iff)

section \<open>Pool URLs\<close>

lemma str_int_chars: "c \<in> set (str_int i) \<Longrightarrow> c = CHR ''-'' \<or> (\<exists>d<10. c = digit_char d)"
  by (auto simp: str_int_def dest: str_base_chars split: if_splits)

lemma str_int_free: "digit_of c = None \<Longrightarrow> c \<noteq> CHR ''-'' \<Longrightarrow> c \<notin> set (str_int i)"
  using str_int_chars digit_char_neq by blast

lemma slash_not_in_str_int: "CHR ''/'' \<notin> set (str_int i)" "CHR '':'' \<notin> set (str_int i)"
  by (simp_all add: str_int_free digit_of_def)

lemma str_int_nonempty [simp]: "str_int i \<noteq> []"
  by (simp add: str_int_def)

lemma repl_skip: "old \<noteq> [] \<Longrightarrow> hd old \<notin> set w \<Longrightarrow> repl old new 0 (w @ t) = w @ repl old new 0 t"
  by (induction w) (auto simp: starts_with_def neq_Nil_conv)

lemma repl_match: "old \<noteq> [] \<Longrightarrow> repl old new 0 (old @ t) = new @ repl old new 0 t"
proof -
  have "repl old new (length u) (u @ t) = repl old new 0 t" for u
    by (induction u) auto
  then show "old \<noteq> [] \<Longrightarrow> ?thesis"
    by (cases old) (auto simp: starts_with_def)
qed

text \<open>
  A host and a password without a slash, and no unauthenticated host that starts with the
  digits of the default index: then the only match is the database path.
\<close>

definition pool_safe :: "settings \<Rightarrow> bool" where
  "pool_safe c \<longleftrightarrow> CHR ''/'' \<notin> set (REDIS_PASSWORD c) \<and> CHR ''/'' \<notin> set (REDIS_HOST c) \<and>
     (REDIS_PASSWORD c = [] \<longrightarrow>
        \<not> starts_with (REDIS_HOST c @ '':'' @ str_int (REDIS_PORT c) @ ''/'' @ str_int (REDIS_DB c))
          (str_int (REDIS_DB c)))"

lemma make_pool_safe:
  assumes "pool_safe c"
  shows "make_pool c db = redis_url (c\<lparr>REDIS_DB := db\<rparr>)"
proof -
  define d where "d = str_int (REDIS_DB c)"
  define old where "old = CHR ''/'' # d"
  define w where "w = (if REDIS_PASSWORD c \<noteq> [] then '':'' @ REDIS_PASSWORD c @ ''@'' else []) @
    REDIS_HOST c @ '':'' @ str_int (REDIS_PORT c)"
  have w: "CHR ''/'' \<notin> set w"
    using assms slash_not_in_str_int by (auto simp: w_def pool_safe_def)
  have d: "d \<noteq> []" "hd d \<noteq> CHR ''/''" "hd d \<noteq> CHR '':''"
  proof -
    have "hd d \<in> set (str_int (REDIS_DB c))" by (simp add: d_def)
    then show "hd d \<noteq> CHR ''/''" "hd d \<noteq> CHR '':''" using slash_not_in_str_int by metis+
  qed (simp add: d_def)
  have sw: "\<not> starts_with (w @ old) d"
  proof (cases "REDIS_PASSWORD c = []")
    case True
    with assms show ?thesis by (simp add: pool_safe_def w_def old_def d_def)
  next
    case False
    with d show ?thesis by (cases d) (auto simp: starts_with_def w_def)
  qed
  have "repl old new 0 (''redis:'' @ ''//'' @ w @ old) = ''redis://'' @ w @ new" for new
  proof -
    have "repl old new 0 (''//'' @ w @ old) = ''//'' @ repl old new 0 (w @ old)"
      using d sw by (cases d) (auto simp: old_def starts_with_def)
    moreover have "repl old new 0 (w @ old) = w @ new"
      using w repl_match [of old new "[]"] by (simp add: repl_skip old_def)
    ultimately show ?thesis
      by (subst repl_skip) (simp_all add: old_def)
  qed
  from this [of "''/'' @ str_int db"] show ?thesis
    by (simp add: make_pool_def replace_def redis_url_def old_def d_def w_def)
qed

end
