(* ===== verification/World.thy ===== *)
theory World
  imports Models Redis Json Config
begin

text \<open>
  The state the request handlers share: the PostgreSQL database, the Redis databases for
  one-time codes and for sessions, and the frames published on Redis Pub/Sub, with the two
  publishing functions of \<^verbatim>\<open>app/api/routes/websocket.py\<close>. A published frame is the
  dictionary handed to \<^verbatim>\<open>json.dumps\<close>; a subscriber reads the same dictionary back
  (\<open>loads_dumps\<close>). Timestamps in frames are \<^verbatim>\<open>datetime.isoformat()\<close>.
\<close>

section \<open>Timestamps\<close>

text \<open>The proleptic Gregorian date of a day number (day 0 is 1970-01-01).\<close>

definition civil :: "int \<Rightarrow> int \<times> int \<times> int" where
  "civil days =
     (let z = days + 719468; era = z div 146097; doe = z mod 146097;
          yoe = (doe - doe div 1460 + doe div 36524 - doe div 146096) div 365;
          doy = doe - (365 * yoe + yoe div 4 - yoe div 100);
          mp = (5 * doy + 2) div 153;
          day = doy - (153 * mp + 2) div 5 + 1;
          month = (if mp < 10 then mp + 3 else mp - 9)
      in (yoe + era * 400 + (if month \<le> 2 then 1 else 0), month, day))"

definition pad :: "nat \<Rightarrow> int \<Rightarrow> string" where
  "pad n i = (let s = str_int i in replicate (n - length s) CHR ''0'' @ s)"

definition isoformat :: "instant \<Rightarrow> string" where
  "isoformat t =
     (let (y, mo, d) = civil (utc_date t); us = t mod seconds 86400; s = us div 1000000; f = us mod 1000000
      in pad 4 y @ ''-'' @ pad 2 mo @ ''-'' @ pad 2 d @ ''T'' @
         pad 2 (s div 3600) @ '':'' @ pad 2 (s div 60 mod 60) @ '':'' @ pad 2 (s mod 60) @
         (if f = 0 then [] else ''.'' @ pad 6 f) @ ''+00:00'')"

section \<open>Shared state and publishing\<close>

record 's world =
  w_db :: db
  w_otp :: 's
  w_sess :: 's
  w_pub :: "(string \<times> payload) list"

definition BROADCAST_CHANNEL :: string where
  "BROADCAST_CHANNEL = ''chan:broadcast''"

definition user_channel :: "uuid \<Rightarrow> string" where
  "user_channel user_id = ''chan:user:'' @ uuid_str user_id"

definition publish :: "uuid \<Rightarrow> payload \<Rightarrow> 's world \<Rightarrow> 's world" where
  "publish user_id p w = w\<lparr>w_pub := w_pub w @ [(user_channel user_id, p)]\<rparr>"

definition publish_broadcast :: "payload \<Rightarrow> 's world \<Rightarrow> 's world" where
  "publish_broadcast p w = w\<lparr>w_pub := w_pub w @ [(BROADCAST_CHANNEL, p)]\<rparr>"

lemma user_channel_inject [simp]: "user_channel u = user_channel v \<longleftrightarrow> u = v"
  by (simp add: user_channel_def)

lemma publish_sel [simp]:
  "w_db (publish u p w) = w_db w" "w_otp (publish u p w) = w_otp w" "w_sess (publish u p w) = w_sess w"
  "w_pub (publish u p w) = w_pub w @ [(user_channel u, p)]"
  "w_db (publish_broadcast p w) = w_db w" "w_otp (publish_broadcast p w) = w_otp w"
  "w_sess (publish_broadcast p w) = w_sess w"
  "w_pub (publish_broadcast p w) = w_pub w @ [(BROADCAST_CHANNEL, p)]"
  by (simp_all add: publish_def publish_broadcast_def)

text \<open>A transaction of a handler: on success the handler goes on with the committed database.\<close>

definition commit_world :: "'s world \<Rightarrow> db \<Rightarrow> 'a \<Rightarrow> 'a res \<times> 's world" where
  "commit_world w d' x = (let (r, d) = commit (w_db w) d' x in (r, w\<lparr>w_db := d\<rparr>))"

lemma commit_world_ok [simp]: "integrity d' \<Longrightarrow> commit_world w d' x = (Inr x, w\<lparr>w_db := d'\<rparr>)"
  by (simp add: commit_world_def commit_def)

lemma commit_world_fail [simp]: "\<not> integrity d' \<Longrightarrow> commit_world w d' x = (Inl IntegrityError, w)"
  by (simp add: commit_world_def commit_def)

end
