(* ===== verification/Message_Service.thy ===== *)
theory Message_Service
  imports World
begin

text \<open>
  \<^verbatim>\<open>app/services/message_service.py\<close>: storing a message, delivery and read receipts, and
  delete-for-everyone, as functions of the database. \<open>created\<close> is the insertion default of
  \<^verbatim>\<open>created_at\<close>, \<open>now\<close> the clock of the process, read once.
\<close>

section \<open>Model\<close>

definition UNSEND_WINDOW :: int where
  "UNSEND_WINDOW = seconds (5 * 60)"

record message_in =
  mi_sender :: uuid
  mi_recipient :: "uuid option"
  mi_group :: "uuid option"
  mi_type :: string
  mi_content :: "string option"
  mi_media_key :: "string option"
  mi_media_mime :: "string option"
  mi_destruct_after :: "int option"

definition new_message :: "uuid \<Rightarrow> instant \<Rightarrow> instant \<Rightarrow> message_in \<Rightarrow> message" where
  "new_message mid created now b =
     \<lparr>m_id = mid, m_created_at = created, sender_id = Some (mi_sender b), recipient_id = mi_recipient b,
      m_group_id = mi_group b, message_type = mi_type b, content_ciphertext = mi_content b,
      media_object_key = mi_media_key b, media_mime_type = mi_media_mime b, media_size_bytes = None,
      reply_to_id = None, m_status = message_status_value SENT, delivered_at = Some now, read_at = None,
      is_secret = False, is_self_destruct = (mi_destruct_after b \<noteq> None),
      destruct_after_seconds = mi_destruct_after b,
      destruct_at = (case mi_destruct_after b of None \<Rightarrow> None
        | Some n \<Rightarrow> if n \<noteq> 0 then Some (now + seconds n) else None),
      is_destructed = False, deleted_at = None, deleted_for_everyone = False, is_edited = False, edit_count = 0\<rparr>"

definition save_message :: "uuid \<Rightarrow> instant \<Rightarrow> instant \<Rightarrow> message_in \<Rightarrow> (db, message) handler" where
  "save_message mid created now b d =
     (let msg = new_message mid created now b
      in commit d (d\<lparr>messages := messages d @ [msg]\<rparr>) msg)"

definition is_participant :: "db \<Rightarrow> message \<Rightarrow> uuid \<Rightarrow> bool" where
  "is_participant d msg user_id =
     (case m_group_id msg of
        Some g \<Rightarrow> scalar (\<lambda>m. gm_group_id m = g \<and> gm_user_id m = user_id) (group_members d) \<noteq> None
      | None \<Rightarrow> sender_id msg = Some user_id \<or> recipient_id msg = Some user_id)"

definition mark_delivered :: "instant \<Rightarrow> uuid \<Rightarrow> uuid \<Rightarrow> (db, message option) handler" where
  "mark_delivered now message_id user_id d =
     (case message_by_id d message_id of
        None \<Rightarrow> (Inr None, d)
      | Some msg \<Rightarrow>
          if \<not> is_participant d msg user_id then (Inr None, d)
          else if delivered_at msg = None then
            let msg' = msg\<lparr>delivered_at := Some now\<rparr> in commit d (set_message msg' d) (Some msg')
          else (Inr (Some msg), d))"

definition read_message :: "instant \<Rightarrow> message \<Rightarrow> message" where
  "read_message now msg =
     (let m1 = msg\<lparr>m_status := message_status_value READ, read_at := Some now\<rparr>;
          m2 = (if delivered_at m1 = None then m1\<lparr>delivered_at := Some now\<rparr> else m1)
      in case destruct_after_seconds m2 of
           None \<Rightarrow> m2
         | Some n \<Rightarrow> if is_self_destruct m2 \<and> n \<noteq> 0 \<and> destruct_at m2 = None
                     then m2\<lparr>destruct_at := Some (now + seconds n)\<rparr> else m2)"

definition mark_read :: "instant \<Rightarrow> uuid \<Rightarrow> uuid \<Rightarrow> (db, message option) handler" where
  "mark_read now message_id user_id d =
     (case message_by_id d message_id of
        None \<Rightarrow> (Inr None, d)
      | Some msg \<Rightarrow>
          if \<not> is_participant d msg user_id then (Inr None, d)
          else if m_status msg \<noteq> message_status_value READ then
            let msg' = read_message now msg in commit d (set_message msg' d) (Some msg')
          else (Inr (Some msg), d))"

definition wiped_message :: "instant \<Rightarrow> message \<Rightarrow> message" where
  "wiped_message now msg = msg\<lparr>content_ciphertext := None, media_object_key := None, media_mime_type := None,
     deleted_for_everyone := True, deleted_at := Some now\<rparr>"

definition unsend_message :: "instant \<Rightarrow> uuid \<Rightarrow> uuid \<Rightarrow> (db, message) handler" where
  "unsend_message now message_id sender d =
     (case scalar (\<lambda>m. m_id m = message_id \<and> sender_id m = Some sender) (messages d) of
        None \<Rightarrow> (Inl (UnsendDenied ''message not found or not owned by caller''), d)
      | Some msg \<Rightarrow>
          if now - m_created_at msg > UNSEND_WINDOW
          then (Inl (UnsendDenied ''unsend window (5 minutes) has passed''), d)
          else commit d (set_message (wiped_message now msg) d) (wiped_message now msg))"

section \<open>What the operations keep\<close>

text \<open>Columns that identify a message and its parties, which no operation changes.\<close>

definition envelope :: "message \<Rightarrow> uuid \<times> instant \<times> uuid option \<times> uuid option \<times> uuid option \<times> uuid option" where
  "envelope m = (m_id m, m_created_at m, sender_id m, recipient_id m, m_group_id m, reply_to_id m)"

lemma read_message_sel [simp]:
  "m_id (read_message now m) = m_id m" "sender_id (read_message now m) = sender_id m"
  "recipient_id (read_message now m) = recipient_id m" "m_group_id (read_message now m) = m_group_id m"
  "reply_to_id (read_message now m) = reply_to_id m" "m_status (read_message now m) = message_status_value READ"
  "read_at (read_message now m) = Some now" "envelope (read_message now m) = envelope m"
  "is_destructed (read_message now m) = is_destructed m"
  "destruct_after_seconds (read_message now m) = destruct_after_seconds m"
  "is_self_destruct (read_message now m) = is_self_destruct m"
  "delivered_at (read_message now m) = (case delivered_at m of None \<Rightarrow> Some now | Some t \<Rightarrow> Some t)"
  by (auto simp: read_message_def envelope_def Let_def split: option.splits)

lemma read_message_keeps_timer: "destruct_at m \<noteq> None \<Longrightarrow> destruct_at (read_message now m) = destruct_at m"
  by (auto simp: read_message_def Let_def split: option.splits)

lemma wiped_message_sel [simp]:
  "m_id (wiped_message now m) = m_id m" "envelope (wiped_message now m) = envelope m"
  "content_ciphertext (wiped_message now m) = None" "media_object_key (wiped_message now m) = None"
  "media_mime_type (wiped_message now m) = None" "deleted_for_everyone (wiped_message now m)"
  "deleted_at (wiped_message now m) = Some now" "is_destructed (wiped_message now m) = is_destructed m"
  "m_status (wiped_message now m) = m_status m" "destruct_at (wiped_message now m) = destruct_at m"
  "delivered_at (wiped_message now m) = delivered_at m"
  "destruct_after_seconds (wiped_message now m) = destruct_after_seconds m"
  "is_self_destruct (wiped_message now m) = is_self_destruct m"
  by (simp_all add: wiped_message_def envelope_def)

lemma integrity_envelope:
  assumes "integrity d" and "message_by_id d (m_id m) = Some m0" and "envelope m = envelope m0"
  shows "integrity (set_message m d)"
  using integrity_set_message [OF assms(1,2)] assms(3) by (simp add: envelope_def)

lemma commit_envelope:
  assumes "integrity d" and "message_by_id d (m_id m) = Some m0" and "envelope m = envelope m0"
  shows "commit d (set_message m d) x = (Inr x, set_message m d)"
  using integrity_envelope [OF assms] by (simp add: commit_def)

lemma message_by_id_unique:
  "integrity d \<Longrightarrow> m \<in> set (messages d) \<Longrightarrow> message_by_id d (m_id m) = Some m"
  by (simp add: integrity_def messages_ok_def message_by_id_def find_unique)

lemma unsend_lookup:
  assumes "integrity d" and "scalar (\<lambda>m. m_id m = i \<and> sender_id m = Some s) (messages d) = Some m"
  shows "message_by_id d i = Some m \<and> m_id m = i \<and> sender_id m = Some s"
  using find_SomeD [OF assms(2)] message_by_id_unique [OF assms(1), of m] by auto

text \<open>Closed forms of the operations on a database that satisfies its constraints.\<close>

lemma mark_delivered_eq:
  assumes "integrity d"
  shows "mark_delivered now i u d =
    (case message_by_id d i of None \<Rightarrow> (Inr None, d)
     | Some m \<Rightarrow> if \<not> is_participant d m u then (Inr None, d)
         else if delivered_at m = None then (Inr (Some (m\<lparr>delivered_at := Some now\<rparr>)), set_message (m\<lparr>delivered_at := Some now\<rparr>) d)
         else (Inr (Some m), d))"
proof (cases "message_by_id d i")
  case (Some m)
  then have "commit d (set_message (m\<lparr>delivered_at := Some now\<rparr>) d) x = (Inr x, set_message (m\<lparr>delivered_at := Some now\<rparr>) d)"
    for x :: "message option"
    using commit_envelope [OF assms, of "m\<lparr>delivered_at := Some now\<rparr>" m x] message_by_idD [OF Some]
    by (simp add: envelope_def)
  with Some show ?thesis by (simp add: mark_delivered_def Let_def)
qed (simp add: mark_delivered_def)

lemma mark_read_eq:
  assumes "integrity d"
  shows "mark_read now i u d =
    (case message_by_id d i of None \<Rightarrow> (Inr None, d)
     | Some m \<Rightarrow> if \<not> is_participant d m u then (Inr None, d)
         else if m_status m \<noteq> message_status_value READ then (Inr (Some (read_message now m)), set_message (read_message now m) d)
         else (Inr (Some m), d))"
proof (cases "message_by_id d i")
  case (Some m)
  then have "commit d (set_message (read_message now m) d) x = (Inr x, set_message (read_message now m) d)"
    for x :: "message option"
    using commit_envelope [OF assms, of "read_message now m" m x] message_by_idD [OF Some] by simp
  with Some show ?thesis by (simp add: mark_read_def Let_def)
qed (simp add: mark_read_def)

lemma unsend_eq:
  assumes "integrity d" and "message_by_id d i = Some m" and "sender_id m = Some s"
  shows "unsend_message now i s d =
    (if now - m_created_at m > UNSEND_WINDOW then (Inl (UnsendDenied ''unsend window (5 minutes) has passed''), d)
     else (Inr (wiped_message now m), set_message (wiped_message now m) d))"
proof -
  have m: "m \<in> set (messages d)" "m_id m = i" using message_by_idD [OF assms(2)] by simp_all
  obtain m' where f: "scalar (\<lambda>m. m_id m = i \<and> sender_id m = Some s) (messages d) = Some m'"
    using m assms(3) find_NoneD [of "\<lambda>m. m_id m = i \<and> sender_id m = Some s" "messages d" m]
    by (cases "scalar (\<lambda>m. m_id m = i \<and> sender_id m = Some s) (messages d)") auto
  with unsend_lookup [OF assms(1) f] assms(2) have "m' = m" by simp
  with f m show ?thesis
    using commit_envelope [OF assms(1), of "wiped_message now m" m "wiped_message now m"] assms(2) by (simp add: unsend_message_def)
qed

section \<open>Properties\<close>

text \<open>
  Read receipts: for a participant the message ends up read; the first read fixes
  \<open>read_at\<close> and a second receipt, at any later time and by any participant, changes nothing.
  A caller who is not a participant learns nothing and changes nothing.
\<close>

theorem mark_read_once:
  assumes "integrity d" and "mark_read now i u d = (r, d1)"
  shows "integrity d1 \<and>
    (case r of Inr (Some m) \<Rightarrow> m_status m = message_status_value READ \<and> message_by_id d1 i = Some m \<and>
        (\<forall>later v. mark_read later i v d1 = (Inr (if is_participant d1 m v then Some m else None), d1))
     | Inr None \<Rightarrow> d1 = d \<and> (\<forall>m. message_by_id d i = Some m \<longrightarrow> \<not> is_participant d m u)
     | Inl e \<Rightarrow> False)"
proof (cases "message_by_id d i")
  case None
  with assms show ?thesis by (auto simp: mark_read_def)
next
  case (Some m)
  then have id: "m_id m = i" by (auto dest: message_by_idD)
  show ?thesis
  proof (cases "is_participant d m u \<and> m_status m \<noteq> message_status_value READ")
    case True
    then have d1: "d1 = set_message (read_message now m) d" and r: "r = Inr (Some (read_message now m))"
      using assms(2) Some by (simp_all add: mark_read_eq [OF assms(1)])
    have ok: "integrity d1" unfolding d1 by (rule integrity_envelope [OF assms(1)]) (simp_all add: Some id)
    have "message_by_id d1 i = Some (read_message now m)"
      using Some id by (simp add: d1 message_by_id_set_message)
    with ok r show ?thesis by (simp add: mark_read_eq [OF ok])
  next
    case False
    with assms Some show ?thesis by (auto simp: mark_read_eq split: if_splits)
  qed
qed

text \<open>A database with one direct message from user 1 to user 2.\<close>

definition chat_user :: "uuid \<Rightarrow> string \<Rightarrow> user" where
  "chat_user i phone = \<lparr>u_id = i, u_created_at = 0, phone_number = phone, full_name = ''A'', username = None,
     department = None, fcm_token = None, hashed_military_id = [], hashed_password = [],
     device_fingerprint = None, token_version = 0, u_status = ''active'', u_role = ''soldier'', expiry_date = None,
     last_seen_at = None, is_online = False, u_avatar_object_key = None, mfa_enabled = False\<rparr>"

definition chat_in :: message_in where
  "chat_in = \<lparr>mi_sender = 1, mi_recipient = Some 2, mi_group = None, mi_type = ''text'', mi_content = Some ''c'',
     mi_media_key = None, mi_media_mime = None, mi_destruct_after = Some 60\<rparr>"

definition chat_users :: db where
  "chat_users = empty_db\<lparr>users := [chat_user 1 ''+1'', chat_user 2 ''+2'']\<rparr>"

definition chat_db :: db where
  "chat_db = chat_users\<lparr>messages := [new_message 7 0 0 chat_in]\<rparr>"

lemma chat_integrity: "integrity chat_users" "integrity chat_db"
  by (simp_all add: chat_db_def chat_users_def empty_db_def chat_user_def chat_in_def new_message_def integrity_def
      users_ok_def sessions_ok_def messages_ok_def members_ok_def requests_ok_def broadcasts_ok_def acks_ok_def
      audit_ok_def unique_on_def)

lemma chat_save: "save_message 7 0 0 chat_in chat_users = (Inr (new_message 7 0 0 chat_in), chat_db)"
proof -
  have "chat_users\<lparr>messages := messages chat_users @ [new_message 7 0 0 chat_in]\<rparr> = chat_db"
    by (simp add: chat_db_def chat_users_def empty_db_def)
  then show ?thesis using chat_integrity(2) by (simp add: save_message_def commit_def)
qed

theorem mark_read_once_witness:
  "\<exists>m d1. mark_read 50 7 2 chat_db = (Inr (Some m), d1) \<and> read_at m = Some 50 \<and>
     mark_read 90 7 1 chat_db \<noteq> mark_read 90 7 1 d1 \<and> mark_read 90 7 1 d1 = (Inr (Some m), d1)"
proof -
  let ?m = "new_message 7 0 0 chat_in"
  have m: "message_by_id chat_db 7 = Some ?m" by (simp add: message_by_id_def chat_db_def new_message_def)
  have p: "is_participant d (read_message 50 ?m) 1" "is_participant d ?m 2" "is_participant d ?m 1" for d
    by (simp_all add: is_participant_def) (simp_all add: new_message_def chat_in_def)
  have s: "m_status ?m = message_status_value SENT" by (simp add: new_message_def)
  have r: "mark_read 50 7 2 chat_db = (Inr (Some (read_message 50 ?m)), set_message (read_message 50 ?m) chat_db)"
    using m p s by (simp add: mark_read_eq [OF chat_integrity(2)])
  have again: "mark_read 90 7 1 (set_message (read_message 50 ?m) chat_db) =
      (Inr (Some (read_message 50 ?m)), set_message (read_message 50 ?m) chat_db)"
    using mark_read_once [OF chat_integrity(2) r] p(1) by simp
  have "fst (mark_read 90 7 1 chat_db) = Inr (Some (read_message 90 ?m))"
    using m p s by (simp add: mark_read_eq [OF chat_integrity(2)])
  moreover have "read_at (read_message 90 ?m) \<noteq> read_at (read_message 50 ?m)" by simp
  ultimately have "mark_read 90 7 1 chat_db \<noteq> mark_read 90 7 1 (set_message (read_message 50 ?m) chat_db)"
    unfolding again by (metis Inr_inject fst_conv option.inject)
  with again r show ?thesis by (intro exI conjI) (assumption | simp)+
qed

text \<open>
  C9. Delete for everyone: exactly the sender, within five minutes of creation, can wipe a
  message; its content and media pointers are gone, the row with its parties and creation
  time stays as a tombstone, and every refusal leaves the database unchanged.
\<close>

theorem unsend_tombstone:
  assumes "integrity d"
  shows "case unsend_message now i s d of
      (Inr m, d1) \<Rightarrow> integrity d1 \<and> (\<exists>m0. message_by_id d i = Some m0 \<and> sender_id m0 = Some s \<and>
          now - m_created_at m0 \<le> UNSEND_WINDOW \<and> envelope m = envelope m0) \<and>
        message_by_id d1 i = Some m \<and> content_ciphertext m = None \<and> media_object_key m = None \<and>
        deleted_for_everyone m \<and> deleted_at m = Some now \<and>
        (\<forall>j. j \<noteq> i \<longrightarrow> message_by_id d1 j = message_by_id d j)
    | (Inl e, d1) \<Rightarrow> d1 = d \<and> (\<forall>m0. message_by_id d i = Some m0 \<and> sender_id m0 = Some s \<longrightarrow>
          UNSEND_WINDOW < now - m_created_at m0)"
proof (cases "\<exists>m. message_by_id d i = Some m \<and> sender_id m = Some s")
  case True
  then obtain m where m: "message_by_id d i = Some m" "sender_id m = Some s" by blast
  then have id: "m_id m = i" by (auto dest: message_by_idD)
  show ?thesis
    using integrity_envelope [OF assms, of "wiped_message now m" m] m id
    by (simp add: unsend_eq [OF assms m] message_by_id_set_message)
next
  case False
  have "scalar (\<lambda>m. m_id m = i \<and> sender_id m = Some s) (messages d) = None"
  proof (rule ccontr)
    assume "scalar (\<lambda>m. m_id m = i \<and> sender_id m = Some s) (messages d) \<noteq> None"
    then obtain m where "scalar (\<lambda>m. m_id m = i \<and> sender_id m = Some s) (messages d) = Some m" by blast
    from unsend_lookup [OF assms this] False show False by blast
  qed
  then have "unsend_message now i s d = (Inl (UnsendDenied ''message not found or not owned by caller''), d)"
    by (simp add: unsend_message_def)
  with False show ?thesis by (simp, blast)
qed

theorem unsend_tombstone_witness:
  "\<exists>m d1. unsend_message 300000000 7 1 chat_db = (Inr m, d1) \<and> message_by_id d1 7 = Some m \<and> content_ciphertext m = None"
proof -
  let ?m = "new_message 7 0 0 chat_in"
  have "message_by_id chat_db 7 = Some ?m" "sender_id ?m = Some 1" "m_created_at ?m = 0"
    by (simp_all add: message_by_id_def chat_db_def new_message_def chat_in_def)
  then have "unsend_message 300000000 7 1 chat_db =
      (Inr (wiped_message 300000000 ?m), set_message (wiped_message 300000000 ?m) chat_db)"
    by (simp add: unsend_eq [OF chat_integrity(2)] UNSEND_WINDOW_def seconds_def)
  with unsend_tombstone [OF chat_integrity(2), where now = 300000000 and i = 7 and s = 1] show ?thesis by auto
qed

end
