(* ===== verification/Storage.thy ===== *)
theory Storage
  imports World
begin

text \<open>
  \<^verbatim>\<open>app/services/storage_service.py\<close>: the wrapper around the MinIO client. The client is a
  parameter, a record of the calls the service makes over an abstract state \<open>'o\<close> of the
  object store; a call that fails raises \<open>S3Error\<close> with its code.

  Two interfaces: \<open>minio_store\<close> states what the documentation of the client promises for an
  existing bucket, and \<open>staging\<close> what the chunked uploads of \<^verbatim>\<open>routes/media.py\<close> rely on.
  The sublocale \<open>minio_staging\<close> shows that the staging functions of the service turn the
  first contract into the second.
\<close>

section \<open>The client\<close>

type_synonym bytes = "8 word list"

type_synonym 'o remover = "string \<Rightarrow> string \<Rightarrow> 'o \<Rightarrow> string option \<times> 'o"

record 'o minio =
  mc_bucket_exists :: "string \<Rightarrow> 'o \<Rightarrow> bool"
  mc_make_bucket :: "string \<Rightarrow> 'o \<Rightarrow> 'o"
  mc_put_object :: "string \<Rightarrow> string \<Rightarrow> bytes \<Rightarrow> string \<Rightarrow> 'o \<Rightarrow> string option \<times> 'o"
  mc_get_object :: "string \<Rightarrow> string \<Rightarrow> 'o \<Rightarrow> string + bytes"
  mc_remove_object :: "'o remover"
  mc_presigned_put :: "string \<Rightarrow> string \<Rightarrow> int \<Rightarrow> string"
  mc_presigned_get :: "string \<Rightarrow> string \<Rightarrow> int \<Rightarrow> string"

text \<open>A client call inside the service: an error code becomes an exception.\<close>

definition s3 :: "string option \<times> 'o \<Rightarrow> unit res \<times> 'o" where
  "s3 r = (case r of (None, os) \<Rightarrow> (Inr (), os) | (Some code, os) \<Rightarrow> (Inl (S3Error code), os))"

section \<open>The service\<close>

definition ALLOWED_MIME_TYPES :: "(string \<times> string) list" where
  "ALLOWED_MIME_TYPES = [(''image/jpeg'', ''.jpg''), (''image/png'', ''.png''), (''image/webp'', ''.webp''),
     (''video/mp4'', ''.mp4''), (''audio/ogg'', ''.ogg''), (''audio/mpeg'', ''.mp3''), (''application/pdf'', ''.pdf'')]"

definition MAX_UPLOAD_BYTES :: int where
  "MAX_UPLOAD_BYTES = 50 * 1024 * 1024"

definition ensure_buckets :: "'o minio \<Rightarrow> settings \<Rightarrow> 'o \<Rightarrow> 'o" where
  "ensure_buckets M c os =
     fold (\<lambda>bucket os. if mc_bucket_exists M bucket os then os else mc_make_bucket M bucket os)
       [MINIO_BUCKET_AVATARS c, MINIO_BUCKET_ATTACHMENTS c] os"

definition presign_upload :: "'o minio \<Rightarrow> settings \<Rightarrow> uuid \<Rightarrow> string \<Rightarrow> string \<Rightarrow> (string \<times> string) res" where
  "presign_upload M c u bucket mime_type =
     (case map_of ALLOWED_MIME_TYPES mime_type of
        None \<Rightarrow> Inl (ValueError (''MIME type not allowed: '' @ mime_type))
      | Some ext \<Rightarrow>
          let object_key = hex32 u @ ext
          in Inr (object_key, mc_presigned_put M bucket object_key (MINIO_PRESIGN_EXPIRY_SECONDS c)))"

definition presign_download :: "'o minio \<Rightarrow> settings \<Rightarrow> string \<Rightarrow> string \<Rightarrow> string" where
  "presign_download M c bucket object_key = mc_presigned_get M bucket object_key (MINIO_PRESIGN_EXPIRY_SECONDS c)"

definition presign_download_ttl :: "'o minio \<Rightarrow> string \<Rightarrow> string \<Rightarrow> int \<Rightarrow> string" where
  "presign_download_ttl M bucket object_key ttl_seconds = mc_presigned_get M bucket object_key ttl_seconds"

definition put_object ::
  "'o minio \<Rightarrow> uuid \<Rightarrow> string \<Rightarrow> bytes \<Rightarrow> string \<Rightarrow> string \<Rightarrow> ('o, string) handler" where
  "put_object M u bucket data mime_type suffix os =
     (let object_key = hex32 u @ suffix;
          (r, os1) = s3 (mc_put_object M bucket object_key data mime_type os)
      in (case r of Inl e \<Rightarrow> Inl e | Inr _ \<Rightarrow> Inr object_key, os1))"

definition staging_key :: "string \<Rightarrow> int \<Rightarrow> string" where
  "staging_key upload_id index = ''staging/'' @ upload_id @ ''/'' @ str_int index"

definition put_staging_chunk :: "'o minio \<Rightarrow> settings \<Rightarrow> string \<Rightarrow> int \<Rightarrow> bytes \<Rightarrow> ('o, unit) handler" where
  "put_staging_chunk M c upload_id index data os =
     s3 (mc_put_object M (MINIO_BUCKET_ATTACHMENTS c) (staging_key upload_id index) data
           ''application/octet-stream'' os)"

text \<open>The parts in order; the first failing download raises.\<close>

primrec get_parts :: "'o minio \<Rightarrow> settings \<Rightarrow> string \<Rightarrow> int list \<Rightarrow> 'o \<Rightarrow> bytes list res" where
  "get_parts M c upload_id [] os = Inr []"
| "get_parts M c upload_id (i # is) os =
     (case mc_get_object M (MINIO_BUCKET_ATTACHMENTS c) (staging_key upload_id i) os of
        Inl code \<Rightarrow> Inl (S3Error code)
      | Inr part \<Rightarrow> (case get_parts M c upload_id is os of Inl e \<Rightarrow> Inl e | Inr parts \<Rightarrow> Inr (part # parts)))"

definition py_range :: "int \<Rightarrow> int list" where
  "py_range n = map int [0..<nat n]"

definition assemble_staging :: "'o minio \<Rightarrow> settings \<Rightarrow> string \<Rightarrow> int \<Rightarrow> 'o \<Rightarrow> bytes res" where
  "assemble_staging M c upload_id total_chunks os =
     (case get_parts M c upload_id (py_range total_chunks) os of Inl e \<Rightarrow> Inl e | Inr parts \<Rightarrow> Inr (concat parts))"

text \<open>\<^verbatim>\<open>delete_object\<close>: a missing key is not an error.\<close>

definition delete_object :: "'o remover \<Rightarrow> string \<Rightarrow> string \<Rightarrow> 'o \<Rightarrow> unit res \<times> 'o" where
  "delete_object remove_object bucket key os =
     (case remove_object bucket key os of
        (None, os1) \<Rightarrow> (Inr (), os1)
      | (Some code, os1) \<Rightarrow> if code \<noteq> ''NoSuchKey'' then (Inl (S3Error code), os1) else (Inr (), os1))"

primrec delete_parts :: "'o minio \<Rightarrow> settings \<Rightarrow> string \<Rightarrow> int list \<Rightarrow> ('o, unit) handler" where
  "delete_parts M c upload_id [] os = (Inr (), os)"
| "delete_parts M c upload_id (i # is) os =
     (case delete_object (mc_remove_object M) (MINIO_BUCKET_ATTACHMENTS c) (staging_key upload_id i) os of
        (Inl e, os1) \<Rightarrow> (Inl e, os1)
      | (Inr _, os1) \<Rightarrow> delete_parts M c upload_id is os1)"

definition delete_staging :: "'o minio \<Rightarrow> settings \<Rightarrow> string \<Rightarrow> int \<Rightarrow> ('o, unit) handler" where
  "delete_staging M c upload_id total_chunks os = delete_parts M c upload_id (py_range total_chunks) os"

lemma set_py_range [simp]: "set (py_range n) = {0..<n}"
  by (auto simp: py_range_def image_iff intro!: bexI [of _ "nat _"])

lemma distinct_py_range [simp]: "distinct (py_range n)"
  by (simp add: py_range_def distinct_map inj_on_def)

lemma staging_key_inject [simp]: "staging_key u i = staging_key u j \<longleftrightarrow> i = j"
  by (simp add: staging_key_def)

lemma staging_key_nonempty [simp]: "staging_key u i \<noteq> []"
  by (simp add: staging_key_def)

text \<open>The random keys of \<^verbatim>\<open>put_object\<close> begin with a hexadecimal digit, so they are no staging keys.\<close>

lemma hex32_nonempty [simp]: "hex32 u \<noteq> []"
  by (metis length_hex32 list.size(3) zero_neq_numeral)

lemma hex32_not_staging [simp]: "hex32 u @ ext \<noteq> staging_key v i" "staging_key v i \<noteq> hex32 u @ ext"
proof -
  have "digit_of CHR ''s'' = Some 28" by (simp add: digit_of_def)
  then have "CHR ''s'' \<notin> set (hex32 u)" by (intro hex32_not) auto
  then have "hd (hex32 u) \<noteq> CHR ''s''" by (metis hd_in_set hex32_nonempty)
  then have "hd (hex32 u @ ext) \<noteq> hd (staging_key v i)" by (simp add: staging_key_def)
  then show "hex32 u @ ext \<noteq> staging_key v i" "staging_key v i \<noteq> hex32 u @ ext" by metis+
qed

section \<open>The contracts\<close>

text \<open>A staging area for the chunks of uploads.\<close>

locale staging =
  fixes put_chunk :: "string \<Rightarrow> int \<Rightarrow> bytes \<Rightarrow> 'o \<Rightarrow> unit res \<times> 'o"
    and assemble :: "string \<Rightarrow> int \<Rightarrow> 'o \<Rightarrow> bytes res"
    and discard :: "string \<Rightarrow> int \<Rightarrow> 'o \<Rightarrow> unit res \<times> 'o"
    and chunk :: "'o \<Rightarrow> string \<Rightarrow> int \<Rightarrow> bytes option"
    and ready :: "'o \<Rightarrow> bool"
  assumes put_ok: "ready os \<Longrightarrow> fst (put_chunk u i d os) = Inr ()"
    and put_ready: "ready os \<Longrightarrow> ready (snd (put_chunk u i d os))"
    and chunk_put: "ready os \<Longrightarrow> chunk (snd (put_chunk u i d os)) u = (chunk os u)(i := Some d)"
    and assemble_parts: "ready os \<Longrightarrow> (\<And>i. 0 \<le> i \<Longrightarrow> i < n \<Longrightarrow> chunk os u i = Some (f i)) \<Longrightarrow>
      assemble u n os = Inr (concat (map f (py_range n)))"
    and assemble_gap: "ready os \<Longrightarrow> 0 \<le> i \<Longrightarrow> i < n \<Longrightarrow> chunk os u i = None \<Longrightarrow>
      assemble u n os = Inl (S3Error ''NoSuchKey'')"
    and discard_ok: "ready os \<Longrightarrow> fst (discard u n os) = Inr ()"
    and discard_ready: "ready os \<Longrightarrow> ready (snd (discard u n os))"
    and chunk_discard: "ready os \<Longrightarrow> 0 \<le> i \<Longrightarrow> i < n \<Longrightarrow> chunk (snd (discard u n os)) u i = None"
begin

text \<open>Chunks may arrive in any order and repeatedly; what is assembled is the last content of each.\<close>

definition put_all :: "string \<Rightarrow> (int \<times> bytes) list \<Rightarrow> 'o \<Rightarrow> 'o" where
  "put_all u = fold (\<lambda>(i, d) os. snd (put_chunk u i d os))"

lemma put_all_ready: "ready os \<Longrightarrow> ready (put_all u ps os)"
  by (induction ps arbitrary: os) (auto simp: put_all_def put_ready)

lemma chunk_put_all: "ready os \<Longrightarrow> chunk (put_all u ps os) u = chunk os u ++ map_of (rev ps)"
proof (induction ps arbitrary: os)
  case (Cons p ps)
  then show ?case
    by (cases p) (auto simp: put_all_def put_ready chunk_put fun_eq_iff map_add_def split: option.splits)
qed (simp add: put_all_def)

lemma assemble_put_all:
  assumes "ready os" and "fst ` set ps = {0..<n}"
  shows "assemble u n (put_all u ps os) = Inr (concat (map (\<lambda>i. the (map_of (rev ps) i)) (py_range n)))"
proof (rule assemble_parts [OF put_all_ready [OF assms(1)]])
  fix i assume "0 \<le> i" "i < n"
  then have "i \<in> fst ` set (rev ps)" using assms(2) by simp
  then obtain d where "map_of (rev ps) i = Some d"
    by (metis domD dom_map_of_conv_image_fst)
  then show "chunk (put_all u ps os) u i = Some (the (map_of (rev ps) i))"
    by (simp add: chunk_put_all assms(1))
qed

end

text \<open>What the MinIO client promises for an existing bucket.\<close>

locale minio_store =
  fixes M :: "'o minio"
    and objs :: "'o \<Rightarrow> string \<Rightarrow> string \<Rightarrow> bytes option"
    and buckets :: "'o \<Rightarrow> string \<Rightarrow> bool"
  assumes put: "buckets os b \<Longrightarrow> k \<noteq> [] \<Longrightarrow> fst (mc_put_object M b k d t os) = None"
    and objs_put: "buckets os b \<Longrightarrow> k \<noteq> [] \<Longrightarrow>
      objs (snd (mc_put_object M b k d t os)) = (objs os)(b := (objs os b)(k := Some d))"
    and buckets_put: "buckets (snd (mc_put_object M b k d t os)) = buckets os"
    and get: "buckets os b \<Longrightarrow> k \<noteq> [] \<Longrightarrow>
      mc_get_object M b k os = (case objs os b k of None \<Rightarrow> Inl ''NoSuchKey'' | Some d \<Rightarrow> Inr d)"
    and remove: "buckets os b \<Longrightarrow> k \<noteq> [] \<Longrightarrow> fst (mc_remove_object M b k os) \<in> {None, Some ''NoSuchKey''}"
    and objs_remove: "buckets os b \<Longrightarrow> k \<noteq> [] \<Longrightarrow>
      objs (snd (mc_remove_object M b k os)) = (objs os)(b := (objs os b)(k := None))"
    and buckets_remove: "buckets (snd (mc_remove_object M b k os)) = buckets os"
    and exists: "mc_bucket_exists M b os \<longleftrightarrow> buckets os b"
    and objs_make: "\<not> buckets os b \<Longrightarrow> objs (mc_make_bucket M b os) = objs os"
    and buckets_make: "\<not> buckets os b \<Longrightarrow> buckets (mc_make_bucket M b os) = (buckets os)(b := True)"
begin

lemma s3_put:
  "buckets os b \<Longrightarrow> k \<noteq> [] \<Longrightarrow> s3 (mc_put_object M b k d t os) = (Inr (), snd (mc_put_object M b k d t os))"
  using put [of os b k d t] by (auto simp: s3_def split: prod.splits option.splits)

lemma put_object_ok:
  "buckets os b \<Longrightarrow> put_object M u b d t ext os = (Inr (hex32 u @ ext), snd (mc_put_object M b (hex32 u @ ext) d t os))"
  by (simp add: put_object_def s3_put Let_def)

lemma delete_object_ok:
  "buckets os b \<Longrightarrow> k \<noteq> [] \<Longrightarrow>
     delete_object (mc_remove_object M) b k os = (Inr (), snd (mc_remove_object M b k os))"
  using remove [of os b k] by (auto simp: delete_object_def split: prod.splits option.splits)

lemma ensure_buckets_ready:
  "buckets (ensure_buckets M c os) b \<longleftrightarrow> buckets os b \<or> b = MINIO_BUCKET_AVATARS c \<or> b = MINIO_BUCKET_ATTACHMENTS c"
  by (auto simp: ensure_buckets_def exists buckets_make)

lemma objs_ensure_buckets: "objs (ensure_buckets M c os) = objs os"
  by (simp add: ensure_buckets_def exists objs_make)

end

locale minio_staging = minio_store M objs buckets
  for M :: "'o minio"
    and objs :: "'o \<Rightarrow> string \<Rightarrow> string \<Rightarrow> bytes option"
    and buckets :: "'o \<Rightarrow> string \<Rightarrow> bool" +
  fixes c :: settings
begin

definition staged :: "'o \<Rightarrow> string \<Rightarrow> int \<Rightarrow> bytes option" where
  "staged os u i = objs os (MINIO_BUCKET_ATTACHMENTS c) (staging_key u i)"

definition ready_for_uploads :: "'o \<Rightarrow> bool" where
  "ready_for_uploads os \<longleftrightarrow> buckets os (MINIO_BUCKET_ATTACHMENTS c)"

lemma get_parts_all:
  assumes "ready_for_uploads os" and "\<And>i. i \<in> set is \<Longrightarrow> staged os u i = Some (f i)"
  shows "get_parts M c u is os = Inr (map f is)"
  using assms by (induction "is") (auto simp: ready_for_uploads_def staged_def get)

lemma get_parts_gap:
  assumes "ready_for_uploads os" and "i \<in> set is" and "staged os u i = None"
  shows "get_parts M c u is os = Inl (S3Error ''NoSuchKey'')"
  using assms by (induction "is") (auto simp: ready_for_uploads_def staged_def get split: option.splits sum.splits)

lemma delete_parts_ok:
  "ready_for_uploads os \<Longrightarrow> fst (delete_parts M c u is os) = Inr () \<and>
     ready_for_uploads (snd (delete_parts M c u is os)) \<and>
     objs (snd (delete_parts M c u is os)) = (objs os)(MINIO_BUCKET_ATTACHMENTS c :=
       (\<lambda>k. if k \<in> staging_key u ` set is then None else objs os (MINIO_BUCKET_ATTACHMENTS c) k))"
proof (induction "is" arbitrary: os)
  case (Cons i "is")
  then show ?case
    by (auto simp: ready_for_uploads_def delete_object_ok buckets_remove objs_remove fun_eq_iff image_iff)
qed (simp add: fun_eq_iff)

lemma put_staging_ok:
  assumes "ready_for_uploads os"
  shows "put_staging_chunk M c u i d os = (Inr (), snd (put_staging_chunk M c u i d os))"
    and "ready_for_uploads (snd (put_staging_chunk M c u i d os))"
    and "objs (snd (put_staging_chunk M c u i d os)) = (objs os)(MINIO_BUCKET_ATTACHMENTS c :=
      (objs os (MINIO_BUCKET_ATTACHMENTS c))(staging_key u i := Some d))"
  using assms by (simp_all add: put_staging_chunk_def s3_put objs_put buckets_put ready_for_uploads_def)

end

sublocale minio_staging \<subseteq> stg: staging "put_staging_chunk M c" "assemble_staging M c" "delete_staging M c"
  staged ready_for_uploads
proof
  fix os :: 'o and u i d n and f :: "int \<Rightarrow> bytes"
  assume r: "ready_for_uploads os"
  show "fst (put_staging_chunk M c u i d os) = Inr ()" by (subst put_staging_ok(1) [OF r]) simp
  show "ready_for_uploads (snd (put_staging_chunk M c u i d os))" by (rule put_staging_ok(2) [OF r])
  show "staged (snd (put_staging_chunk M c u i d os)) u = (staged os u)(i := Some d)"
    by (simp add: fun_eq_iff staged_def put_staging_ok(3) [OF r])
  show "assemble_staging M c u n os = Inr (concat (map f (py_range n)))"
    if "\<And>i. 0 \<le> i \<Longrightarrow> i < n \<Longrightarrow> staged os u i = Some (f i)"
    using get_parts_all [OF r, of "py_range n" u f] that by (simp add: assemble_staging_def)
  show "assemble_staging M c u n os = Inl (S3Error ''NoSuchKey'')" if "0 \<le> i" "i < n" "staged os u i = None"
    using get_parts_gap [OF r, of i "py_range n" u] that by (simp add: assemble_staging_def)
  show "fst (delete_staging M c u n os) = Inr ()" "ready_for_uploads (snd (delete_staging M c u n os))"
    using delete_parts_ok [OF r] by (simp_all add: delete_staging_def)
  show "staged (snd (delete_staging M c u n os)) u i = None" if "0 \<le> i" "i < n"
    using delete_parts_ok [OF r, of u "py_range n"] that by (simp add: delete_staging_def staged_def)
qed

section \<open>A reference object store\<close>

text \<open>Buckets as finite maps, which shows that the contract is consistent.\<close>

type_synonym object_store = "string \<Rightarrow> (string \<Rightarrow> bytes option) option"

definition ref_objs :: "object_store \<Rightarrow> string \<Rightarrow> string \<Rightarrow> bytes option" where
  "ref_objs os b k = (case os b of None \<Rightarrow> None | Some m \<Rightarrow> m k)"

definition ref_buckets :: "object_store \<Rightarrow> string \<Rightarrow> bool" where
  "ref_buckets os b \<longleftrightarrow> os b \<noteq> None"

definition ref_minio :: "object_store minio" where
  "ref_minio = \<lparr>
     mc_bucket_exists = (\<lambda>b os. os b \<noteq> None),
     mc_make_bucket = (\<lambda>b os. os(b := Some (\<lambda>_. None))),
     mc_put_object = (\<lambda>b k d t os. case os b of None \<Rightarrow> (Some ''NoSuchBucket'', os)
       | Some m \<Rightarrow> (None, os(b := Some (m(k := Some d))))),
     mc_get_object = (\<lambda>b k os. case ref_objs os b k of None \<Rightarrow> Inl ''NoSuchKey'' | Some d \<Rightarrow> Inr d),
     mc_remove_object = (\<lambda>b k os. case os b of None \<Rightarrow> (Some ''NoSuchBucket'', os)
       | Some m \<Rightarrow> (None, os(b := Some (m(k := None))))),
     mc_presigned_put = (\<lambda>b k n. b @ ''/'' @ k), mc_presigned_get = (\<lambda>b k n. b @ ''/'' @ k)\<rparr>"

interpretation ref_minio: minio_store ref_minio ref_objs ref_buckets
  by unfold_locales (auto simp: ref_minio_def ref_objs_def ref_buckets_def intro!: ext split: option.splits if_splits)

interpretation ref_stg: minio_staging ref_minio ref_objs ref_buckets settings_defaults
  by unfold_locales

end
