(* ===== verification/Self_Destruct.thy ===== *)
theory Self_Destruct
  imports Message_Service Storage
begin

text \<open>
  \<^verbatim>\<open>app/services/self_destruct_worker.py\<close>: the sweep, and the worker that repeats it. The
  \<^verbatim>\<open>remove_object\<close> call of the MinIO client is a parameter: it maps a bucket, a key and the
  state of the object store to an error code, if any, and the new state. A sweep takes
  the first \<open>BATCH_SIZE\<close> matching rows in storage order. Over a working store the worker drains its
  backlog (\<open>worker_drains\<close>); a batch whose media cannot be deleted blocks it (\<open>stuck_batch_blocks\<close>).

  The second part closes the message operations under sequencing: \<open>message_step\<close> is one
  call of the message service or of the worker, and the invariant \<open>timer_ok\<close> says how the
  deadline of a self-destructing message is fixed.
\<close>

section \<open>Model\<close>

definition BATCH_SIZE :: nat where
  "BATCH_SIZE = 500"

definition expired :: "instant \<Rightarrow> message \<Rightarrow> bool" where
  "expired now m \<longleftrightarrow> \<not> is_destructed m \<and> (case destruct_at m of None \<Rightarrow> False | Some t \<Rightarrow> t \<le> now)"

definition destructed :: "instant \<Rightarrow> message \<Rightarrow> message" where
  "destructed now msg = msg\<lparr>content_ciphertext := None, media_object_key := None, media_mime_type := None,
     is_destructed := True, deleted_at := Some now\<rparr>"

definition destruct_audit :: "uuid \<Rightarrow> instant \<Rightarrow> message \<Rightarrow> audit_log" where
  "destruct_audit aid now msg = (audit_row aid now None None ''message.self_destructed'' True)
     \<lparr>resource_type := Some ''message'', resource_id := Some (uuid_str (m_id msg)),
      metadata := Some [(''had_media'', JBool (media_object_key msg \<noteq> None))]\<rparr>"

record ('s, 'o) sweep =
  sw_world :: "'s world"
  sw_objects :: 'o
  sw_wiped :: nat

text \<open>One round of the loop; \<open>aid\<close> numbers the audit rows.\<close>

definition sweep_message ::
  "'o remover \<Rightarrow> settings \<Rightarrow> instant \<Rightarrow> (nat \<Rightarrow> uuid) \<Rightarrow> message \<Rightarrow> ('s, 'o) sweep \<Rightarrow> ('s, 'o) sweep" where
  "sweep_message remove_object c now aid msg st =
     (let (res, os1) = (case media_object_key msg of
            None \<Rightarrow> (Inr (), sw_objects st)
          | Some key \<Rightarrow> if key = [] then (Inr (), sw_objects st)
              else delete_object remove_object (MINIO_BUCKET_ATTACHMENTS c) key (sw_objects st))
      in case res of
           Inl _ \<Rightarrow> st\<lparr>sw_objects := os1\<rparr>
         | Inr _ \<Rightarrow>
             let msg' = destructed now msg;
                 w = sw_world st;
                 d1 = add_audit (destruct_audit (aid (sw_wiped st)) now msg') (set_message msg' (w_db w));
                 event = [(''type'', JStr ''unsend''), (''message_id'', JStr (uuid_str (m_id msg')))];
                 w1 = w\<lparr>w_db := d1\<rparr>;
                 w2 = (case recipient_id msg' of None \<Rightarrow> w1 | Some r \<Rightarrow> publish r event w1);
                 w3 = (case sender_id msg' of None \<Rightarrow> w2 | Some s \<Rightarrow> publish s event w2)
             in st\<lparr>sw_world := w3, sw_objects := os1, sw_wiped := sw_wiped st + 1\<rparr>)"

text \<open>
  The sweep: pending rows are written by the commit at the end, while deletions and
  publications take effect at once.
\<close>

definition sweep_once ::
  "'o remover \<Rightarrow> settings \<Rightarrow> instant \<Rightarrow> (nat \<Rightarrow> uuid) \<Rightarrow> 's world \<times> 'o \<Rightarrow> nat res \<times> 's world \<times> 'o" where
  "sweep_once remove_object c now aid = (\<lambda>(w, os).
     let batch = take BATCH_SIZE (scalars (expired now) (messages (w_db w)));
         st = fold (sweep_message remove_object c now aid) batch \<lparr>sw_world = w, sw_objects = os, sw_wiped = 0\<rparr>;
         (res, d) = commit (w_db w) (w_db (sw_world st)) (sw_wiped st)
     in (res, (sw_world st)\<lparr>w_db := d\<rparr>, sw_objects st))"

text \<open>
  The worker: \<open>start\<close> hands a task to the event loop, \<open>stop\<close> cancels the one it knows and waits for it.
  The task repeats the sweep and swallows its exceptions; \<open>worker_run n\<close> is the state after \<open>n\<close> rounds,
  the \<open>k\<close>-th at the instant \<open>clock k\<close>.
\<close>

definition SWEEP_INTERVAL_SECONDS :: nat where
  "SWEEP_INTERVAL_SECONDS = 60"

record worker =
  wk_task :: "nat option"
  wk_running :: "nat set"

definition worker_start :: "nat \<Rightarrow> worker \<Rightarrow> worker" where
  "worker_start task wk = wk\<lparr>wk_task := Some task, wk_running := insert task (wk_running wk)\<rparr>"

definition worker_stop :: "worker \<Rightarrow> worker" where
  "worker_stop wk = (case wk_task wk of None \<Rightarrow> wk | Some task \<Rightarrow> wk\<lparr>wk_running := wk_running wk - {task}\<rparr>)"

definition worker_round ::
  "'o remover \<Rightarrow> settings \<Rightarrow> instant \<Rightarrow> (nat \<Rightarrow> uuid) \<Rightarrow> 's world \<times> 'o \<Rightarrow> 's world \<times> 'o" where
  "worker_round rm c now aid st =
     (case sweep_once rm c now aid st of (Inr wiped, st') \<Rightarrow> st' | (Inl e, st') \<Rightarrow> st')"

primrec worker_run ::
  "'o remover \<Rightarrow> settings \<Rightarrow> (nat \<Rightarrow> instant) \<Rightarrow> (nat \<Rightarrow> nat \<Rightarrow> uuid) \<Rightarrow> nat \<Rightarrow> 's world \<times> 'o \<Rightarrow> 's world \<times> 'o" where
  "worker_run rm c clock aids 0 st = st"
| "worker_run rm c clock aids (Suc n) st = worker_round rm c (clock n) (aids n) (worker_run rm c clock aids n st)"

section \<open>What a batch wipes\<close>

text \<open>
  Releasing the media of one message, and the messages of a batch whose media could be
  released, in order.
\<close>

definition release :: "'o remover \<Rightarrow> settings \<Rightarrow> message \<Rightarrow> 'o \<Rightarrow> bool \<times> 'o" where
  "release remove_object c m os =
     (case media_object_key m of None \<Rightarrow> (True, os)
      | Some key \<Rightarrow> if key = [] then (True, os)
          else (let (r, os1) = delete_object remove_object (MINIO_BUCKET_ATTACHMENTS c) key os in (\<not> isl r, os1)))"

primrec released :: "'o remover \<Rightarrow> settings \<Rightarrow> message list \<Rightarrow> 'o \<Rightarrow> message list" where
  "released remove_object c [] os = []"
| "released remove_object c (m # ms) os =
     (let (ok, os1) = release remove_object c m os
      in (if ok then [m] else []) @ released remove_object c ms os1)"

lemma released_subset: "set (released rm c ms os) \<subseteq> set ms"
  by (induction ms arbitrary: os) (auto simp: Let_def case_prod_beta)

lemma released_length: "length (released rm c ms os) \<le> length ms"
  by (induction ms arbitrary: os) (auto simp: Let_def case_prod_beta le_SucI)

lemma released_all: "(\<And>m os. m \<in> set ms \<Longrightarrow> fst (release rm c m os)) \<Longrightarrow> released rm c ms os = ms"
  by (induction ms arbitrary: os) (auto simp: Let_def case_prod_beta)

lemma released_distinct: "distinct (map m_id ms) \<Longrightarrow> distinct (map m_id (released rm c ms os))"
proof (induction ms arbitrary: os)
  case (Cons m ms)
  then show ?case using released_subset [of rm c ms] by (fastforce simp: Let_def case_prod_beta)
qed simp

lemma destructed_sel [simp]:
  "m_id (destructed now m) = m_id m" "envelope (destructed now m) = envelope m" "is_destructed (destructed now m)"
  "content_ciphertext (destructed now m) = None" "media_object_key (destructed now m) = None"
  "destruct_at (destructed now m) = destruct_at m" "delivered_at (destructed now m) = delivered_at m"
  "destruct_after_seconds (destructed now m) = destruct_after_seconds m"
  "is_self_destruct (destructed now m) = is_self_destruct m" "deleted_at (destructed now m) = Some now"
  "\<not> expired t (destructed now m)"
  by (simp_all add: destructed_def envelope_def expired_def)

definition wipe :: "instant \<Rightarrow> uuid \<Rightarrow> message \<Rightarrow> 's world \<Rightarrow> 's world" where
  "wipe now aid msg w =
     (let msg' = destructed now msg;
          d1 = add_audit (destruct_audit aid now msg') (set_message msg' (w_db w));
          event = [(''type'', JStr ''unsend''), (''message_id'', JStr (uuid_str (m_id msg)))];
          w1 = w\<lparr>w_db := d1\<rparr>;
          w2 = (case recipient_id msg of None \<Rightarrow> w1 | Some r \<Rightarrow> publish r event w1)
      in case sender_id msg of None \<Rightarrow> w2 | Some s \<Rightarrow> publish s event w2)"

lemma sweep_message_eq:
  "sweep_message rm c now aid msg st =
     (let (ok, os1) = release rm c msg (sw_objects st)
      in if ok then st\<lparr>sw_world := wipe now (aid (sw_wiped st)) msg (sw_world st), sw_objects := os1,
             sw_wiped := sw_wiped st + 1\<rparr>
         else st\<lparr>sw_objects := os1\<rparr>)"
proof -
  have "sender_id (destructed now msg) = sender_id msg" "recipient_id (destructed now msg) = recipient_id msg"
    by (simp_all add: destructed_def)
  then show ?thesis
    by (auto simp: sweep_message_def release_def wipe_def Let_def case_prod_beta isl_def
        split: option.splits sum.splits)
qed

lemma w_db_wipe:
  "w_db (wipe now aid msg w) =
     add_audit (destruct_audit aid now (destructed now msg)) (set_message (destructed now msg) (w_db w))"
  by (simp add: wipe_def Let_def split: option.splits)

text \<open>The rows of a batch are still as they were loaded.\<close>

definition loaded :: "message list \<Rightarrow> message list \<Rightarrow> bool" where
  "loaded ms rows \<longleftrightarrow> distinct (map m_id ms) \<and> (\<forall>m\<in>set ms. \<forall>x\<in>set rows. m_id x = m_id m \<longrightarrow> x = m)"

lemma loaded_batch: "unique_on m_id rows \<Longrightarrow> loaded (take n (filter P rows)) rows"
proof -
  assume u: "unique_on m_id rows"
  have "distinct (map m_id (filter P rows))" using u by (simp add: unique_on_def distinct_map_filter)
  then have "distinct (map m_id (take n (filter P rows)))" by (simp add: take_map [symmetric])
  moreover have "x = m" if "m \<in> set (take n (filter P rows))" "x \<in> set rows" "m_id x = m_id m" for m x
    using that u unique_onD [OF u] by (metis filter_is_subset in_set_takeD subset_iff)
  ultimately show ?thesis by (simp add: loaded_def)
qed

lemma set_message_loaded:
  assumes "loaded (m # ms) (messages d)"
  shows "messages (set_message (destructed now m) d) = update_where (\<lambda>x. m_id x = m_id m) (destructed now) (messages d)"
  using assms by (auto simp: set_message_def update_where_def loaded_def)

lemma loaded_wiped:
  assumes "loaded (m # ms) rows"
  shows "loaded ms (update_where (\<lambda>x. m_id x = m_id m) (destructed now) rows)"
proof -
  have "x = k" if kx: "k \<in> set ms" "x \<in> set (update_where (\<lambda>x. m_id x = m_id m) (destructed now) rows)" "m_id x = m_id k" for k x
  proof -
    obtain y where y: "y \<in> set rows" "x = (if m_id y = m_id m then destructed now y else y)"
      using kx(2) by (auto simp: in_update_where)
    then have "m_id y = m_id k" using kx(3) by (simp split: if_splits)
    moreover have "m_id m \<notin> m_id ` set ms" using assms by (simp add: loaded_def)
    then have "m_id k \<noteq> m_id m" using kx(1) by (metis imageI)
    ultimately show ?thesis using y kx(1) assms by (simp add: loaded_def)
  qed
  with assms show ?thesis by (simp add: loaded_def)
qed

lemma update_where_twice:
  "update_where (\<lambda>x. m_id x \<in> A) (destructed now) (update_where (\<lambda>x. m_id x = i) (destructed now) rows) =
   update_where (\<lambda>x. m_id x \<in> insert i A) (destructed now) rows"
proof -
  have "destructed now (destructed now x) = destructed now x" for x by (simp add: destructed_def)
  then show ?thesis by (auto simp: update_where_def)
qed

lemma upt_first: "[k..<k + Suc n] = k # [Suc k..<Suc k + n]"
  using upt_conv_Cons [of k "k + Suc n"] by (simp del: upt_Suc)

lemma fold_sweep:
  fixes st :: "('s, 'o) sweep" and rm :: "'o remover"
  assumes "loaded ms (messages (w_db (sw_world st)))"
    and "ws = released rm c ms (sw_objects st)"
    and "st' = fold (sweep_message rm c now aid) ms st"
  shows "sw_wiped st' = sw_wiped st + length ws \<and>
    (\<exists>new. w_db (sw_world st') = (w_db (sw_world st))
        \<lparr>messages := update_where (\<lambda>x. m_id x \<in> m_id ` set ws) (destructed now) (messages (w_db (sw_world st))),
         audit_logs := audit_logs (w_db (sw_world st)) @ new\<rparr> \<and>
      map a_id new = map aid [sw_wiped st..<sw_wiped st + length ws] \<and> (\<forall>a\<in>set new. actor_id a = None))"
  using assms(1) unfolding assms(2,3)
proof (induction ms arbitrary: st)
  case Nil
  then show ?case by (simp add: update_where_other)
next
  case (Cons m ms)
  have ms: "loaded ms (messages (w_db (sw_world st)))" using Cons.prems by (simp add: loaded_def)
  obtain ok os1 where rel: "release rm c m (sw_objects st) = (ok, os1)" by force
  show ?case
  proof (cases ok)
    case False
    with Cons.IH [of "st\<lparr>sw_objects := os1\<rparr>"] ms rel show ?thesis by (simp add: sweep_message_eq)
  next
    case True
    let ?st = "st\<lparr>sw_world := wipe now (aid (sw_wiped st)) m (sw_world st), sw_objects := os1, sw_wiped := sw_wiped st + 1\<rparr>"
    let ?a = "destruct_audit (aid (sw_wiped st)) now (destructed now m)"
    let ?ws = "released rm c ms os1"
    have step: "sweep_message rm c now aid m st = ?st" using True rel by (simp add: sweep_message_eq)
    have rows: "messages (w_db (sw_world ?st)) =
        update_where (\<lambda>x. m_id x = m_id m) (destructed now) (messages (w_db (sw_world st)))"
      using set_message_loaded [OF Cons.prems] by (simp add: w_db_wipe)
    have "loaded ms (messages (w_db (sw_world ?st)))" unfolding rows by (rule loaded_wiped [OF Cons.prems])
    from Cons.IH [OF this] obtain new where
      cnt: "sw_wiped (fold (sweep_message rm c now aid) ms ?st) = sw_wiped ?st + length ?ws" and
      db: "w_db (sw_world (fold (sweep_message rm c now aid) ms ?st)) = (w_db (sw_world ?st))
        \<lparr>messages := update_where (\<lambda>x. m_id x \<in> m_id ` set ?ws) (destructed now) (messages (w_db (sw_world ?st))),
         audit_logs := audit_logs (w_db (sw_world ?st)) @ new\<rparr>"
      and new: "map a_id new = map aid [sw_wiped ?st..<sw_wiped ?st + length ?ws]" "\<forall>a\<in>set new. actor_id a = None"
      by auto
    have a: "a_id ?a = aid (sw_wiped st)" "actor_id ?a = None" by (simp_all add: destruct_audit_def audit_row_def)
    have upt: "[sw_wiped st..<sw_wiped st + Suc (length ?ws)] =
        sw_wiped st # [sw_wiped ?st..<sw_wiped ?st + length ?ws]"
      unfolding upt_first by simp
    have ins: "m_id ` set (m # ?ws) = insert (m_id m) (m_id ` set ?ws)" by simp
    have "w_db (sw_world (fold (sweep_message rm c now aid) ms ?st)) = (w_db (sw_world st))
        \<lparr>messages := update_where (\<lambda>x. m_id x \<in> m_id ` set (m # ?ws)) (destructed now) (messages (w_db (sw_world st))),
         audit_logs := audit_logs (w_db (sw_world st)) @ ?a # new\<rparr>"
      unfolding db rows update_where_twice ins
      by (simp add: w_db_wipe add_audit_def set_message_def insert_absorb)
    moreover have "map a_id (?a # new) = map aid [sw_wiped st..<sw_wiped st + Suc (length ?ws)]"
      unfolding upt using new(1) a by simp
    ultimately show ?thesis using cnt step rel True new(2) a(2) by (auto intro!: exI [of _ "?a # new"])
  qed
qed

lemma integrity_rewrite:
  assumes "integrity d" and "\<And>m. envelope (f m) = envelope m"
    and "distinct (map a_id new)" and "a_id ` set new \<inter> a_id ` set (audit_logs d) = {}" and "\<forall>a\<in>set new. actor_id a = None"
  shows "integrity (d\<lparr>messages := update_where P f (messages d), audit_logs := audit_logs d @ new\<rparr>)"
proof -
  let ?rows = "update_where P f (messages d)"
  have ids: "map m_id ?rows = map m_id (messages d)"
    using assms(2) by (intro map_update_where) (simp add: envelope_def)
  have ok: "messages_ok (map u_id (users d)) (map g_id (groups d)) (messages d)"
    using assms(1) by (simp add: integrity_def)
  have "\<exists>y\<in>set (messages d). envelope x = envelope y" if "x \<in> set ?rows" for x
    using that assms(2) by (auto simp: in_update_where)
  then have "messages_ok (map u_id (users d)) (map g_id (groups d)) ?rows"
    using ok unfolding messages_ok_def unique_on_def ids envelope_def by (metis prod.inject)
  moreover have "audit_ok (map u_id (users d)) (audit_logs d @ new)"
    using assms by (auto simp: integrity_def audit_ok_def unique_on_def)
  ultimately show ?thesis using assms(1) by (simp add: integrity_def)
qed

definition fresh_audits :: "(nat \<Rightarrow> uuid) \<Rightarrow> db \<Rightarrow> bool" where
  "fresh_audits aid d \<longleftrightarrow> distinct (map aid [0..<BATCH_SIZE]) \<and>
     set (map aid [0..<BATCH_SIZE]) \<inter> a_id ` set (audit_logs d) = {}"

lemma sweep_once_ok:
  fixes rm :: "'o remover" and w :: "'s world"
  assumes "integrity (w_db w)" and "fresh_audits aid (w_db w)"
    and "batch = take BATCH_SIZE (filter (expired now) (messages (w_db w)))" and "ws = released rm c batch os"
  obtains w' os' new where "sweep_once rm c now aid (w, os) = (Inr (length ws), w', os')"
    and "w_db w' = (w_db w)\<lparr>messages := update_where (\<lambda>x. m_id x \<in> m_id ` set ws) (destructed now) (messages (w_db w)),
      audit_logs := audit_logs (w_db w) @ new\<rparr>"
    and "length new = length ws" and "integrity (w_db w')" and "a_id ` set new \<subseteq> aid ` {..<BATCH_SIZE}"
proof -
  let ?st = "\<lparr>sw_world = w, sw_objects = os, sw_wiped = 0\<rparr> :: ('s, 'o) sweep"
  define st' where "st' = fold (sweep_message rm c now aid) batch ?st"
  have "loaded batch (messages (w_db (sw_world ?st)))"
    using assms(1) by (simp add: assms(3) integrity_def messages_ok_def loaded_batch)
  from fold_sweep [OF this, of ws rm c st' now aid] obtain new where
    n: "sw_wiped st' = length ws" and
    db: "w_db (sw_world st') = (w_db w)\<lparr>messages := update_where (\<lambda>x. m_id x \<in> m_id ` set ws) (destructed now) (messages (w_db w)),
      audit_logs := audit_logs (w_db w) @ new\<rparr>" and
    new: "map a_id new = map aid [0..<length ws]" "\<forall>a\<in>set new. actor_id a = None"
    by (auto simp: assms(4) st'_def)
  have len: "length ws \<le> BATCH_SIZE"
    using released_length [of rm c batch os] by (simp add: assms(3,4))
  have fresh: "distinct (map aid [0..<length ws])" "set (map aid [0..<length ws]) \<subseteq> set (map aid [0..<BATCH_SIZE])"
    using assms(2) len by (auto simp: fresh_audits_def distinct_map inj_on_def)
  have "distinct (map a_id new)" "a_id ` set new \<inter> a_id ` set (audit_logs (w_db w)) = {}"
    using fresh assms(2) by (simp_all add: new(1) set_map [symmetric] fresh_audits_def del: set_map) blast
  then have ok: "integrity (w_db (sw_world st'))"
    unfolding db using new(2) by (intro integrity_rewrite [OF assms(1)]) simp_all
  have "sweep_once rm c now aid (w, os) = (Inr (length ws), sw_world st', sw_objects st')"
    using ok n by (simp add: sweep_once_def Let_def assms(3) [symmetric] st'_def [symmetric] commit_def)
  moreover have "length new = length ws" using new(1) by (metis length_map length_upt minus_nat.diff_0)
  moreover have "a_id ` set new \<subseteq> aid ` {..<BATCH_SIZE}"
    using fresh(2) by (simp add: set_map [symmetric] new(1) atLeast0LessThan del: set_map) auto
  ultimately show thesis using that db ok by blast
qed

lemma filter_taken:
  "distinct (map f xs) \<Longrightarrow> filter (\<lambda>x. f x \<notin> f ` set (take n xs)) xs = drop n xs"
proof -
  assume d: "distinct (map f xs)"
  let ?P = "\<lambda>x. f x \<notin> f ` set (take n xs)"
  have "distinct (map f (take n xs @ drop n xs))" using d by simp
  then have disj: "f ` set (take n xs) \<inter> f ` set (drop n xs) = {}" by (simp only: map_append distinct_append set_map)
  have "filter ?P xs = filter ?P (take n xs) @ filter ?P (drop n xs)"
    by (metis append_take_drop_id filter_append)
  moreover have "filter ?P (take n xs) = []" by (auto simp: filter_empty_conv)
  moreover have "filter ?P (drop n xs) = drop n xs" using disj by (auto simp: filter_id_conv)
  ultimately show ?thesis by simp
qed

lemma filter_update_where:
  "(\<And>x. \<not> Q (f x)) \<Longrightarrow> filter Q (update_where P f rows) = filter (\<lambda>x. \<not> P x) (filter Q rows)"
  by (induction rows) (auto simp: update_where_def)

lemma in_batch_unchanged:
  assumes "unique_on m_id rows" and "set ws \<subseteq> set rows"
  shows "update_where (\<lambda>x. m_id x \<in> m_id ` set ws) f rows = map (\<lambda>x. if x \<in> set ws then f x else x) rows"
proof -
  have "m_id x \<in> m_id ` set ws \<longleftrightarrow> x \<in> set ws" if "x \<in> set rows" for x
    using assms that unique_onD [OF assms(1)] by (metis image_iff subset_iff)
  then show ?thesis by (simp add: update_where_def)
qed

subsection \<open>A working object store\<close>

definition working :: "'o remover \<Rightarrow> bool" where
  "working rm \<longleftrightarrow> (\<forall>b k s. fst (rm b k s) \<in> {None, Some ''NoSuchKey''})"

lemma working_release: "working rm \<Longrightarrow> fst (release rm c m s)"
  unfolding working_def release_def delete_object_def
  by (auto simp: Let_def case_prod_beta split: option.splits prod.splits)
    (metis fst_conv insertE option.distinct(1) option.inject singletonD)+

text \<open>A round over a working store wipes its batch: what that does to the messages expired at a time.\<close>

lemma expired_mono: "now \<le> t \<Longrightarrow> expired now m \<Longrightarrow> expired t m"
  by (auto simp: expired_def split: option.splits)

lemma working_round:
  fixes rm :: "'o remover" and w :: "'s world"
  assumes "integrity (w_db w)" and "fresh_audits aid (w_db w)" and "working rm"
    and "b = take BATCH_SIZE (filter (expired now) (messages (w_db w)))"
  obtains w' os' where "worker_round rm c now aid (w, os) = (w', os')" and "integrity (w_db w')"
    and "messages (w_db w') = update_where (\<lambda>x. m_id x \<in> m_id ` set b) (destructed now) (messages (w_db w))"
    and "a_id ` set (audit_logs (w_db w')) \<subseteq> a_id ` set (audit_logs (w_db w)) \<union> aid ` {..<BATCH_SIZE}"
proof -
  have ws: "b = released rm c b os" using released_all working_release [OF assms(3)] by metis
  obtain w' os' new where "sweep_once rm c now aid (w, os) = (Inr (length b), w', os')"
    and db: "w_db w' = (w_db w)\<lparr>messages := update_where (\<lambda>x. m_id x \<in> m_id ` set b) (destructed now) (messages (w_db w)),
      audit_logs := audit_logs (w_db w) @ new\<rparr>" and "integrity (w_db w')" "a_id ` set new \<subseteq> aid ` {..<BATCH_SIZE}"
    by (rule sweep_once_ok [OF assms(1,2,4) ws])
  then show thesis
    by (intro that [of w' os']) (auto simp: worker_round_def db image_Un)
qed

lemma round_shrinks:
  assumes "unique_on m_id rows" and "now \<le> t" and "b = take BATCH_SIZE (filter (expired now) rows)"
    and "rows' = update_where (\<lambda>x. m_id x \<in> m_id ` set b) (destructed now) rows"
  shows "length (filter (expired t) rows') + length b \<le> length (filter (expired t) rows)"
    and "length b < BATCH_SIZE \<Longrightarrow> filter (expired now) rows' = []"
    and "filter (expired u) rows = [] \<Longrightarrow> filter (expired u) rows' = []"
proof -
  have rows': "filter (expired u) rows' = filter (\<lambda>x. m_id x \<notin> m_id ` set b) (filter (expired u) rows)" for u
    unfolding assms(4) by (rule filter_update_where) simp
  have "distinct (map m_id b)" using loaded_batch [OF assms(1)] by (simp add: assms(3) loaded_def)
  then have "length b = card (set b)" by (metis distinct_card distinct_map)
  also have "\<dots> \<le> card (set (filter (\<lambda>x. m_id x \<in> m_id ` set b) (filter (expired t) rows)))"
  proof (rule card_mono)
    show "set b \<subseteq> set (filter (\<lambda>x. m_id x \<in> m_id ` set b) (filter (expired t) rows))"
      using expired_mono [OF assms(2)] by (auto simp: assms(3) dest: in_set_takeD)
  qed simp
  also have "\<dots> \<le> length (filter (\<lambda>x. m_id x \<in> m_id ` set b) (filter (expired t) rows))" by (rule card_length)
  finally show "length (filter (expired t) rows') + length b \<le> length (filter (expired t) rows)"
    unfolding rows' using sum_length_filter_compl [of "\<lambda>x. m_id x \<in> m_id ` set b" "filter (expired t) rows"] by simp
  show "filter (expired now) rows' = []" if "length b < BATCH_SIZE"
  proof -
    have "b = filter (expired now) rows" using that by (simp add: assms(3))
    then show ?thesis unfolding rows' by (simp add: filter_empty_conv)
  qed
  show "filter (expired u) rows' = []" if "filter (expired u) rows = []" using that by (simp add: rows')
qed

text \<open>The identifiers of the audit rows of all rounds are new and different.\<close>

definition fresh_rounds :: "(nat \<Rightarrow> nat \<Rightarrow> uuid) \<Rightarrow> nat \<Rightarrow> db \<Rightarrow> bool" where
  "fresh_rounds aids n d \<longleftrightarrow> inj_on (\<lambda>(k, i). aids k i) ({..<n} \<times> {..<BATCH_SIZE}) \<and>
     (\<forall>k<n. \<forall>i<BATCH_SIZE. aids k i \<notin> a_id ` set (audit_logs d))"

lemma fresh_rounds_audits:
  assumes "fresh_rounds aids n d" and "k < n"
    and "a_id ` set (audit_logs d') \<subseteq> a_id ` set (audit_logs d) \<union> (\<Union>j<k. aids j ` {..<BATCH_SIZE})"
  shows "fresh_audits (aids k) d'"
proof -
  have inj: "aids j i = aids k i' \<Longrightarrow> j = k \<and> i = i'" if "j \<le> k" "i < BATCH_SIZE" "i' < BATCH_SIZE" for j i i'
    using assms(1,2) that unfolding fresh_rounds_def inj_on_def by fastforce
  have distinct: "distinct (map (aids k) [0..<BATCH_SIZE])" using inj [of k] by (auto simp: distinct_map inj_on_def)
  have new: "aids k i \<notin> a_id ` set (audit_logs d')" if "i < BATCH_SIZE" for i
  proof
    assume "aids k i \<in> a_id ` set (audit_logs d')"
    with assms(3) consider "aids k i \<in> a_id ` set (audit_logs d)" | j i' where "j < k" "i' < BATCH_SIZE" "aids k i = aids j i'"
      by blast
    then show False
    proof cases
      case 1
      with assms(1,2) that show False by (simp add: fresh_rounds_def)
    next
      case 2
      with inj [of j i' i] that show False by simp
    qed
  qed
  have "set (map (aids k) [0..<BATCH_SIZE]) \<inter> a_id ` set (audit_logs d') = {}"
  proof (rule Int_emptyI)
    fix x assume x: "x \<in> set (map (aids k) [0..<BATCH_SIZE])" and old: "x \<in> a_id ` set (audit_logs d')"
    from x obtain i where i: "i < BATCH_SIZE" "x = aids k i" by auto
    show False using new [OF i(1)] old unfolding i(2) by (rule notE)
  qed
  with distinct show ?thesis by (simp only: fresh_audits_def simp_thms)
qed

lemma worker_run_inv:
  fixes rm :: "'o remover" and w :: "'s world"
  assumes "integrity (w_db w)" and "fresh_rounds aids n (w_db w)" and "working rm" and "mono clock" and "k \<le> n"
  shows "\<exists>w' os'. worker_run rm c clock aids k (w, os) = (w', os') \<and> integrity (w_db w') \<and>
    a_id ` set (audit_logs (w_db w')) \<subseteq> a_id ` set (audit_logs (w_db w)) \<union> (\<Union>j<k. aids j ` {..<BATCH_SIZE}) \<and>
    (filter (expired (clock 0)) (messages (w_db w')) = [] \<or>
     length (filter (expired (clock n)) (messages (w_db w'))) + k * BATCH_SIZE \<le>
       length (filter (expired (clock n)) (messages (w_db w))))"
  using assms(5)
proof (induction k)
  case 0
  show ?case using assms(1) by simp
next
  case (Suc k)
  then obtain w1 os1 where run: "worker_run rm c clock aids k (w, os) = (w1, os1)" and ok: "integrity (w_db w1)"
    and ids: "a_id ` set (audit_logs (w_db w1)) \<subseteq> a_id ` set (audit_logs (w_db w)) \<union> (\<Union>j<k. aids j ` {..<BATCH_SIZE})"
    and left: "filter (expired (clock 0)) (messages (w_db w1)) = [] \<or>
      length (filter (expired (clock n)) (messages (w_db w1))) + k * BATCH_SIZE \<le>
        length (filter (expired (clock n)) (messages (w_db w)))"
    by auto
  have fresh: "fresh_audits (aids k) (w_db w1)" using fresh_rounds_audits [OF assms(2) _ ids] Suc.prems by simp
  define b where "b = take BATCH_SIZE (filter (expired (clock k)) (messages (w_db w1)))"
  obtain w2 os2 where round: "worker_round rm c (clock k) (aids k) (w1, os1) = (w2, os2)" and ok2: "integrity (w_db w2)"
    and rows: "messages (w_db w2) = update_where (\<lambda>x. m_id x \<in> m_id ` set b) (destructed (clock k)) (messages (w_db w1))"
    and ids2: "a_id ` set (audit_logs (w_db w2)) \<subseteq> a_id ` set (audit_logs (w_db w1)) \<union> aids k ` {..<BATCH_SIZE}"
    by (rule working_round [OF ok fresh assms(3) b_def])
  have u: "unique_on m_id (messages (w_db w1))" using ok by (simp add: integrity_def messages_ok_def)
  have clocks: "clock k \<le> clock n" "clock 0 \<le> clock k" using assms(4) Suc.prems by (simp_all add: monoD)
  note shrinks = round_shrinks [OF u clocks(1) b_def rows]
  have early: "filter (expired (clock 0)) (messages (w_db w2)) = []" if "filter (expired (clock k)) (messages (w_db w2)) = []"
    using that expired_mono [OF clocks(2)] by (auto simp: filter_empty_conv)
  have "length b \<le> BATCH_SIZE" by (simp add: b_def)
  then have "filter (expired (clock 0)) (messages (w_db w2)) = [] \<or>
      length (filter (expired (clock n)) (messages (w_db w2))) + Suc k * BATCH_SIZE \<le>
        length (filter (expired (clock n)) (messages (w_db w)))"
    using left shrinks early by (cases "length b = BATCH_SIZE") auto
  moreover have "a_id ` set (audit_logs (w_db w2)) \<subseteq>
      a_id ` set (audit_logs (w_db w)) \<union> (\<Union>j<Suc k. aids j ` {..<BATCH_SIZE})"
  proof -
    have join: "X \<subseteq> Y \<union> Z \<Longrightarrow> W \<subseteq> X \<union> V \<Longrightarrow> W \<subseteq> Y \<union> (V \<union> Z)" for W X Y Z V :: "uuid set" by blast
    show ?thesis unfolding lessThan_Suc UN_insert by (rule join [OF ids ids2])
  qed
  ultimately show ?case using run round ok2 by simp
qed

section \<open>Properties\<close>

text \<open>
  C10. A sweep over a working object store wipes the expired messages, up to the batch
  size: it reports how many, what is still expired afterwards is exactly the part beyond the
  batch, and each wiped message keeps its row but not its content.
\<close>

theorem sweep_wipes_batch:
  fixes remove_object :: "'o remover" and w :: "'s world"
  assumes "integrity (w_db w)" and "fresh_audits aid (w_db w)"
    and "\<And>b k s. fst (remove_object b k s) \<in> {None, Some ''NoSuchKey''}"
    and "queue = filter (expired now) (messages (w_db w))"
  shows "\<exists>w' os'. sweep_once remove_object c now aid (w, os) = (Inr (min BATCH_SIZE (length queue)), w', os') \<and>
    integrity (w_db w') \<and> filter (expired now) (messages (w_db w')) = drop BATCH_SIZE queue \<and>
    (\<forall>m\<in>set (take BATCH_SIZE queue). message_by_id (w_db w') (m_id m) = Some (destructed now m))"
proof -
  let ?b = "take BATCH_SIZE queue"
  have u: "unique_on m_id (messages (w_db w))" using assms(1) by (simp add: integrity_def messages_ok_def)
  have "fst (release remove_object c m s)" for m s
    by (rule working_release) (use assms(3) in \<open>simp add: working_def\<close>)
  then have ws: "?b = released remove_object c ?b os" using released_all by metis
  obtain w' os' new where
    run: "sweep_once remove_object c now aid (w, os) = (Inr (length ?b), w', os')" and
    db: "w_db w' = (w_db w)\<lparr>messages := update_where (\<lambda>x. m_id x \<in> m_id ` set ?b) (destructed now) (messages (w_db w)),
      audit_logs := audit_logs (w_db w) @ new\<rparr>" and ok: "integrity (w_db w')"
    by (rule sweep_once_ok [OF assms(1,2) _ ws, of now]) (simp_all add: assms(4))
  have "distinct (map m_id queue)" using u by (simp add: assms(4) unique_on_def distinct_map_filter)
  then have "filter (expired now) (messages (w_db w')) = drop BATCH_SIZE queue"
    using filter_taken [of m_id queue BATCH_SIZE] by (simp add: db filter_update_where assms(4))
  moreover have "message_by_id (w_db w') (m_id m) = Some (destructed now m)" if "m \<in> set ?b" for m
  proof -
    have "m \<in> set (messages (w_db w))" using that in_set_takeD [of m BATCH_SIZE queue] by (simp add: assms(4))
    then have "destructed now m \<in> set (messages (w_db w'))"
      using that by (auto simp: db in_update_where)
    from message_by_id_unique [OF ok this] show ?thesis by simp
  qed
  ultimately show ?thesis using run ok by (auto simp: min.commute)
qed

text \<open>An object store that holds nothing: every removal reports a missing key.\<close>

definition empty_store :: "unit remover" where
  "empty_store b k s = (Some ''NoSuchKey'', s)"

definition chat_world :: "unit world" where
  "chat_world = \<lparr>w_db = chat_db, w_otp = (), w_sess = (), w_pub = []\<rparr>"

lemma fresh_of_nat: "audit_logs d = [] \<Longrightarrow> fresh_audits of_nat d"
proof -
  have "inj_on (of_nat :: nat \<Rightarrow> uuid) {0..<BATCH_SIZE}"
    by (auto simp: inj_on_def BATCH_SIZE_def of_nat_inverse dest!: arg_cong [where f = unat])
  then show "audit_logs d = [] \<Longrightarrow> fresh_audits of_nat d"
    by (simp add: fresh_audits_def distinct_map)
qed

lemma chat_world_ok: "integrity (w_db chat_world)" "fresh_audits of_nat (w_db chat_world)"
proof -
  have "audit_logs chat_db = []" by (simp add: chat_db_def chat_users_def empty_db_def)
  then show "integrity (w_db chat_world)" "fresh_audits of_nat (w_db chat_world)"
    by (simp_all add: chat_world_def chat_integrity fresh_of_nat)
qed

theorem sweep_wipes_batch_witness:
  "\<exists>w' os'. sweep_once empty_store settings_defaults (seconds 60) of_nat (chat_world, ()) = (Inr 1, w', os') \<and>
     filter (expired (seconds 60)) (messages (w_db w')) = []"
proof -
  have q: "filter (expired (seconds 60)) (messages (w_db chat_world)) = [new_message 7 0 0 chat_in]"
    by (simp add: chat_world_def chat_db_def expired_def new_message_def chat_in_def)
  from sweep_wipes_batch [OF chat_world_ok, of empty_store _ "seconds 60" settings_defaults "()"] show ?thesis
    by (simp add: q empty_store_def BATCH_SIZE_def) blast
qed

text \<open>
  What a sweep never does: it changes no message that is not expired, and a message
  whose media object cannot be deleted keeps its content and stays queued for the next
  sweep. The number reported is the number of messages wiped and of audit rows written.
\<close>

theorem sweep_spares:
  fixes remove_object :: "'o remover" and w :: "'s world"
  assumes "integrity (w_db w)" and "fresh_audits aid (w_db w)"
  shows "\<exists>n w' os' W. sweep_once remove_object c now aid (w, os) = (Inr n, w', os') \<and>
    messages (w_db w') = map (\<lambda>m. if m \<in> W then destructed now m else m) (messages (w_db w)) \<and>
    W \<subseteq> {m \<in> set (messages (w_db w)). expired now m \<and> (\<exists>s. fst (release remove_object c m s))} \<and>
    n = card W \<and> n \<le> BATCH_SIZE \<and> length (audit_logs (w_db w')) = length (audit_logs (w_db w)) + n"
proof -
  define batch where "batch = take BATCH_SIZE (filter (expired now) (messages (w_db w)))"
  define ws where "ws = released remove_object c batch os"
  have u: "unique_on m_id (messages (w_db w))" using assms(1) by (simp add: integrity_def messages_ok_def)
  obtain w' os' new where run: "sweep_once remove_object c now aid (w, os) = (Inr (length ws), w', os')"
    and db: "w_db w' = (w_db w)\<lparr>messages := update_where (\<lambda>x. m_id x \<in> m_id ` set ws) (destructed now) (messages (w_db w)),
      audit_logs := audit_logs (w_db w) @ new\<rparr>" and new: "length new = length ws"
    by (rule sweep_once_ok [OF assms batch_def ws_def])
  have b: "set batch \<subseteq> {m \<in> set (messages (w_db w)). expired now m}"
    unfolding batch_def using set_take_subset [of BATCH_SIZE "filter (expired now) (messages (w_db w))"] by auto
  have sub: "set ws \<subseteq> set (messages (w_db w))" using b released_subset [of remove_object c batch os] ws_def by auto
  have rel: "\<exists>s. fst (release remove_object c m s)" if "m \<in> set (released remove_object c ms s')" for m ms s'
    using that by (induction ms arbitrary: s') (auto simp: Let_def case_prod_beta split: if_splits)
  have "distinct (map m_id batch)" using loaded_batch [OF u, of BATCH_SIZE "expired now"] by (simp add: loaded_def batch_def)
  then have "distinct ws" unfolding ws_def by (metis released_distinct distinct_map)
  moreover have "length ws \<le> BATCH_SIZE" using released_length [of remove_object c batch os] by (simp add: ws_def batch_def)
  moreover have "set ws \<subseteq> {m \<in> set (messages (w_db w)). expired now m \<and> (\<exists>s. fst (release remove_object c m s))}"
    using b released_subset [of remove_object c batch os] rel [of _ batch os] by (auto simp: ws_def)
  ultimately show ?thesis
    using run new in_batch_unchanged [OF u sub, of "destructed now"]
    by (intro exI [of _ "length ws"] exI [of _ w'] exI [of _ os'] exI [of _ "set ws"]) (simp add: db distinct_card)
qed

theorem sweep_spares_witness:
  "\<exists>n w' os'. sweep_once empty_store settings_defaults 0 of_nat (chat_world, ()) = (Inr n, w', os') \<and> n \<le> 500"
proof -
  from sweep_spares [OF chat_world_ok, of empty_store settings_defaults 0 "()"] show ?thesis
    unfolding BATCH_SIZE_def by blast
qed

text \<open>
  The worker drains its backlog: over a working object store, with a round at least every so often in
  order of time, \<open>n\<close> rounds wipe every message that was due at the first round, provided at most
  \<open>n * BATCH_SIZE\<close> messages fall due until the last.
\<close>

theorem worker_drains:
  fixes rm :: "'o remover" and w :: "'s world"
  assumes "integrity (w_db w)" and "fresh_rounds aids n (w_db w)" and "working rm"
    and "\<And>k. clock k + seconds (int SWEEP_INTERVAL_SECONDS) \<le> clock (Suc k)"
    and "length (filter (expired (clock n)) (messages (w_db w))) \<le> n * BATCH_SIZE"
  shows "\<exists>w' os'. worker_run rm c clock aids n (w, os) = (w', os') \<and> integrity (w_db w') \<and>
    (\<forall>m\<in>set (messages (w_db w')). \<not> expired (clock 0) m)"
proof -
  have le: "clock k \<le> clock (Suc k)" for k
    using assms(4) [of k] by (simp add: seconds_def SWEEP_INTERVAL_SECONDS_def)
  then have "mono clock" by (simp add: mono_iff_le_Suc)
  from worker_run_inv [OF assms(1-3) this order_refl, of c os]
  obtain w' os' where run: "worker_run rm c clock aids n (w, os) = (w', os')" "integrity (w_db w')"
    and left: "filter (expired (clock 0)) (messages (w_db w')) = [] \<or>
      length (filter (expired (clock n)) (messages (w_db w'))) + n * BATCH_SIZE \<le>
        length (filter (expired (clock n)) (messages (w_db w)))"
    by blast
  have "clock 0 \<le> clock n" using \<open>mono clock\<close> by (simp add: monoD)
  moreover have "filter (expired (clock 0)) (messages (w_db w')) = [] \<or> filter (expired (clock n)) (messages (w_db w')) = []"
  proof (cases "filter (expired (clock 0)) (messages (w_db w')) = []")
    case False
    with left assms(5) have "length (filter (expired (clock n)) (messages (w_db w'))) = 0" by linarith
    then show ?thesis by simp
  qed simp
  ultimately have "\<forall>m\<in>set (messages (w_db w')). \<not> expired (clock 0) m"
    using expired_mono by (fastforce simp: filter_empty_conv)
  with run show ?thesis by blast
qed

text \<open>
  The sweep takes the first \<open>BATCH_SIZE\<close> messages that are due and puts a message whose media object cannot
  be deleted back in the same place: when that holds for a whole batch, no later message is ever wiped.
\<close>

theorem stuck_batch_blocks:
  fixes rm :: "'o remover" and w :: "'s world"
  assumes "integrity (w_db w)" and "\<And>k. fresh_audits (aids k) (w_db w)"
    and "\<And>k. take BATCH_SIZE (filter (expired (clock k)) (messages (w_db w))) = b"
    and "\<And>m s. m \<in> set b \<Longrightarrow> \<not> fst (release rm c m s)"
  shows "\<exists>w' os'. worker_run rm c clock aids n (w, os) = (w', os') \<and> w_db w' = w_db w"
proof (induction n)
  case (Suc n)
  then obtain w1 os1 where run: "worker_run rm c clock aids n (w, os) = (w1, os1)" and same: "w_db w1 = w_db w" by blast
  have none: "released rm c ms s = []" if "\<And>m. m \<in> set ms \<Longrightarrow> m \<in> set b" for ms s
    using that assms(4) by (induction ms arbitrary: s) (auto simp: Let_def case_prod_beta)
  have batch: "b = take BATCH_SIZE (filter (expired (clock n)) (messages (w_db w1)))" by (simp add: same assms(3))
  have ws: "[] = released rm c b os1" by (simp add: none)
  have ok: "integrity (w_db w1)" "fresh_audits (aids n) (w_db w1)" using assms(1,2) by (simp_all add: same)
  obtain w2 os2 new where "sweep_once rm c (clock n) (aids n) (w1, os1) = (Inr (length ([] :: message list)), w2, os2)"
    and db: "w_db w2 = (w_db w1)\<lparr>messages := update_where (\<lambda>x. m_id x \<in> m_id ` set ([] :: message list)) (destructed (clock n)) (messages (w_db w1)),
      audit_logs := audit_logs (w_db w1) @ new\<rparr>" and "length new = length ([] :: message list)"
    by (rule sweep_once_ok [OF ok batch ws])
  then have "worker_round rm c (clock n) (aids n) (w1, os1) = (w2, os2)" "w_db w2 = w_db w"
    by (simp_all add: worker_round_def same update_where_other)
  with run show ?case by simp
qed simp

theorem worker_drains_witness:
  "\<exists>w' os'. worker_run empty_store settings_defaults (\<lambda>k. seconds (60 * (int k + 1))) (\<lambda>k i. of_nat i) 1 (chat_world, ()) = (w', os') \<and>
     (\<forall>m\<in>set (messages (w_db w')). \<not> expired (seconds 60) m)"
proof -
  have "messages (w_db chat_world) = [new_message 7 0 0 chat_in]"
    by (simp add: chat_world_def chat_db_def)
  then have few: "length (filter (expired (seconds (60 * (int 1 + 1)))) (messages (w_db chat_world))) \<le> 1 * BATCH_SIZE"
    by (simp add: BATCH_SIZE_def)
  have "fresh_rounds (\<lambda>k i. of_nat i) 1 (w_db chat_world)"
  proof -
    have "audit_logs (w_db chat_world) = []" by (simp add: chat_world_def chat_db_def chat_users_def empty_db_def)
    then show ?thesis
      using chat_world_ok(2) by (auto simp: fresh_rounds_def fresh_audits_def distinct_map inj_on_def)
  qed
  moreover have "working empty_store" by (simp add: working_def empty_store_def)
  ultimately show ?thesis
    using worker_drains [where w = chat_world and n = 1 and aids = "\<lambda>k i. of_nat i" and rm = empty_store
        and clock = "\<lambda>k. seconds (60 * (int k + 1))" and c = settings_defaults and os = "()"] few chat_world_ok(1)
    by (simp add: seconds_def SWEEP_INTERVAL_SECONDS_def) blast
qed

section \<open>The life of a message\<close>

text \<open>One call of the message service or of the worker, on the world and the object store.\<close>

inductive message_step :: "'o remover \<Rightarrow> settings \<Rightarrow> 's world \<times> 'o \<Rightarrow> 's world \<times> 'o \<Rightarrow> bool"
  for rm :: "'o remover" and c :: settings where
  step_save: "save_message mid created now b (w_db w) = (r, d') \<Longrightarrow> message_step rm c (w, os) (w\<lparr>w_db := d'\<rparr>, os)"
| step_delivered: "mark_delivered now i u (w_db w) = (r, d') \<Longrightarrow> message_step rm c (w, os) (w\<lparr>w_db := d'\<rparr>, os)"
| step_read: "mark_read now i u (w_db w) = (r, d') \<Longrightarrow> message_step rm c (w, os) (w\<lparr>w_db := d'\<rparr>, os)"
| step_unsend: "unsend_message now i u (w_db w) = (r, d') \<Longrightarrow> message_step rm c (w, os) (w\<lparr>w_db := d'\<rparr>, os)"
| step_sweep: "sweep_once rm c now aid (w, os) = (r, w', os') \<Longrightarrow> message_step rm c (w, os) (w', os')"

inductive message_reachable :: "'o remover \<Rightarrow> settings \<Rightarrow> 's world \<times> 'o \<Rightarrow> bool"
  for rm :: "'o remover" and c :: settings where
  start: "integrity (w_db w) \<Longrightarrow> messages (w_db w) = [] \<Longrightarrow> message_reachable rm c (w, os)"
| step: "message_reachable rm c x \<Longrightarrow> message_step rm c x y \<Longrightarrow> message_reachable rm c y"

text \<open>The deadline of a timed message is its delivery instant plus its lifetime, from the start.\<close>

definition timer_ok :: "message \<Rightarrow> bool" where
  "timer_ok m \<longleftrightarrow> (\<exists>t. delivered_at m = Some t \<and>
     destruct_at m = (case destruct_after_seconds m of None \<Rightarrow> None | Some n \<Rightarrow> if n = 0 then None else Some (t + seconds n)))"

definition timers_ok :: "db \<Rightarrow> bool" where
  "timers_ok d \<longleftrightarrow> (\<forall>m\<in>set (messages d). timer_ok m)"

lemma timer_ok_simps [simp]:
  "timer_ok (new_message mid created now b)" "timer_ok (wiped_message now m) = timer_ok m"
  "timer_ok (destructed now m) = timer_ok m"
  by (auto simp: timer_ok_def new_message_def split: option.splits)

lemma read_message_timer:
  assumes "timer_ok m"
  shows "destruct_at (read_message now m) = destruct_at m" and "timer_ok (read_message now m)"
proof -
  show d: "destruct_at (read_message now m) = destruct_at m"
    using assms by (auto simp: timer_ok_def read_message_def Let_def split: option.splits)
  show "timer_ok (read_message now m)" using assms d by (auto simp: timer_ok_def)
qed

lemma timers_ok_set: "timers_ok d \<Longrightarrow> timer_ok m \<Longrightarrow> timers_ok (set_message m d)"
  by (auto simp: timers_ok_def set_message_def in_update_where)

lemma timers_ok_commit: "timers_ok d \<Longrightarrow> timers_ok d' \<Longrightarrow> timers_ok (snd (commit d d' x))"
  by (simp add: commit_def)

lemma timers_ok_row: "timers_ok d \<Longrightarrow> message_by_id d i = Some m \<Longrightarrow> timer_ok m"
  by (auto simp: timers_ok_def dest: message_by_idD)

lemma timers_ok_receipts:
  assumes "timers_ok d"
  shows "timers_ok (snd (mark_read now i u d))" "snd (mark_delivered now i u d) = d"
proof -
  show "timers_ok (snd (mark_read now i u d))"
    using assms timers_ok_row [OF assms]
    by (auto simp: mark_read_def Let_def read_message_timer intro!: timers_ok_commit timers_ok_set split: option.splits)
  show "snd (mark_delivered now i u d) = d"
  proof (cases "message_by_id d i")
    case (Some m)
    then obtain t where "delivered_at m = Some t" using timers_ok_row [OF assms] by (auto simp: timer_ok_def)
    with Some show ?thesis by (simp add: mark_delivered_def)
  qed (simp add: mark_delivered_def)
qed

lemma timers_ok_unsend:
  assumes "timers_ok d"
  shows "timers_ok (snd (unsend_message now i u d))"
proof -
  have "timer_ok m" if "scalar (\<lambda>m. m_id m = i \<and> sender_id m = Some u) (messages d) = Some m" for m
    using find_SomeD [OF that] assms by (simp add: timers_ok_def)
  then show ?thesis
    using assms by (auto simp: unsend_message_def intro!: timers_ok_commit timers_ok_set split: option.splits)
qed

lemma timers_ok_sweep:
  assumes "integrity (w_db w)" and "timers_ok (w_db w)" and "sweep_once rm c now aid (w, os) = (r, w', os')"
  shows "timers_ok (w_db w')"
proof -
  define st where "st = \<lparr>sw_world = w, sw_objects = os, sw_wiped = 0\<rparr>"
  define batch where "batch = take BATCH_SIZE (filter (expired now) (messages (w_db w)))"
  have "loaded batch (messages (w_db (sw_world st)))"
    using assms(1) by (simp add: st_def batch_def integrity_def messages_ok_def loaded_batch)
  from fold_sweep [OF this refl refl, of rm c now aid]
  have "timers_ok (w_db (sw_world (fold (sweep_message rm c now aid) batch st)))"
    using assms(2) by (auto simp: timers_ok_def in_update_where st_def)
  with assms(2,3) show ?thesis
    by (auto simp: sweep_once_def Let_def case_prod_beta st_def batch_def commit_def)
qed

lemma integrity_unsend: "integrity d \<Longrightarrow> integrity (snd (unsend_message now i u d))"
  by (auto simp: unsend_message_def split: option.splits)

lemma integrity_receipts:
  "integrity d \<Longrightarrow> integrity (snd (mark_read now i u d))" "integrity d \<Longrightarrow> integrity (snd (mark_delivered now i u d))"
  by (auto simp: mark_read_def mark_delivered_def Let_def split: option.splits)

lemma integrity_sweep: "integrity (w_db w) \<Longrightarrow> sweep_once rm c now aid (w, os) = (r, w', os') \<Longrightarrow> integrity (w_db w')"
  by (auto simp: sweep_once_def Let_def case_prod_beta)

lemma message_step_inv:
  "message_step rm c x y \<Longrightarrow> integrity (w_db (fst x)) \<and> timers_ok (w_db (fst x)) \<Longrightarrow>
     integrity (w_db (fst y)) \<and> timers_ok (w_db (fst y))"
proof (induction rule: message_step.induct)
  case (step_save mid created now b w r d' os)
  then show ?case
    by (auto simp: save_message_def commit_def Let_def timers_ok_def split: if_splits)
next
  case (step_delivered now i u w r d' os)
  then show ?case
    using integrity_receipts(2) [of "w_db w" now i u] timers_ok_receipts(2) [of "w_db w" now i u] by simp
next
  case (step_read now i u w r d' os)
  then show ?case
    using integrity_receipts(1) [of "w_db w" now i u] timers_ok_receipts(1) [of "w_db w" now i u] by simp
next
  case (step_unsend now i u w r d' os)
  then show ?case
    using integrity_unsend [of "w_db w" now i u] timers_ok_unsend [of "w_db w" now i u] by simp
next
  case (step_sweep now aid w os r w' os')
  then show ?case using integrity_sweep timers_ok_sweep by (metis fst_conv)
qed

lemma message_reachable_inv: "message_reachable rm c x \<Longrightarrow> integrity (w_db (fst x)) \<and> timers_ok (w_db (fst x))"
  by (induction rule: message_reachable.induct) (simp add: timers_ok_def, blast dest: message_step_inv)

text \<open>
  C12. The self-destruct deadline is fixed when the message is stored. In every database
  the message operations can reach, a read receipt leaves every deadline as it is, so the
  timer that \<open>mark_read\<close> would start at reading time never starts, and a delivery receipt
  changes nothing.
\<close>

theorem deadline_fixed_at_save:
  assumes "message_reachable rm c (w, os)" and "d = w_db w" and "message_by_id d i = Some m"
  shows "destruct_at m = (case destruct_after_seconds m of None \<Rightarrow> None
      | Some n \<Rightarrow> if n = 0 then None else map_option (\<lambda>t. t + seconds n) (delivered_at m)) \<and>
    (\<forall>now u m' d'. mark_read now i u d = (Inr (Some m'), d') \<longrightarrow> destruct_at m' = destruct_at m) \<and>
    (\<forall>now u. snd (mark_delivered now i u d) = d)"
proof -
  have inv: "integrity d" "timers_ok d" using message_reachable_inv [OF assms(1)] assms(2) by simp_all
  have t: "timer_ok m" using timers_ok_row [OF inv(2) assms(3)] .
  then have "destruct_at m = (case destruct_after_seconds m of None \<Rightarrow> None
      | Some n \<Rightarrow> if n = 0 then None else map_option (\<lambda>t. t + seconds n) (delivered_at m))"
    by (auto simp: timer_ok_def split: option.splits)
  moreover have "destruct_at m' = destruct_at m" if "mark_read now i u d = (Inr (Some m'), d')" for now u m' d'
    using that assms(3) read_message_timer(1) [OF t] by (auto simp: mark_read_eq [OF inv(1)] split: if_splits)
  ultimately show ?thesis using timers_ok_receipts(2) [OF inv(2)] by blast
qed

lemma chat_reachable: "message_reachable empty_store settings_defaults (chat_world, ())"
proof -
  let ?w = "chat_world\<lparr>w_db := chat_users\<rparr>"
  have "message_reachable empty_store settings_defaults (?w, ())"
    by (rule start) (simp add: chat_integrity, simp add: chat_users_def empty_db_def)
  moreover have "message_step empty_store settings_defaults (?w, ()) (?w\<lparr>w_db := chat_db\<rparr>, ())"
    using chat_save by (intro step_save [of 7 0 0 chat_in]) simp
  ultimately have "message_reachable empty_store settings_defaults (?w\<lparr>w_db := chat_db\<rparr>, ())" by (rule step)
  then show ?thesis by (simp add: chat_world_def)
qed

theorem deadline_fixed_at_save_witness:
  "destruct_at (new_message 7 0 0 chat_in) = Some (seconds 60) \<and> snd (mark_delivered 5 7 2 chat_db) = chat_db"
proof -
  have "chat_db = w_db chat_world" "message_by_id chat_db 7 = Some (new_message 7 0 0 chat_in)"
    by (simp add: chat_world_def, simp add: message_by_id_def chat_db_def new_message_def)
  from deadline_fixed_at_save [OF chat_reachable this] show ?thesis
    by (simp add: new_message_def chat_in_def)
qed

end
