(* ===== verification/Group_Routes.thy ===== *)
theory Group_Routes
  imports World
begin

text \<open>
  \<^verbatim>\<open>app/api/routes/groups.py\<close> with the permission methods of \<^verbatim>\<open>app/models/group.py\<close>:
  creating a group, joining it with or without approval, and deciding a request. The last
  part closes the handlers under sequencing and states what membership means in every
  database they can reach.
\<close>

section \<open>Roles\<close>

definition GROUP_ROLE_RANK :: "(string \<times> nat) list" where
  "GROUP_ROLE_RANK = [(group_role_value OBSERVER, 0), (group_role_value MEMBER, 1), (group_role_value MODERATOR, 2),
     (group_role_value G_ADMIN, 3), (group_role_value OWNER, 4)]"

definition role_rank :: "string \<Rightarrow> nat" where
  "role_rank role = (case map_of GROUP_ROLE_RANK role of None \<Rightarrow> 0 | Some r \<Rightarrow> r)"

definition can_post :: "group_member \<Rightarrow> group \<Rightarrow> bool" where
  "can_post m g =
     (if gm_role m = group_role_value OBSERVER then False
      else if is_announcement_group g \<or> only_admins_can_post g then role_rank (gm_role m) \<ge> role_rank (group_role_value G_ADMIN)
      else True)"

definition can_manage_members :: "group_member \<Rightarrow> bool" where
  "can_manage_members m \<longleftrightarrow> role_rank (gm_role m) \<ge> role_rank (group_role_value G_ADMIN)"

section \<open>Handlers\<close>

definition membership :: "db \<Rightarrow> uuid \<Rightarrow> uuid \<Rightarrow> group_member option" where
  "membership d group_id user_id =
     scalar (\<lambda>m. gm_group_id m = group_id \<and> gm_user_id m = user_id) (group_members d)"

definition require_admin_member :: "db \<Rightarrow> uuid \<Rightarrow> uuid \<Rightarrow> group_member res" where
  "require_admin_member d group_id user_id =
     (case membership d group_id user_id of
        None \<Rightarrow> Inl (HTTPException 403 ''group admin role required'')
      | Some m \<Rightarrow> if can_manage_members m then Inr m else Inl (HTTPException 403 ''group admin role required''))"

record group_out =
  go_id :: uuid
  go_name :: string
  go_description :: "string option"
  go_group_type :: string
  go_is_announcement_group :: bool
  go_join_approval_required :: bool
  go_member_count :: nat
  go_my_role :: "string option"

definition GroupOut :: "group \<Rightarrow> nat \<Rightarrow> string \<Rightarrow> group_out" where
  "GroupOut g count role = \<lparr>go_id = g_id g, go_name = g_name g, go_description = g_description g,
     go_group_type = group_type g, go_is_announcement_group = is_announcement_group g,
     go_join_approval_required = join_approval_required g, go_member_count = count, go_my_role = Some role\<rparr>"

definition member_count :: "db \<Rightarrow> uuid \<Rightarrow> nat" where
  "member_count d g = length (filter (\<lambda>m. gm_group_id m = g) (group_members d))"

definition my_groups :: "user \<Rightarrow> db \<Rightarrow> group_out list" where
  "my_groups user d =
     (let rows = concat (map (\<lambda>g. map (\<lambda>m. (g, gm_role m))
            (filter (\<lambda>m. gm_group_id m = g_id g \<and> gm_user_id m = u_id user) (group_members d)))
            (filter (\<lambda>g. \<not> is_archived g) (groups d)))
      in map (\<lambda>(g, role). GroupOut g (member_count d (g_id g)) role)
           (rev (sort_key (\<lambda>(g, _). g_created_at g) rows)))"

record create_group_in =
  cg_name :: string
  cg_description :: "string option"
  cg_is_announcement_group :: bool
  cg_join_approval_required :: bool

definition CreateGroupIn :: "create_group_in \<Rightarrow> create_group_in res" where
  "CreateGroupIn b =
     (if \<not> (2 \<le> length (cg_name b) \<and> length (cg_name b) \<le> 200) then Inl (ValueError ''name'')
      else if (case cg_description b of None \<Rightarrow> False | Some t \<Rightarrow> 1000 < length t) then Inl (ValueError ''description'')
      else Inr b)"

definition new_group :: "uuid \<Rightarrow> instant \<Rightarrow> create_group_in \<Rightarrow> group" where
  "new_group gid now b = \<lparr>g_id = gid, g_created_at = now, g_name = cg_name b, g_description = cg_description b,
     g_avatar_object_key = None, group_type = ''task_force'', max_members = 200, is_archived = False,
     only_admins_can_post = False, is_announcement_group = cg_is_announcement_group b,
     join_approval_required = cg_join_approval_required b, only_admins_can_add_members = True,
     disappearing_messages_seconds = None\<rparr>"

definition new_member :: "uuid \<Rightarrow> instant \<Rightarrow> uuid \<Rightarrow> uuid \<Rightarrow> GroupRole \<Rightarrow> group_member" where
  "new_member mid now gid uid role = \<lparr>gm_id = mid, gm_created_at = now, gm_group_id = gid, gm_user_id = uid,
     gm_role = group_role_value role, added_by_id = None, joined_at = now, is_muted = False, muted_until = None,
     last_read_message_id = None\<rparr>"

definition create_group :: "uuid \<Rightarrow> uuid \<Rightarrow> uuid \<Rightarrow> instant \<Rightarrow> create_group_in \<Rightarrow> user \<Rightarrow> (db, group_out) handler" where
  "create_group gid mid aid now b user d =
     (let g = new_group gid now b;
          d1 = d\<lparr>groups := groups d @ [g]\<rparr>;
          d2 = d1\<lparr>group_members := group_members d1 @ [new_member mid now gid (u_id user) OWNER]\<rparr>;
          d3 = add_audit ((audit_row aid now (Some (u_id user)) (Some (u_role user)) (audit_value GROUP_CREATED) True)
                 \<lparr>resource_type := Some ''group'', resource_id := Some (uuid_str gid)\<rparr>) d2
      in commit d d3 (GroupOut g 1 (group_role_value OWNER)))"

record member_out =
  mo_user_id :: uuid
  mo_full_name :: string
  mo_role :: string
  mo_is_muted :: bool

definition list_group_members :: "uuid \<Rightarrow> user \<Rightarrow> db \<Rightarrow> member_out list res" where
  "list_group_members gid user d =
     (if membership d gid (u_id user) = None then Inl (HTTPException 403 ''not a member of this group'')
      else Inr (concat (map (\<lambda>m. map (\<lambda>u. \<lparr>mo_user_id = gm_user_id m, mo_full_name = full_name u, mo_role = gm_role m,
                                         mo_is_muted = is_muted m\<rparr>)
                   (filter (\<lambda>u. u_id u = gm_user_id m) (users d)))
                 (sort_key joined_at (filter (\<lambda>m. gm_group_id m = gid) (group_members d))))))"

record join_request_out =
  jo_id :: uuid
  jo_user_id :: uuid
  jo_status :: string
  jo_message :: "string option"
  jo_created_at :: instant

definition JoinRequestOut :: "join_request \<Rightarrow> join_request_out" where
  "JoinRequestOut r = \<lparr>jo_id = jr_id r, jo_user_id = jr_user_id r, jo_status = jr_status r, jo_message = jr_message r,
     jo_created_at = jr_created_at r\<rparr>"

definition request_of :: "db \<Rightarrow> uuid \<Rightarrow> uuid \<Rightarrow> join_request option" where
  "request_of d group_id user_id =
     scalar (\<lambda>r. jr_group_id r = group_id \<and> jr_user_id r = user_id) (join_requests d)"

definition set_request :: "join_request \<Rightarrow> db \<Rightarrow> db" where
  "set_request r d = d\<lparr>join_requests := update_where (\<lambda>x. jr_id x = jr_id r) (\<lambda>_. r) (join_requests d)\<rparr>"

definition request_join ::
  "uuid \<Rightarrow> uuid \<Rightarrow> instant \<Rightarrow> uuid \<Rightarrow> string option \<Rightarrow> user \<Rightarrow> (db, join_request_out) handler" where
  "request_join jid mid now gid text user d =
     (case scalar (\<lambda>g. g_id g = gid) (groups d) of
        None \<Rightarrow> (Inl (HTTPException 404 ''group not found''), d)
      | Some g \<Rightarrow>
          if is_archived g then (Inl (HTTPException 404 ''group not found''), d)
          else if membership d gid (u_id user) \<noteq> None then (Inl (HTTPException 409 ''already a member''), d)
          else
            let existing = request_of d gid (u_id user)
            in if (case existing of None \<Rightarrow> False | Some r \<Rightarrow> jr_status r = join_status_value PENDING)
               then (Inl (HTTPException 409 ''request already pending''), d)
               else
                 let d1 = (if \<not> join_approval_required g
                           then d\<lparr>group_members := group_members d @ [new_member mid now gid (u_id user) MEMBER]\<rparr> else d);
                     st = (if \<not> join_approval_required g then join_status_value APPROVED else join_status_value PENDING)
                 in case existing of
                      Some r \<Rightarrow> let r' = r\<lparr>jr_message := text, jr_status := st\<rparr>
                                in commit d (set_request r' d1) (JoinRequestOut r')
                    | None \<Rightarrow> let r' = \<lparr>jr_id = jid, jr_created_at = now, jr_group_id = gid, jr_user_id = u_id user,
                                        jr_status = st, jr_message = text, decided_by_id = None, decided_at = None\<rparr>
                              in commit d (d1\<lparr>join_requests := join_requests d1 @ [r']\<rparr>) (JoinRequestOut r'))"

definition pending_requests :: "uuid \<Rightarrow> user \<Rightarrow> db \<Rightarrow> join_request_out list res" where
  "pending_requests gid user d =
     (case require_admin_member d gid (u_id user) of
        Inl e \<Rightarrow> Inl e
      | Inr _ \<Rightarrow> Inr (map JoinRequestOut
          (scalars (\<lambda>r. jr_group_id r = gid \<and> jr_status r = join_status_value PENDING) (join_requests d))))"

definition decide_request ::
  "uuid \<Rightarrow> uuid \<Rightarrow> instant \<Rightarrow> uuid \<Rightarrow> uuid \<Rightarrow> bool \<Rightarrow> user \<Rightarrow> (db, join_request_out) handler" where
  "decide_request mid aid now gid rid approve user d =
     (case require_admin_member d gid (u_id user) of
        Inl e \<Rightarrow> (Inl e, d)
      | Inr _ \<Rightarrow>
          (case scalar (\<lambda>r. jr_id r = rid \<and> jr_group_id r = gid \<and> jr_status r = join_status_value PENDING) (join_requests d) of
             None \<Rightarrow> (Inl (HTTPException 404 ''pending request not found''), d)
           | Some req \<Rightarrow>
               let req' = req\<lparr>jr_status := join_status_value (if approve then APPROVED else REJECTED),
                              decided_by_id := Some (u_id user), decided_at := Some now\<rparr>;
                   d1 = set_request req' d;
                   d2 = (if approve then
                           add_audit ((audit_row aid now (Some (u_id user)) (Some (u_role user))
                               (audit_value GROUP_MEMBER_ADDED) True)
                               \<lparr>resource_type := Some ''group'', resource_id := Some (uuid_str gid),
                                metadata := Some [(''new_member'', JStr (uuid_str (jr_user_id req')))]\<rparr>)
                             (d1\<lparr>group_members := group_members d1 @ [new_member mid now gid (jr_user_id req') MEMBER]\<rparr>)
                         else d1)
               in commit d d2 (JoinRequestOut req')))"

section \<open>Membership in reachable databases\<close>

abbreviation member_key :: "group_member \<Rightarrow> uuid \<times> uuid" where
  "member_key m \<equiv> (gm_group_id m, gm_user_id m)"

abbreviation request_key :: "join_request \<Rightarrow> uuid \<times> uuid" where
  "request_key r \<equiv> (jr_group_id r, jr_user_id r)"

lemma membership_None: "membership d g u = None \<longleftrightarrow> (g, u) \<notin> member_key ` set (group_members d)"
  by (auto simp: membership_def find_None_iff)

lemma membership_Some: "membership d g u = Some m \<Longrightarrow> m \<in> set (group_members d) \<and> member_key m = (g, u)"
  unfolding membership_def by (drule find_SomeD) simp

lemma require_admin_Inr:
  "require_admin_member d g u = Inr m \<Longrightarrow> m \<in> set (group_members d) \<and> member_key m = (g, u) \<and> can_manage_members m"
  by (auto simp: require_admin_member_def dest: membership_Some split: option.splits if_splits)

text \<open>
  A member other than the creator has an approved request; where the group asks for
  approval, a member who may manage members has decided it.
\<close>

definition admitted :: "db \<Rightarrow> group_member \<Rightarrow> bool" where
  "admitted d m \<longleftrightarrow> gm_role m = group_role_value OWNER \<or>
     (\<exists>r\<in>set (join_requests d). request_key r = member_key m \<and> jr_status r = join_status_value APPROVED \<and>
        ((\<forall>g\<in>set (groups d). g_id g = gm_group_id m \<longrightarrow> \<not> join_approval_required g) \<or>
         (\<exists>a\<in>set (group_members d). decided_by_id r = Some (gm_user_id a) \<and> gm_group_id a = gm_group_id m \<and>
            can_manage_members a)))"

definition pending_outside :: "db \<Rightarrow> join_request \<Rightarrow> bool" where
  "pending_outside d r \<longleftrightarrow> (jr_status r = join_status_value PENDING \<longrightarrow> request_key r \<notin> member_key ` set (group_members d))"

definition has_owner :: "db \<Rightarrow> group \<Rightarrow> bool" where
  "has_owner d g \<longleftrightarrow> (\<exists>m\<in>set (group_members d). gm_group_id m = g_id g \<and> gm_role m = group_role_value OWNER)"

definition group_inv :: "db \<Rightarrow> bool" where
  "group_inv d \<longleftrightarrow> integrity d \<and> (\<forall>m\<in>set (group_members d). admitted d m) \<and>
     (\<forall>r\<in>set (join_requests d). pending_outside d r) \<and> (\<forall>g\<in>set (groups d). has_owner d g)"

inductive group_step :: "db \<Rightarrow> db \<Rightarrow> bool" where
  step_create: "create_group gid mid aid now b user d = (r, d') \<Longrightarrow> group_step d d'"
| step_request: "request_join jid mid now gid text user d = (r, d') \<Longrightarrow> group_step d d'"
| step_decide: "decide_request mid aid now gid rid approve user d = (r, d') \<Longrightarrow> group_step d d'"

inductive group_reachable :: "db \<Rightarrow> bool" where
  start: "integrity d \<Longrightarrow> groups d = [] \<Longrightarrow> group_reachable d"
| step: "group_reachable d \<Longrightarrow> group_step d d' \<Longrightarrow> group_reachable d'"

lemma integrity_keys:
  assumes "integrity d"
  shows "unique_on member_key (group_members d)" and "unique_on request_key (join_requests d)"
    and "unique_on jr_id (join_requests d)" and "unique_on g_id (groups d)"
    and "r \<in> set (join_requests d) \<Longrightarrow> jr_group_id r \<in> g_id ` set (groups d)"
    and "m \<in> set (group_members d) \<Longrightarrow> gm_group_id m \<in> g_id ` set (groups d)"
  using assms by (simp_all add: integrity_def members_ok_def requests_ok_def)

text \<open>Adding members, and changing requests of non-members, keeps everybody admitted.\<close>

lemma admitted_mono:
  assumes "admitted d m" and "groups d' = groups d" and "set (group_members d) \<subseteq> set (group_members d')"
    and "\<And>r. r \<in> set (join_requests d) \<Longrightarrow> request_key r = member_key m \<Longrightarrow> r \<in> set (join_requests d')"
  shows "admitted d' m"
  using assms unfolding admitted_def by (metis subset_iff)

lemma in_set_request:
  assumes "unique_on jr_id (join_requests d)" and "r0 \<in> set (join_requests d)" and "jr_id r = jr_id r0"
  shows "x \<in> set (join_requests (set_request r d)) \<longleftrightarrow> x = r \<or> (x \<in> set (join_requests d) \<and> x \<noteq> r0)"
proof -
  have "(\<exists>y\<in>set (join_requests d). x = (if jr_id y = jr_id r then r else y)) \<longleftrightarrow>
      x = r \<or> (x \<in> set (join_requests d) \<and> x \<noteq> r0)"
    using assms unique_onD [OF assms(1)] by metis
  then show ?thesis by (simp add: set_request_def in_update_where)
qed

lemma set_request_sel [simp]:
  "groups (set_request r d) = groups d" "group_members (set_request r d) = group_members d"
  "users (set_request r d) = users d" "audit_logs (set_request r d) = audit_logs d"
  by (simp_all add: set_request_def)

lemma group_inv_create:
  assumes "group_inv d" and "integrity d'"
    and "groups d' = groups d @ [g]" and "group_members d' = group_members d @ [m]" and "join_requests d' = join_requests d"
    and "gm_group_id m = g_id g" and "gm_role m = group_role_value OWNER"
  shows "group_inv d'"
proof -
  have d: "integrity d" using assms(1) by (simp add: group_inv_def)
  have fresh: "g_id g \<notin> g_id ` set (groups d)"
    using integrity_keys(4) [OF assms(2)] by (simp add: assms(3))
  have "admitted d' x" if "x \<in> set (group_members d)" for x
  proof -
    have "gm_group_id x \<noteq> g_id g" using fresh integrity_keys(6) [OF d that] by metis
    then have "(\<forall>g\<in>set (groups d'). g_id g = gm_group_id x \<longrightarrow> P g) \<longleftrightarrow> (\<forall>g\<in>set (groups d). g_id g = gm_group_id x \<longrightarrow> P g)"
      for P by (simp add: assms(3))
    moreover have "admitted d x" using assms(1) that by (simp add: group_inv_def)
    ultimately show ?thesis unfolding admitted_def by (simp add: assms(4,5)) blast
  qed
  moreover have "admitted d' m" by (simp add: admitted_def assms(7))
  moreover have "pending_outside d' r" if "r \<in> set (join_requests d)" for r
  proof -
    have "request_key r \<noteq> member_key m" using fresh integrity_keys(5) [OF d that] assms(6) by (metis prod.inject)
    moreover have "pending_outside d r" using assms(1) that by (simp add: group_inv_def)
    ultimately show ?thesis by (simp add: pending_outside_def assms(4))
  qed
  moreover have "has_owner d' x" if "x \<in> set (groups d')" for x
  proof (cases "x = g")
    case True
    then show ?thesis unfolding has_owner_def using assms(4,6,7) by (intro bexI [of _ m]) simp_all
  next
    case False
    then have "has_owner d x" using that assms(1,3) by (simp add: group_inv_def)
    then show ?thesis unfolding has_owner_def using assms(4) by (metis Un_iff set_append)
  qed
  ultimately show ?thesis using assms(2) by (simp add: group_inv_def assms(4,5))
qed

text \<open>
  The other steps: at most one member \<open>m\<close> joins, the one request with its key is rewritten
  (or added) as \<open>r\<close>, and nothing else changes.
\<close>

lemma group_inv_join:
  assumes inv: "group_inv d" and ok: "integrity d'" and g: "groups d' = groups d"
    and members: "set (group_members d') = set (group_members d) \<union> N"
    and requests: "\<And>x. x \<in> set (join_requests d') \<longleftrightarrow> x = r \<or> (x \<in> set (join_requests d) \<and> request_key x \<noteq> request_key r)"
    and outside: "request_key r \<notin> member_key ` set (group_members d)"
    and N: "\<forall>m\<in>N. member_key m = request_key r \<and> admitted d' m"
    and pend: "N = {} \<or> jr_status r \<noteq> join_status_value PENDING"
  shows "group_inv d'"
proof -
  have "admitted d' x" if x: "x \<in> set (group_members d)" for x
  proof (rule admitted_mono [OF _ g])
    show "admitted d x" using inv x by (simp add: group_inv_def)
    show "set (group_members d) \<subseteq> set (group_members d')" by (simp add: members)
    show "s \<in> set (join_requests d')" if "s \<in> set (join_requests d)" "request_key s = member_key x" for s
    proof -
      have mem: "member_key x \<in> member_key ` set (group_members d)" using x by (rule imageI)
      have "request_key s \<noteq> request_key r"
      proof
        assume "request_key s = request_key r"
        then have "member_key x = request_key r" using that(2) by (simp only:)
        from mem [unfolded this] outside show False by contradiction
      qed
      with that(1) requests show ?thesis by blast
    qed
  qed
  moreover have "pending_outside d' x" if x: "x \<in> set (join_requests d')" for x
  proof (cases "x = r")
    case True
    show ?thesis
    proof (cases "N = {}")
      case True
      then show ?thesis using \<open>x = r\<close> outside by (simp only: pending_outside_def members Un_empty_right simp_thms)
    next
      case False
      with pend \<open>x = r\<close> show ?thesis by (simp only: pending_outside_def simp_thms)
    qed
  next
    case False
    then have "x \<in> set (join_requests d)" "request_key x \<noteq> request_key r" using x requests by blast+
    moreover from this have "pending_outside d x" using inv by (simp add: group_inv_def)
    moreover have "member_key ` set (group_members d') \<subseteq> insert (request_key r) (member_key ` set (group_members d))"
      using N members by blast
    ultimately show ?thesis unfolding pending_outside_def by blast
  qed
  moreover have "has_owner d' x" if "x \<in> set (groups d')" for x
    using that inv members g unfolding has_owner_def group_inv_def by (metis UnI1)
  ultimately show ?thesis using ok N members unfolding group_inv_def by blast
qed

lemma request_of_Some:
  "request_of d g u = Some r \<Longrightarrow> r \<in> set (join_requests d) \<and> request_key r = (g, u)"
  unfolding request_of_def by (drule find_SomeD) simp

lemma request_of_None: "request_of d g u = None \<Longrightarrow> x \<in> set (join_requests d) \<Longrightarrow> request_key x \<noteq> (g, u)"
  unfolding request_of_def by (drule find_NoneD) auto

lemma new_member_sel [simp]:
  "gm_group_id (new_member mid now g u role) = g" "gm_user_id (new_member mid now g u role) = u"
  "gm_role (new_member mid now g u role) = group_role_value role"
  by (simp_all add: new_member_def)

lemma rewritten_requests:
  assumes "integrity d" and "r0 \<in> set (join_requests d)" and "jr_id r = jr_id r0" and "request_key r = request_key r0"
  shows "x \<in> set (join_requests (set_request r d)) \<longleftrightarrow> x = r \<or> (x \<in> set (join_requests d) \<and> request_key x \<noteq> request_key r)"
proof -
  have "x = r0 \<longleftrightarrow> request_key x = request_key r" if "x \<in> set (join_requests d)"
    using that assms(2,4) unique_onD [OF integrity_keys(2) [OF assms(1)] that assms(2)] by metis
  then show ?thesis using in_set_request [OF integrity_keys(3) [OF assms(1)] assms(2,3)] by blast
qed

lemma group_step_create:
  assumes "group_inv d" and "create_group gid mid aid now b user d = (r, d')"
  shows "group_inv d'"
proof (cases "d' = d")
  case False
  then show ?thesis
    using assms
    by (auto simp: create_group_def Let_def commit_def new_group_def split: if_splits intro!: group_inv_create [OF assms(1)])
qed (simp add: assms(1))

lemma group_step_request:
  assumes "group_inv d" and "request_join jid mid now gid text user d = (res, d')"
  shows "group_inv d'"
proof (cases "d' = d")
  case False
  let ?k = "(gid, u_id user)"
  have d: "integrity d" using assms(1) by (simp add: group_inv_def)
  from False assms(2) obtain g where g: "scalar (\<lambda>g. g_id g = gid) (groups d) = Some g"
    and out: "membership d gid (u_id user) = None"
    by (auto simp: request_join_def split: option.splits if_splits)
  define N where "N = (if join_approval_required g then [] else [new_member mid now gid (u_id user) MEMBER])"
  define st where "st = (if join_approval_required g then PENDING else APPROVED)"
  define d1 where "d1 = d\<lparr>group_members := group_members d @ N\<rparr>"
  obtain r where ok: "integrity d'" and eq: "groups d' = groups d" "group_members d' = group_members d @ N"
    and r: "request_key r = ?k" "jr_status r = join_status_value st"
    and req: "\<And>x. x \<in> set (join_requests d') \<longleftrightarrow> x = r \<or> (x \<in> set (join_requests d) \<and> request_key x \<noteq> request_key r)"
  proof (cases "request_of d gid (u_id user)")
    case None
    let ?r = "\<lparr>jr_id = jid, jr_created_at = now, jr_group_id = gid, jr_user_id = u_id user,
      jr_status = join_status_value st, jr_message = text, decided_by_id = None, decided_at = None\<rparr>"
    have "integrity d' \<and> d' = d1\<lparr>join_requests := join_requests d1 @ [?r]\<rparr>"
      using False assms(2) g out None
      by (simp add: request_join_def Let_def commit_def N_def st_def d1_def split: if_splits)
    then show thesis using that [of ?r] request_of_None [OF None] by (auto simp: d1_def)
  next
    case (Some r0)
    let ?r = "r0\<lparr>jr_message := text, jr_status := join_status_value st\<rparr>"
    have "integrity d' \<and> d' = set_request ?r d1"
      using False assms(2) g out Some
      by (simp add: request_join_def Let_def commit_def N_def st_def d1_def split: if_splits)
    then have e: "integrity d'" "d' = set_request ?r d1" by blast+
    have r0: "r0 \<in> set (join_requests d)" "request_key r0 = ?k" using request_of_Some [OF Some] by simp_all
    have "join_requests (set_request ?r d1) = join_requests (set_request ?r d)" by (simp add: set_request_def d1_def)
    then show thesis
      using that [of ?r] e r0 rewritten_requests [OF d r0(1), of ?r] by (simp add: d1_def)
  qed
  have gs: "g \<in> set (groups d)" "g_id g = gid" using find_SomeD [OF g] by simp_all
  have "admitted d' m" if "m \<in> set N" for m
  proof -
    have m: "m = new_member mid now gid (u_id user) MEMBER" "\<not> join_approval_required g"
      using that by (simp_all add: N_def split: if_splits)
    have "x = g" if "x \<in> set (groups d')" "g_id x = gid" for x
      using that gs eq(1) unique_onD [OF integrity_keys(4) [OF d]] by simp
    then have "\<forall>x\<in>set (groups d'). g_id x = gm_group_id m \<longrightarrow> \<not> join_approval_required x"
      using m by (simp, blast)
    moreover have "r \<in> set (join_requests d')" "request_key r = member_key m" "jr_status r = join_status_value APPROVED"
      using req r m by (simp_all add: st_def)
    ultimately show ?thesis unfolding admitted_def by blast
  qed
  moreover have "member_key m = request_key r" if "m \<in> set N" for m
    using that r(1) by (simp add: N_def split: if_splits)
  ultimately have new: "\<forall>m\<in>set N. member_key m = request_key r \<and> admitted d' m" by blast
  have pend: "set N = {} \<or> jr_status r \<noteq> join_status_value PENDING" using r(2) by (simp add: N_def st_def)
  have out': "request_key r \<notin> member_key ` set (group_members d)"
    unfolding r(1) using out by (simp only: membership_None not_False_eq_True)
  have members: "set (group_members d') = set (group_members d) \<union> set N" by (simp add: eq(2))
  show ?thesis by (rule group_inv_join [OF assms(1) ok eq(1) members req out' new pend])
qed (simp add: assms(1))

lemma decide_request_cases:
  assumes "decide_request mid aid now gid rid approve user d = (res, d')" and "d' \<noteq> d"
  obtains a r0 r where "a \<in> set (group_members d)" "member_key a = (gid, u_id user)" "can_manage_members a"
    and "r0 \<in> set (join_requests d)" "jr_group_id r0 = gid" "jr_status r0 = join_status_value PENDING"
    and "jr_id r = jr_id r0" "request_key r = request_key r0" "decided_by_id r = Some (u_id user)"
    and "jr_status r = join_status_value (if approve then APPROVED else REJECTED)"
    and "integrity d'" "groups d' = groups d" "join_requests d' = join_requests (set_request r d)"
    and "group_members d' = group_members d @ (if approve then [new_member mid now gid (jr_user_id r0) MEMBER] else [])"
proof -
  from assms obtain a where a: "require_admin_member d gid (u_id user) = Inr a"
    by (auto simp: decide_request_def split: sum.splits)
  with assms obtain r0 where
    r0: "scalar (\<lambda>r. jr_id r = rid \<and> jr_group_id r = gid \<and> jr_status r = join_status_value PENDING) (join_requests d) = Some r0"
    by (auto simp: decide_request_def split: option.splits)
  let ?r = "r0\<lparr>jr_status := join_status_value (if approve then APPROVED else REJECTED),
    decided_by_id := Some (u_id user), decided_at := Some now\<rparr>"
  have "integrity d'" "groups d' = groups d" "join_requests d' = join_requests (set_request ?r d)"
    "group_members d' = group_members d @ (if approve then [new_member mid now gid (jr_user_id r0) MEMBER] else [])"
    using assms a r0 by (simp_all add: decide_request_def Let_def commit_def set_request_def split: if_splits) auto
  then show thesis
    using that [of a r0 ?r] require_admin_Inr [OF a] find_SomeD [OF r0] by simp
qed

lemma group_step_decide:
  assumes "group_inv d" and "decide_request mid aid now gid rid approve user d = (res, d')"
  shows "group_inv d'"
proof (cases "d' = d")
  case False
  have d: "integrity d" using assms(1) by (simp add: group_inv_def)
  from assms(2) False obtain a r0 r where a: "a \<in> set (group_members d)" "member_key a = (gid, u_id user)" "can_manage_members a"
    and r0: "r0 \<in> set (join_requests d)" "jr_group_id r0 = gid" "jr_status r0 = join_status_value PENDING"
    and r: "jr_id r = jr_id r0" "request_key r = request_key r0" "decided_by_id r = Some (u_id user)"
      "jr_status r = join_status_value (if approve then APPROVED else REJECTED)"
    and d': "integrity d'" "groups d' = groups d" "join_requests d' = join_requests (set_request r d)"
      "group_members d' = group_members d @ (if approve then [new_member mid now gid (jr_user_id r0) MEMBER] else [])"
    by (rule decide_request_cases)
  define N where "N = (if approve then {new_member mid now gid (jr_user_id r0) MEMBER} else {})"
  have req: "x \<in> set (join_requests d') \<longleftrightarrow> x = r \<or> (x \<in> set (join_requests d) \<and> request_key x \<noteq> request_key r)" for x
    unfolding d'(3) by (rule rewritten_requests [OF d r0(1) r(1,2)])
  have members: "set (group_members d') = set (group_members d) \<union> N" by (simp add: d'(4) N_def)
  have out: "request_key r \<notin> member_key ` set (group_members d)"
    using assms(1) r0(1,3) unfolding r(2) group_inv_def pending_outside_def by blast
  have key: "member_key m = request_key r" if "m \<in> N" for m
    using that r(2) r0(2) by (simp add: N_def split: if_splits)
  have "admitted d' m" if m: "m \<in> N" for m
  proof -
    have "r \<in> set (join_requests d')" "jr_status r = join_status_value APPROVED"
      using req r(4) m by (simp_all add: N_def split: if_splits)
    moreover have "a \<in> set (group_members d')" "decided_by_id r = Some (gm_user_id a)" "gm_group_id a = gm_group_id m"
      using a r(3) members m by (simp_all add: N_def split: if_splits)
    ultimately show ?thesis unfolding admitted_def using key [OF m] a(3) by metis
  qed
  with key have "\<forall>m\<in>N. member_key m = request_key r \<and> admitted d' m" by blast
  moreover have "N = {} \<or> jr_status r \<noteq> join_status_value PENDING" using r(4) by (simp add: N_def)
  ultimately show ?thesis by (rule group_inv_join [OF assms(1) d'(1,2) members req out])
qed (simp add: assms(1))

lemma group_inv_start: "integrity d \<Longrightarrow> groups d = [] \<Longrightarrow> group_inv d"
proof -
  assume d: "integrity d" "groups d = []"
  have "m \<notin> set (group_members d)" "r \<notin> set (join_requests d)" for m r
    using integrity_keys(5) [OF d(1), of r] integrity_keys(6) [OF d(1), of m] d(2) by auto
  then have "group_members d = []" "join_requests d = []"
    by (metis list.set_intros(1) neq_Nil_conv)+
  with d show ?thesis by (simp add: group_inv_def)
qed

lemma group_reachable_inv: "group_reachable d \<Longrightarrow> group_inv d"
proof (induction rule: group_reachable.induct)
  case (step d d')
  from step(2,3) show ?case
    by (cases rule: group_step.cases) (blast dest: group_step_create group_step_request group_step_decide)+
qed (rule group_inv_start)

lemma integrity_set_request:
  assumes "integrity d" and "r0 \<in> set (join_requests d)" and "jr_id r = jr_id r0" and "request_key r = request_key r0"
    and "ref_ok (map u_id (users d)) (decided_by_id r)"
  shows "integrity (set_request r d)"
proof -
  let ?rows = "join_requests (set_request r d)"
  have f: "scalar (\<lambda>x. jr_id x = jr_id r) (join_requests d) = Some r0"
    using find_unique [OF integrity_keys(3) [OF assms(1)] assms(2)] assms(3) by simp
  have keys: "map jr_id ?rows = map jr_id (join_requests d)" "map request_key ?rows = map request_key (join_requests d)"
    using map_overwrite [OF integrity_keys(3) [OF assms(1)] f, of jr_id]
      map_overwrite [OF integrity_keys(3) [OF assms(1)] f, of request_key] assms(3,4)
    by (simp_all add: set_request_def)
  have ok: "requests_ok (map u_id (users d)) (map g_id (groups d)) (join_requests d)"
    using assms(1) by (simp add: integrity_def)
  let ?fk = "\<lambda>x. jr_group_id x \<in> set (map g_id (groups d)) \<and> jr_user_id x \<in> set (map u_id (users d)) \<and>
    ref_ok (map u_id (users d)) (decided_by_id x)"
  have "jr_group_id r = jr_group_id r0" "jr_user_id r = jr_user_id r0" using assms(4) by simp_all
  moreover have old: "?fk x" if "x \<in> set (join_requests d)" for x
    using ok that unfolding requests_ok_def by blast
  ultimately have fk: "?fk r" using old [OF assms(2)] assms(5) by (simp only: simp_thms)
  have "?fk x" if x: "x \<in> set ?rows" for x
  proof (cases "x = r")
    case True
    with fk show ?thesis by (simp only:)
  next
    case False
    then have "x \<in> set (join_requests d)" using x rewritten_requests [OF assms(1-4), of x] by blast
    then show ?thesis by (rule old)
  qed
  moreover have "unique_on jr_id ?rows" "unique_on request_key ?rows"
    using ok unfolding requests_ok_def unique_on_def keys by blast+
  ultimately have "requests_ok (map u_id (users d)) (map g_id (groups d)) ?rows" unfolding requests_ok_def by blast
  with assms(1) show ?thesis by (simp add: integrity_def set_request_def)
qed

lemma integrity_add_member:
  assumes "integrity d" and "gm_id m \<notin> gm_id ` set (group_members d)" and "member_key m \<notin> member_key ` set (group_members d)"
    and "gm_group_id m \<in> g_id ` set (groups d)" and "gm_user_id m \<in> u_id ` set (users d)" and "added_by_id m = None"
  shows "integrity (d\<lparr>group_members := group_members d @ [m]\<rparr>)"
  using assms by (simp add: integrity_def members_ok_def)

section \<open>Properties\<close>

text \<open>
  C13. Nobody is in a group by accident: in every database the group handlers can reach, each
  membership is that of the creator or is covered by an approved join request, and in a
  group that asks for approval that request was decided by a member allowed to manage
  members. Every group has an owner, so there is always somebody who can decide.
\<close>

theorem membership_needs_approval:
  assumes "group_reachable d"
  shows "(\<forall>m\<in>set (group_members d). admitted d m) \<and> (\<forall>g\<in>set (groups d). has_owner d g)"
  using group_reachable_inv [OF assms] by (simp add: group_inv_def)

definition guest :: user where
  "guest = \<lparr>u_id = 2, u_created_at = 0, phone_number = ''+2'', full_name = ''B'', username = None,
     department = None, fcm_token = None, hashed_military_id = [], hashed_password = [],
     device_fingerprint = None, token_version = 0, u_status = ''active'', u_role = ''soldier'', expiry_date = None,
     last_seen_at = None, is_online = False, u_avatar_object_key = None, mfa_enabled = False\<rparr>"

definition founder :: user where
  "founder = guest\<lparr>u_id := 1, phone_number := ''+1''\<rparr>"

definition group_body :: create_group_in where
  "group_body = \<lparr>cg_name = ''unit'', cg_description = None, cg_is_announcement_group = False, cg_join_approval_required = True\<rparr>"

definition group_db0 :: db where
  "group_db0 = empty_db\<lparr>users := [founder, guest]\<rparr>"

definition group_db1 :: db where
  "group_db1 = snd (create_group 10 11 12 0 group_body founder group_db0)"

definition group_db2 :: db where
  "group_db2 = snd (request_join 20 21 0 10 None guest group_db1)"

lemmas group_demo = group_db0_def group_db1_def group_db2_def founder_def guest_def group_body_def empty_db_def
  create_group_def request_join_def new_group_def new_member_def GroupOut_def JoinRequestOut_def Let_def commit_def
  integrity_def users_ok_def sessions_ok_def messages_ok_def members_ok_def requests_ok_def broadcasts_ok_def acks_ok_def
  audit_ok_def unique_on_def membership_def request_of_def audit_row_def add_audit_def

lemma group_db1_eq: "group_db1 = group_db0\<lparr>groups := [new_group 10 0 group_body], group_members := [new_member 11 0 10 1 OWNER],
    audit_logs := [(audit_row 12 0 (Some 1) (Some ''soldier'') (audit_value GROUP_CREATED) True)
      \<lparr>resource_type := Some ''group'', resource_id := Some (uuid_str 10)\<rparr>]\<rparr>"
  by (simp add: group_demo)

lemma group_db2_eq: "group_db2 = group_db1\<lparr>join_requests := [\<lparr>jr_id = 20, jr_created_at = 0, jr_group_id = 10, jr_user_id = 2,
    jr_status = ''pending'', jr_message = None, decided_by_id = None, decided_at = None\<rparr>]\<rparr>"
  unfolding group_db2_def group_db1_eq by (simp add: group_demo)

lemma group_db2_reachable: "group_reachable group_db2"
proof -
  have "group_reachable group_db0" by (rule start) (simp_all add: group_demo)
  then have "group_reachable group_db1"
    by (rule step) (rule step_create, unfold group_db1_def, rule surjective_pairing)
  then show ?thesis
    by (rule step) (rule step_request, unfold group_db2_def, rule surjective_pairing)
qed

theorem membership_needs_approval_witness:
  "admitted group_db2 (new_member 11 0 10 1 OWNER) \<and> has_owner group_db2 (new_group 10 0 group_body)"
  using membership_needs_approval [OF group_db2_reachable] by (simp add: group_db2_eq group_db1_eq)

lemma pending_lookup:
  assumes "integrity d" and "req \<in> set (join_requests d)" and "jr_id req = rid" "jr_group_id req = gid" "jr_status req = st"
  shows "scalar (\<lambda>r. jr_id r = rid \<and> jr_group_id r = gid \<and> jr_status r = st) (join_requests d) = Some req"
    (is "scalar ?P _ = _")
proof (cases "scalar ?P (join_requests d)")
  case None
  from find_NoneD [OF None assms(2)] assms(3-5) show ?thesis by simp
next
  case (Some x)
  with find_SomeD [OF Some] unique_onD [OF integrity_keys(3) [OF assms(1)] _ assms(2), of x] assms(3) show ?thesis by simp
qed

text \<open>
  Deciding a request always works: in a reachable database an admin's decision on a
  pending request of the group is carried out, never failing on a constraint, and afterwards
  the requester is a member exactly when the request was approved.
\<close>

theorem decide_request_total:
  assumes "group_reachable d" and "require_admin_member d gid (u_id user) = Inr a"
    and "req \<in> set (join_requests d)" and "jr_id req = rid" "jr_group_id req = gid"
    and "jr_status req = join_status_value PENDING"
    and "mid \<notin> gm_id ` set (group_members d)" and "aid \<notin> a_id ` set (audit_logs d)"
  shows "\<exists>out d'. decide_request mid aid now gid rid approve user d = (Inr out, d') \<and>
    jo_status out = join_status_value (if approve then APPROVED else REJECTED) \<and>
    (membership d' gid (jr_user_id req) \<noteq> None \<longleftrightarrow> approve)"
proof -
  have inv: "group_inv d" and d: "integrity d"
    using group_reachable_inv [OF assms(1)] by (simp_all add: group_inv_def)
  note a = require_admin_Inr [OF assms(2)]
  have mem: "members_ok (map u_id (users d)) (map g_id (groups d)) (group_members d)"
    and rq: "requests_ok (map u_id (users d)) (map g_id (groups d)) (join_requests d)"
    using d by (simp_all add: integrity_def)
  have fk: "u_id user \<in> u_id ` set (users d)" "gid \<in> g_id ` set (groups d)" "jr_user_id req \<in> u_id ` set (users d)"
    using a mem rq assms(3) unfolding members_ok_def requests_ok_def set_map by (metis prod.inject)+
  have out: "request_key req \<notin> member_key ` set (group_members d)"
    using inv assms(3,6) unfolding group_inv_def pending_outside_def by blast
  note f = pending_lookup [OF d assms(3-6)]
  let ?r = "req\<lparr>jr_status := join_status_value (if approve then APPROVED else REJECTED),
    decided_by_id := Some (u_id user), decided_at := Some now\<rparr>"
  let ?m = "new_member mid now gid (jr_user_id req) MEMBER"
  have ok1: "integrity (set_request ?r d)"
    by (rule integrity_set_request [OF d assms(3)]) (simp_all add: fk(1))
  have "integrity (set_request ?r d\<lparr>group_members := group_members (set_request ?r d) @ [?m]\<rparr>)"
    by (rule integrity_add_member [OF ok1])
      (insert assms(5,7) fk out, simp_all only: set_request_sel new_member_sel, simp_all add: new_member_def)
  then have ok2: "actor_id au = Some (u_id user) \<Longrightarrow> a_id au = aid \<Longrightarrow>
      integrity (add_audit au (set_request ?r d\<lparr>group_members := group_members (set_request ?r d) @ [?m]\<rparr>))" for au
    by (rule integrity_add_audit) (insert assms(8) fk(1), simp_all)
  have no: "membership d gid (jr_user_id req) = None"
    using out assms(5) by (simp only: membership_None not_False_eq_True)
  then have yes: "membership (d\<lparr>group_members := group_members d @ [?m]\<rparr>) gid (jr_user_id req) \<noteq> None"
    by (simp add: membership_def find_append)
  show ?thesis
    using f assms(2) ok1 ok2 no yes
    by (cases approve)
      (simp_all add: decide_request_def Let_def commit_def JoinRequestOut_def audit_row_def membership_def)
qed

theorem decide_request_total_witness:
  "\<exists>out d'. decide_request 31 32 9 10 20 True founder group_db2 = (Inr out, d') \<and> membership d' 10 2 \<noteq> None"
proof -
  let ?req = "\<lparr>jr_id = 20, jr_created_at = 0, jr_group_id = 10, jr_user_id = 2,
    jr_status = ''pending'', jr_message = None, decided_by_id = None, decided_at = None\<rparr>"
  have a: "require_admin_member group_db2 10 (u_id founder) = Inr (new_member 11 0 10 1 OWNER)"
    by (simp add: require_admin_member_def membership_def group_db2_eq group_db1_eq founder_def can_manage_members_def
        role_rank_def GROUP_ROLE_RANK_def)
  have "?req \<in> set (join_requests group_db2)" by (simp add: group_db2_eq)
  from decide_request_total [OF group_db2_reachable a this, of 20 31 32 9 True] show ?thesis
    by (auto simp: group_db2_eq group_db1_eq group_db0_def empty_db_def new_member_def audit_row_def)
qed

text \<open>
  Posting rights: observers never post, and in an announcement group or one restricted
  to admins exactly the members of rank admin or owner do; elsewhere everybody else posts.
\<close>

theorem can_post_iff:
  "can_post m g \<longleftrightarrow> gm_role m \<noteq> ''observer'' \<and>
     (is_announcement_group g \<or> only_admins_can_post g \<longrightarrow> gm_role m \<in> {''admin'', ''owner''})"
  by (auto simp: can_post_def role_rank_def GROUP_ROLE_RANK_def)

theorem can_post_iff_witness:
  "can_post (new_member 1 0 1 1 OWNER) (new_group 1 0 group_body)"
  unfolding can_post_iff by (simp add: new_group_def group_body_def)

end
