(* ===== verification/Security.thy ===== *)
theory Security
  imports World
begin

text \<open>
  \<^verbatim>\<open>app/core/security.py\<close>, \<^verbatim>\<open>app/api/deps.py\<close> and the request schemas of
  \<^verbatim>\<open>app/api/schemas.py\<close>. SHA-256, bcrypt and the JWT library are parameters, the fields of
  \<open>crypto\<close>; \<open>crypto_laws\<close> is what the code relies on: a bcrypt hash verifies against the
  input it was made from, and a signed token decodes under the same key and algorithm to
  its claims until its expiry second has passed.
\<close>

section \<open>Cryptographic libraries\<close>

record crypto =
  sha256_hex :: "string \<Rightarrow> string"
  bcrypt_hashpw :: "string \<Rightarrow> string \<Rightarrow> string"
  bcrypt_checkpw :: "string \<Rightarrow> string \<Rightarrow> bool option"
  jwt_encode :: "payload \<Rightarrow> string \<Rightarrow> string \<Rightarrow> string"
  jwt_decode :: "string \<Rightarrow> string \<Rightarrow> string \<Rightarrow> instant \<Rightarrow> payload option"

definition hmac_algorithms :: "string list" where
  "hmac_algorithms = [''HS256'', ''HS384'', ''HS512'']"

text \<open>Claims as the program writes them: string subject and id, numeric times, distinct names.\<close>

definition claims_ok :: "payload \<Rightarrow> bool" where
  "claims_ok p \<longleftrightarrow> distinct (map fst p) \<and> jplain (JObj p) \<and>
     (\<exists>x. map_of p ''sub'' = Some (JStr x)) \<and> (\<exists>x. map_of p ''jti'' = Some (JStr x)) \<and>
     (\<exists>x. map_of p ''iat'' = Some (JInt x)) \<and> (\<exists>x. map_of p ''exp'' = Some (JInt x))"

definition crypto_laws :: "crypto \<Rightarrow> bool" where
  "crypto_laws C \<longleftrightarrow>
     (\<forall>pw salt. bcrypt_checkpw C pw (bcrypt_hashpw C pw salt) = Some True) \<and>
     (\<forall>p e alg key now. claims_ok p \<longrightarrow> map_of p ''exp'' = Some (JInt e) \<longrightarrow> alg \<in> set hmac_algorithms \<longrightarrow>
        jwt_decode C (jwt_encode C p key alg) key alg now = (if e < now div seconds 1 then None else Some p))"

section \<open>core/security.py\<close>

definition bcrypt_input :: "crypto \<Rightarrow> string \<Rightarrow> string" where
  "bcrypt_input C v = sha256_hex C v"

definition hash_password :: "crypto \<Rightarrow> string \<Rightarrow> string \<Rightarrow> string" where
  "hash_password C salt plain = bcrypt_hashpw C (bcrypt_input C plain) salt"

definition verify_password :: "crypto \<Rightarrow> string \<Rightarrow> string \<Rightarrow> bool" where
  "verify_password C plain hashed =
     (case bcrypt_checkpw C (bcrypt_input C plain) hashed of None \<Rightarrow> False | Some b \<Rightarrow> b)"

definition hash_military_id :: "crypto \<Rightarrow> string \<Rightarrow> string \<Rightarrow> string" where
  "hash_military_id C salt military_id = hash_password C salt (strip military_id)"

definition verify_military_id :: "crypto \<Rightarrow> string \<Rightarrow> string \<Rightarrow> bool" where
  "verify_military_id C military_id hashed = verify_password C (strip military_id) hashed"

definition hash_refresh_token :: "crypto \<Rightarrow> string \<Rightarrow> string" where
  "hash_refresh_token C token = sha256_hex C token"

text \<open>
  The JWT library writes \<^verbatim>\<open>datetime\<close> claims as whole seconds. \<open>extra_claims\<close> is a
  dictionary, empty when the caller gives none.
\<close>

definition create_access_token ::
  "crypto \<Rightarrow> settings \<Rightarrow> instant \<Rightarrow> string \<Rightarrow> uuid \<Rightarrow> int \<Rightarrow> string \<Rightarrow> payload \<Rightarrow> string" where
  "create_access_token C c now jti user_id version role extra_claims =
     (let claims = [(''sub'', JStr (uuid_str user_id)), (''ver'', JInt version), (''role'', JStr role),
                    (''iat'', JInt (now div seconds 1)),
                    (''exp'', JInt ((now + seconds (60 * ACCESS_TOKEN_EXPIRE_MINUTES c)) div seconds 1)),
                    (''jti'', JStr jti)]
      in jwt_encode C (foldl (\<lambda>d (k, v). jset k v d) claims extra_claims) (SECRET_KEY c) (TOKEN_ALGORITHM c))"

definition decode_access_token :: "crypto \<Rightarrow> settings \<Rightarrow> instant \<Rightarrow> string \<Rightarrow> payload option" where
  "decode_access_token C c now token = jwt_decode C token (SECRET_KEY c) (TOKEN_ALGORITHM c) now"

definition compute_device_fingerprint :: "crypto \<Rightarrow> string \<Rightarrow> string \<Rightarrow> string \<Rightarrow> string" where
  "compute_device_fingerprint C user_agent os_build screen =
     sha256_hex C (user_agent @ ''|'' @ os_build @ ''|'' @ screen)"

section \<open>api/deps.py\<close>

definition CREDENTIALS_ERROR :: error where
  "CREDENTIALS_ERROR = HTTPException 401 ''Invalid or expired credentials''"

text \<open>
  \<^verbatim>\<open>UUID(x)\<close> and \<^verbatim>\<open>int(x)\<close> on a decoded claim; \<open>ValueError\<close> is what the caller catches.
  Of floats, which the program never signs, only literals without an exponent are read.
\<close>

definition claim_uuid :: "json \<Rightarrow> uuid res" where
  "claim_uuid v = (case v of
     JStr s \<Rightarrow> (case uuid_parse s of Some u \<Rightarrow> Inr u | None \<Rightarrow> Inl (ValueError ''badly formed hexadecimal UUID string''))
   | JNull \<Rightarrow> Inl TypeError
   | _ \<Rightarrow> Inl AttributeError)"

definition claim_int :: "json \<Rightarrow> int res" where
  "claim_int v = (case v of
     JInt i \<Rightarrow> Inr i
   | JBool b \<Rightarrow> Inr (if b then 1 else 0)
   | JStr s \<Rightarrow> (case py_int 10 s of Some i \<Rightarrow> Inr i | None \<Rightarrow> Inl (ValueError ''invalid literal for int()''))
   | JFloat lit \<Rightarrow> (case py_int 10 (takeWhile (\<lambda>ch. ch \<noteq> CHR ''.'') lit) of
       Some i \<Rightarrow> Inr i | None \<Rightarrow> Inl (ValueError ''cannot convert float to integer''))
   | _ \<Rightarrow> Inl TypeError)"

definition credentials_guard :: "error \<Rightarrow> error" where
  "credentials_guard e = (case e of ValueError _ \<Rightarrow> CREDENTIALS_ERROR | _ \<Rightarrow> e)"

definition get_current_user ::
  "crypto \<Rightarrow> settings \<Rightarrow> instant \<Rightarrow> string option \<Rightarrow> db \<Rightarrow> user res" where
  "get_current_user C c now creds d =
     (case creds of None \<Rightarrow> Inl CREDENTIALS_ERROR
      | Some token \<Rightarrow> (case decode_access_token C c now token of None \<Rightarrow> Inl CREDENTIALS_ERROR
      | Some p \<Rightarrow> (case map_of p ''sub'' of None \<Rightarrow> Inl CREDENTIALS_ERROR
      | Some sub \<Rightarrow> (case claim_uuid sub of Inl e \<Rightarrow> Inl (credentials_guard e)
      | Inr user_id \<Rightarrow> (case map_of p ''ver'' of None \<Rightarrow> Inl CREDENTIALS_ERROR
      | Some ver \<Rightarrow> (case claim_int ver of Inl e \<Rightarrow> Inl (credentials_guard e)
      | Inr version \<Rightarrow> (case user_by_id d user_id of None \<Rightarrow> Inl CREDENTIALS_ERROR
      | Some user \<Rightarrow>
          if u_status user \<noteq> status_value ACTIVE then Inl CREDENTIALS_ERROR
          else if version \<noteq> token_version user then Inl CREDENTIALS_ERROR
          else Inr user)))))))"

section \<open>api/schemas.py\<close>

definition ascii_digit :: "char \<Rightarrow> bool" where
  "ascii_digit ch = (let n = (of_char ch :: nat) in 48 \<le> n \<and> n \<le> 57)"

definition e164 :: "string \<Rightarrow> bool" where
  "e164 v \<longleftrightarrow> (case v of p # d # ds \<Rightarrow>
     p = CHR ''+'' \<and> ascii_digit d \<and> d \<noteq> CHR ''0'' \<and> 7 \<le> length ds \<and> length ds \<le> 14 \<and> list_all ascii_digit ds
   | _ \<Rightarrow> False)"

text \<open>\<^verbatim>\<open>_PHONE_RE.match\<close>: the final \<^verbatim>\<open>$\<close> also matches before a trailing newline.\<close>

definition phone_re_match :: "string \<Rightarrow> bool" where
  "phone_re_match v \<longleftrightarrow> e164 v \<or> (v \<noteq> [] \<and> last v = CHR 10 \<and> e164 (butlast v))"

definition valid_phone :: "string \<Rightarrow> string res" where
  "valid_phone v =
     (let t = replace '' '' [] (strip v)
      in if phone_re_match t then Inr t else Inl (ValueError ''phone_number must be E.164, e.g. +201001234567''))"

record verify_in =
  vi_phone_number :: string
  vi_otp_code :: string
  vi_military_id :: string
  vi_device_fingerprint :: string

definition VerifyIn :: "verify_in \<Rightarrow> verify_in res" where
  "VerifyIn b =
     (case valid_phone (vi_phone_number b) of
        Inl _ \<Rightarrow> Inl (ValueError ''invalid phone number'')
      | Inr phone \<Rightarrow>
          if \<not> (length (vi_otp_code b) = 6 \<and> list_all ascii_digit (vi_otp_code b)) then Inl (ValueError ''otp_code'')
          else if \<not> (4 \<le> length (vi_military_id b) \<and> length (vi_military_id b) \<le> 40) then Inl (ValueError ''military_id'')
          else if \<not> (16 \<le> length (vi_device_fingerprint b) \<and> length (vi_device_fingerprint b) \<le> 128)
            then Inl (ValueError ''device_fingerprint'')
          else Inr (b\<lparr>vi_phone_number := phone\<rparr>))"

section \<open>Tokens\<close>

lemma token_round_trip:
  assumes "crypto_laws C" and "TOKEN_ALGORITHM c \<in> set hmac_algorithms"
  shows "decode_access_token C c now (create_access_token C c t jti u ver role []) =
    (if (t + seconds (60 * ACCESS_TOKEN_EXPIRE_MINUTES c)) div seconds 1 < now div seconds 1 then None
     else Some [(''sub'', JStr (uuid_str u)), (''ver'', JInt ver), (''role'', JStr role),
       (''iat'', JInt (t div seconds 1)),
       (''exp'', JInt ((t + seconds (60 * ACCESS_TOKEN_EXPIRE_MINUTES c)) div seconds 1)), (''jti'', JStr jti)])"
  using assms
  by (simp add: decode_access_token_def create_access_token_def crypto_laws_def claims_ok_def)

lemma credentials_guard_simps [simp]:
  "credentials_guard CREDENTIALS_ERROR = CREDENTIALS_ERROR" "credentials_guard (ValueError m) = CREDENTIALS_ERROR"
  by (simp_all add: credentials_guard_def CREDENTIALS_ERROR_def)

text \<open>A request is let in only for an active user whose current version the token carries.\<close>

lemma get_current_user_InrD:
  assumes "get_current_user C c now creds d = Inr u"
  obtains token p s v where "creds = Some token" "decode_access_token C c now token = Some p"
    "map_of p ''sub'' = Some s" "claim_uuid s = Inr (u_id u)" "map_of p ''ver'' = Some v"
    "claim_int v = Inr (token_version u)" "user_by_id d (u_id u) = Some u" "u_status u = status_value ACTIVE"
proof -
  from assms obtain token p s i v where "creds = Some token" "decode_access_token C c now token = Some p"
    "map_of p ''sub'' = Some s" "claim_uuid s = Inr i" "map_of p ''ver'' = Some v"
    "claim_int v = Inr (token_version u)" "user_by_id d i = Some u" "u_status u = status_value ACTIVE"
    by (auto simp: get_current_user_def split: option.splits sum.splits if_splits)
  moreover from this have "i = u_id u" by (auto dest: user_by_idD)
  ultimately show thesis using that by simp
qed

lemma get_current_user_token:
  assumes "crypto_laws C" and "TOKEN_ALGORITHM c \<in> set hmac_algorithms"
  shows "get_current_user C c now (Some (create_access_token C c t jti i ver role [])) d =
    (if (t + seconds (60 * ACCESS_TOKEN_EXPIRE_MINUTES c)) div seconds 1 < now div seconds 1 then Inl CREDENTIALS_ERROR
     else case user_by_id d i of None \<Rightarrow> Inl CREDENTIALS_ERROR
       | Some u \<Rightarrow> if u_status u = status_value ACTIVE \<and> ver = token_version u then Inr u else Inl CREDENTIALS_ERROR)"
  by (auto simp: get_current_user_def token_round_trip [OF assms] claim_uuid_def claim_int_def
      split: option.splits)

lemma verify_hash_military_id:
  "crypto_laws C \<Longrightarrow> strip a = strip b \<Longrightarrow> verify_military_id C a (hash_military_id C salt b)"
  by (simp add: verify_military_id_def hash_military_id_def verify_password_def hash_password_def crypto_laws_def)

text \<open>A library that satisfies the laws: tokens are the printed claims together with the key.\<close>

definition plain_crypto :: crypto where
  "plain_crypto = \<lparr>sha256_hex = id, bcrypt_hashpw = (\<lambda>pw salt. pw), bcrypt_checkpw = (\<lambda>pw h. Some (pw = h)),
     jwt_encode = (\<lambda>p key alg. dumps (JArr [JObj p, JStr key, JStr alg])),
     jwt_decode = (\<lambda>tok key alg now. case loads tok of
        Some (JArr [JObj p, JStr k, JStr a]) \<Rightarrow>
          (case map_of p ''exp'' of
             Some (JInt e) \<Rightarrow> if k = key \<and> a = alg \<and> now div seconds 1 \<le> e then Some p else None
           | _ \<Rightarrow> None)
      | _ \<Rightarrow> None)\<rparr>"

lemma plain_crypto_laws: "crypto_laws plain_crypto"
  by (auto simp: crypto_laws_def plain_crypto_def claims_ok_def loads_dumps simp del: dumps.simps)

section \<open>Phone numbers\<close>

lemma e164_last: "e164 v \<Longrightarrow> v \<noteq> [] \<and> last v \<noteq> CHR 10"
proof -
  have "\<not> ascii_digit CHR 10" by (simp add: ascii_digit_def)
  then show "e164 v \<Longrightarrow> ?thesis"
    by (auto simp: e164_def list_all_iff split: list.splits) (metis last_in_set)+
qed

lemma strip_last: "strip v \<noteq> [] \<Longrightarrow> \<not> is_space (last (strip v))"
  by (auto simp: strip_def strip_by_def last_rev hd_dropWhile)

lemma filter_last: "xs \<noteq> [] \<Longrightarrow> P (last xs) \<Longrightarrow> filter P xs \<noteq> [] \<and> last (filter P xs) = last xs"
  by (induction xs rule: rev_induct) auto

lemma valid_phone_e164: "valid_phone v = Inr t \<Longrightarrow> e164 t"
proof -
  assume v: "valid_phone v = Inr t"
  then have t: "t = filter (\<lambda>ch. ch \<noteq> CHR '' '') (strip v)" and m: "phone_re_match t"
    by (auto simp: valid_phone_def replace_single Let_def split: if_splits)
  have "t \<noteq> []" using m by (auto simp: phone_re_match_def e164_def)
  then have "strip v \<noteq> []" by (auto simp: t)
  then have "\<not> is_space (last (strip v))" by (rule strip_last)
  moreover have "is_space CHR '' ''" "is_space CHR 10" by (simp_all add: is_space_def)
  ultimately have "last t \<noteq> CHR 10"
    using filter_last [OF \<open>strip v \<noteq> []\<close>, of "\<lambda>ch. ch \<noteq> CHR '' ''"] t by metis
  with m show ?thesis by (simp add: phone_re_match_def)
qed

lemma e164_valid: "e164 t \<Longrightarrow> valid_phone t = Inr t"
proof -
  assume t: "e164 t"
  then obtain p ds where tp: "t = p # ds" "p = CHR ''+''" "ds \<noteq> []" "list_all ascii_digit ds"
    by (auto simp: e164_def split: list.splits)
  have sp: "\<not> is_space CHR ''+''" "\<And>ch. ascii_digit ch \<Longrightarrow> \<not> is_space ch" "\<not> ascii_digit CHR '' ''"
    by (auto simp: is_space_def ascii_digit_def Let_def)
  have "strip t = t"
    unfolding strip_def using tp sp by (intro strip_by_id) (auto simp: list_all_iff)
  moreover have "filter (\<lambda>ch. ch \<noteq> CHR '' '') t = t"
    using tp sp by (auto simp: filter_id_conv list_all_iff)
  ultimately show ?thesis using t by (simp add: valid_phone_def replace_single phone_re_match_def)
qed

end
