(* ===== verification/Ws_Manager.thy ===== *)
theory Ws_Manager
  imports World
begin

text \<open>
  \<^verbatim>\<open>app/services/ws_manager.py\<close>: the registry of WebSocket connections, local sockets
  plus the Redis state shared by the API replicas. The abstract specification of presence is
  the set of registered (user, connection) pairs; the refinement says that the Redis sets
  represent it after every sequence of registrations and unregistrations.
\<close>

section \<open>Model\<close>

definition CONN_TTL_SECONDS :: nat where
  "CONN_TTL_SECONDS = 90"

definition conn_key :: "string \<Rightarrow> string" where
  "conn_key cid = ''ws:conn:'' @ cid"

definition user_key :: "uuid \<Rightarrow> string" where
  "user_key user_id = ''ws:user:'' @ uuid_str user_id"

definition online_key :: string where
  "online_key = ''ws:online''"

text \<open>The manager of one process: its sockets by connection id, and the shared Redis state.\<close>

record ('s, 'k) manager =
  m_local :: "string \<rightharpoonup> 'k"
  m_redis :: 's

definition register :: "'s redis \<Rightarrow> instant \<Rightarrow> string \<Rightarrow> uuid \<Rightarrow> 'k \<Rightarrow> ('s, 'k) manager \<Rightarrow> string \<times> ('s, 'k) manager" where
  "register R now connection_id user_id websocket m =
     (let doc = dumps (JObj [(''user_id'', JStr (uuid_str user_id)), (''connected_at'', JStr (isoformat now))]);
          s1 = r_set R (conn_key connection_id) doc (Some CONN_TTL_SECONDS) (m_redis m);
          s2 = r_sadd R (user_key user_id) connection_id s1;
          s3 = r_sadd R online_key (uuid_str user_id) s2
      in (connection_id, m\<lparr>m_local := (m_local m)(connection_id \<mapsto> websocket), m_redis := s3\<rparr>))"

definition heartbeat :: "'s redis \<Rightarrow> string \<Rightarrow> 's \<Rightarrow> 's" where
  "heartbeat R connection_id s = r_expire R (conn_key connection_id) CONN_TTL_SECONDS s"

text \<open>
  Unregistering is a pipeline followed by two separate commands; the three pieces are named
  because other requests can run between them.
\<close>

definition unregister_pipe :: "'s redis \<Rightarrow> uuid \<Rightarrow> string \<Rightarrow> 's \<Rightarrow> 's" where
  "unregister_pipe R user_id connection_id s =
     r_srem R (user_key user_id) connection_id (r_delete R (conn_key connection_id) s)"

definition remaining :: "'s redis \<Rightarrow> uuid \<Rightarrow> 's \<Rightarrow> nat" where
  "remaining R user_id s = r_scard R (user_key user_id) s"

definition go_offline :: "'s redis \<Rightarrow> uuid \<Rightarrow> 's \<Rightarrow> 's" where
  "go_offline R user_id s = r_srem R online_key (uuid_str user_id) s"

definition unregister :: "'s redis \<Rightarrow> uuid \<Rightarrow> string \<Rightarrow> ('s, 'k) manager \<Rightarrow> ('s, 'k) manager" where
  "unregister R user_id connection_id m =
     (let s1 = unregister_pipe R user_id connection_id (m_redis m);
          s2 = (if remaining R user_id s1 = 0 then go_offline R user_id s1 else s1)
      in m\<lparr>m_local := (m_local m)(connection_id := None), m_redis := s2\<rparr>)"

definition online_count :: "'s redis \<Rightarrow> 's \<Rightarrow> nat" where
  "online_count R s = r_scard R online_key s"

definition is_user_online :: "'s redis \<Rightarrow> uuid \<Rightarrow> 's \<Rightarrow> bool" where
  "is_user_online R user_id s = r_sismember R online_key (uuid_str user_id) s"

text \<open>Sending to a local socket: the socket that receives the payload, if this process holds it.\<close>

definition send_local :: "string \<Rightarrow> payload \<Rightarrow> ('s, 'k) manager \<Rightarrow> ('k \<times> payload) option" where
  "send_local connection_id p m = map_option (\<lambda>ws. (ws, p)) (m_local m connection_id)"

text \<open>
  One message of the alert channel in \<^verbatim>\<open>listen_ocr_alerts\<close>: the connections of this process
  that receive the alert. A text that is not JSON, or not an object, is logged and dropped.
\<close>

definition ocr_alert :: "'s redis \<Rightarrow> string \<Rightarrow> ('s, 'k) manager \<Rightarrow> (string fset \<times> payload) option" where
  "ocr_alert R data m =
     (case loads data of
        Some (JObj p) \<Rightarrow>
          if \<not> (truthy (jget p ''file_id'') \<and> truthy (jget p ''user_id'') \<and> truthy (jget p ''keyword'')) then None
          else
            Some (ffilter (\<lambda>c. m_local m c \<noteq> None) (r_smembers R (''ws:user:'' @ py_str (jget p ''user_id'')) (m_redis m)),
              [(''type'', JStr ''ocr_alert''), (''file_id'', jget p ''file_id''), (''keyword'', jget p ''keyword'')])
      | _ \<Rightarrow> None)"

section \<open>Presence\<close>

lemma ws_keys [key_simps]:
  "conn_key c = conn_key e \<longleftrightarrow> c = e" "user_key u = user_key v \<longleftrightarrow> u = v" "conn_key c \<noteq> user_key u" "user_key u \<noteq> conn_key c"
  "conn_key c \<noteq> online_key" "online_key \<noteq> conn_key c" "user_key u \<noteq> online_key" "online_key \<noteq> user_key u"
  by (simp_all add: conn_key_def user_key_def online_key_def)

text \<open>The abstract state and its representation in Redis.\<close>

type_synonym presence = "(uuid \<times> string) fset"

definition conns_of :: "uuid \<Rightarrow> presence \<Rightarrow> string fset" where
  "conns_of u P = snd |`| ffilter (\<lambda>(v, c). v = u) P"

definition online_of :: "presence \<Rightarrow> string fset" where
  "online_of P = (uuid_str \<circ> fst) |`| P"

definition represents :: "('s \<Rightarrow> string \<Rightarrow> string option) \<Rightarrow> ('s \<Rightarrow> string \<Rightarrow> string fset) \<Rightarrow> presence \<Rightarrow> 's \<Rightarrow> bool" where
  "represents strs members P s \<longleftrightarrow>
     (\<forall>c. members s (conn_key c) = {||}) \<and> strs s online_key = None \<and> members s online_key = online_of P \<and>
     (\<forall>u. strs s (user_key u) = None \<and> members s (user_key u) = conns_of u P)"

lemma in_conns_of [simp]: "c |\<in>| conns_of u P \<longleftrightarrow> (u, c) |\<in>| P"
  by (force simp: conns_of_def)

lemma in_online_of [simp]: "uuid_str u |\<in>| online_of P \<longleftrightarrow> (\<exists>c. (u, c) |\<in>| P)"
  by (force simp: online_of_def)

lemma online_of_iff: "x |\<in>| online_of P \<longleftrightarrow> (\<exists>u c. x = uuid_str u \<and> (u, c) |\<in>| P)"
  by (force simp: online_of_def)

lemma fcard_inj: "inj f \<Longrightarrow> fcard (f |`| A) = fcard A"
  by (simp add: fcard.rep_eq fimage.rep_eq card_image inj_on_subset)

lemma presence_empty [simp]: "conns_of u {||} = {||}" "online_of {||} = {||}"
  by (intro fset_eqI, simp, simp add: online_of_def)

lemma conns_of_insert: "conns_of u (finsert (v, c) P) = (if u = v then finsert c (conns_of u P) else conns_of u P)"
  by (intro fset_eqI) auto

lemma conns_of_remove: "conns_of u (P |-| {|(v, c)|}) = (if u = v then conns_of u P |-| {|c|} else conns_of u P)"
  by (intro fset_eqI) auto

lemma online_of_insert: "online_of (finsert (v, c) P) = finsert (uuid_str v) (online_of P)"
  by (simp add: online_of_def)

lemma online_of_remove:
  "online_of (P |-| {|(v, c)|}) = (if conns_of v P |-| {|c|} = {||} then online_of P |-| {|uuid_str v|} else online_of P)"
proof (intro fset_eqI iffI)
  fix x
  assume "x |\<in>| online_of (P |-| {|(v, c)|})"
  then obtain u e where x: "x = uuid_str u" and e: "(u, e) |\<in>| P" "(u, e) \<noteq> (v, c)"
    unfolding online_of_iff by blast
  have "u \<noteq> v" if "conns_of v P |-| {|c|} = {||}"
  proof
    assume "u = v"
    then have "e |\<in>| conns_of v P |-| {|c|}" using e by auto
    with that show False by (metis fempty_iff)
  qed
  with x e show "x |\<in>| (if conns_of v P |-| {|c|} = {||} then online_of P |-| {|uuid_str v|} else online_of P)" by auto
next
  fix x
  assume x: "x |\<in>| (if conns_of v P |-| {|c|} = {||} then online_of P |-| {|uuid_str v|} else online_of P)"
  then obtain u e where u: "x = uuid_str u" "(u, e) |\<in>| P" by (auto simp: online_of_iff split: if_splits)
  show "x |\<in>| online_of (P |-| {|(v, c)|})"
  proof (cases "u = v")
    case True
    with x u have "conns_of v P |-| {|c|} \<noteq> {||}" by auto
    then obtain f where "f |\<in>| conns_of v P |-| {|c|}" by blast
    with True u(1) show ?thesis by auto
  qed (use u in auto)
qed

context redis_values
begin

lemma represents_register:
  assumes "represents strs members P (m_redis m)"
  shows "represents strs members (finsert (u, c) P) (m_redis (snd (register R now c u ws m)))"
  using assms
  by (simp add: represents_def register_def Let_def value_laws key_simps conns_of_insert online_of_insert)

lemma represents_unregister:
  assumes "represents strs members P (m_redis m)"
  shows "represents strs members (P |-| {|(u, c)|}) (m_redis (unregister R u c m))"
proof -
  define s1 where "s1 = unregister_pipe R u c (m_redis m)"
  have s1: "members s1 (user_key v) = conns_of v (P |-| {|(u, c)|})" "strs s1 (user_key v) = None"
    "members s1 online_key = online_of P" "strs s1 online_key = None" "members s1 (conn_key e) = {||}" for v e
    using assms by (simp_all add: s1_def unregister_pipe_def represents_def value_laws key_simps conns_of_remove)
  have "remaining R u s1 = 0 \<longleftrightarrow> conns_of u P |-| {|c|} = {||}"
    using s1 by (simp add: remaining_def value_laws conns_of_remove)
  then show ?thesis
    using s1
    by (simp add: unregister_def Let_def s1_def [symmetric] represents_def go_offline_def value_laws key_simps online_of_remove)
qed

lemma represents_heartbeat:
  "represents strs members P s \<Longrightarrow> represents strs members P (heartbeat R c s)"
  by (simp add: represents_def heartbeat_def value_laws CONN_TTL_SECONDS_def)

lemma represents_online:
  assumes "represents strs members P s"
  shows "is_user_online R u s \<longleftrightarrow> (\<exists>c. (u, c) |\<in>| P)" and "online_count R s = fcard (fst |`| P)"
proof -
  show "is_user_online R u s \<longleftrightarrow> (\<exists>c. (u, c) |\<in>| P)"
    using assms by (simp add: represents_def is_user_online_def value_laws)
  have "online_of P = uuid_str |`| (fst |`| P)" by (simp add: online_of_def fimage_fimage)
  moreover have "inj uuid_str" by (simp add: inj_def)
  ultimately have "fcard (online_of P) = fcard (fst |`| P)" by (metis fcard_inj)
  then show "online_count R s = fcard (fst |`| P)"
    using assms by (simp add: represents_def online_count_def value_laws)
qed

end

section \<open>Sequences of connections\<close>

datatype ws_event = Connect uuid string instant | Disconnect uuid string | Beat string

fun ws_run :: "'s redis \<Rightarrow> ws_event list \<Rightarrow> ('s, unit) manager \<Rightarrow> ('s, unit) manager" where
  "ws_run R [] m = m"
| "ws_run R (Connect u c now # es) m = ws_run R es (snd (register R now c u () m))"
| "ws_run R (Disconnect u c # es) m = ws_run R es (unregister R u c m)"
| "ws_run R (Beat c # es) m = ws_run R es (m\<lparr>m_redis := heartbeat R c (m_redis m)\<rparr>)"

text \<open>The specification: the pairs that are registered and not yet unregistered.\<close>

fun connected :: "ws_event list \<Rightarrow> presence \<Rightarrow> presence" where
  "connected [] P = P"
| "connected (Connect u c now # es) P = connected es (finsert (u, c) P)"
| "connected (Disconnect u c # es) P = connected es (P |-| {|(u, c)|})"
| "connected (Beat c # es) P = connected es P"

context redis_values
begin

lemma represents_run:
  "represents strs members P (m_redis m) \<Longrightarrow> represents strs members (connected es P) (m_redis (ws_run R es m))"
proof (induction es arbitrary: P m)
  case (Cons e es)
  then show ?case
    by (cases e) (simp_all add: represents_register represents_unregister represents_heartbeat)
qed simp

end

section \<open>Properties\<close>

text \<open>
  C14. Presence refines its specification: after any sequence of connections,
  disconnections and heartbeats, a user is reported online exactly when one of the user's
  devices is still connected, and the online count is the number of such users.
\<close>

theorem presence_refines:
  assumes "redis_values R strs members" and "represents strs members P (m_redis m)"
  shows "(is_user_online R u (m_redis (ws_run R es m)) \<longleftrightarrow> (\<exists>c. (u, c) |\<in>| connected es P)) \<and>
    online_count R (m_redis (ws_run R es m)) = fcard (fst |`| connected es P)"
  using redis_values.represents_online [OF assms(1) redis_values.represents_run [OF assms]] by blast

definition idle_manager :: "(fake_state, unit) manager" where
  "idle_manager = \<lparr>m_local = Map.empty, m_redis = \<lparr>f_store = Map.empty, f_sets = Map.empty\<rparr>\<rparr>"

lemma idle_represents: "represents f_store fake_members {||} (m_redis idle_manager)"
  by (simp add: represents_def idle_manager_def fake_members_def)

theorem presence_refines_witness:
  "is_user_online fake_redis 5
     (m_redis (ws_run fake_redis [Connect 5 ''a'' 0, Connect 5 ''b'' 1, Disconnect 5 ''a''] idle_manager)) \<and>
   online_count fake_redis
     (m_redis (ws_run fake_redis [Connect 5 ''a'' 0, Connect 5 ''b'' 1, Disconnect 5 ''a''] idle_manager)) = 1"
proof -
  have "connected [Connect 5 ''a'' 0, Connect 5 ''b'' 1, Disconnect 5 ''a''] {||} = {|(5, ''b'')|}"
    by (simp, intro fset_eqI) auto
  with presence_refines [OF fake.redis_values_axioms idle_represents, of 5
      "[Connect 5 ''a'' 0, Connect 5 ''b'' 1, Disconnect 5 ''a'']"]
  show ?thesis by (simp only:) (simp add: fcard.rep_eq)
qed

text \<open>
  C15. Unregistering is not atomic: when a second device of a user registers between the
  moment the last connection of the user is seen to be gone and the removal from the online
  set, the user ends up offline with a registered connection.
\<close>

theorem unregister_race:
  assumes "redis_values R strs members" and "represents strs members {|(u, c)|} s"
    and "s1 = unregister_pipe R u c s" and "c \<noteq> e"
    and "s2 = m_redis (snd (register R now e u ws \<lparr>m_local = l, m_redis = s1\<rparr>))" and "s3 = go_offline R u s2"
  shows "remaining R u s1 = 0 \<and> members s3 (user_key u) = {|e|} \<and> \<not> is_user_online R u s3"
proof -
  note L = redis_values.value_laws [OF assms(1)]
  have s1: "members s1 (user_key u) = {||}" "strs s1 (user_key u) = None" "members s1 (conn_key x) = {||}"
    "strs s1 online_key = None" for x
    using assms(2) by (simp_all add: assms(3) unregister_pipe_def represents_def L key_simps conns_of_insert)
  have s2: "members s2 (user_key u) = {|e|}" "strs s2 online_key = None"
    using s1 by (simp_all add: assms(5) register_def Let_def L key_simps)
  then show ?thesis
    using s1 by (simp add: assms(6) remaining_def go_offline_def is_user_online_def L key_simps)
qed

theorem unregister_race_witness:
  "let s0 = m_redis (snd (register fake_redis 0 ''a'' 5 () idle_manager));
       s1 = unregister_pipe fake_redis 5 ''a'' s0;
       s2 = m_redis (snd (register fake_redis 1 ''b'' 5 () \<lparr>m_local = Map.empty, m_redis = s1\<rparr>))
   in \<not> is_user_online fake_redis 5 (go_offline fake_redis 5 s2)"
proof -
  have r: "represents f_store fake_members {|(5, ''a'')|} (m_redis (snd (register fake_redis 0 ''a'' 5 () idle_manager)))"
    using fake.represents_register [OF idle_represents] .
  show ?thesis
    using unregister_race [OF fake.redis_values_axioms r refl _ refl refl, of "''b''" 1 "()" Map.empty]
    by (simp add: Let_def)
qed

end
