(* ===== verification/Push.thy ===== *)
theory Push
  imports World
begin

text \<open>
  \<^verbatim>\<open>app/services/push_service.py\<close>. The Firebase SDK is a parameter: whether initialising it
  from a credentials file works, whether a message can be sent, and how many tokens of a
  multicast succeed, \<open>None\<close> for a call that raises. The two module globals and the messages handed to the SDK are state.
\<close>

record fcm_message =
  fcm_tokens :: "string list"
  fcm_title :: string
  fcm_body :: string
  fcm_data :: "(string \<times> string) list"
  fcm_priority :: string

record firebase =
  fb_init :: "string \<Rightarrow> bool"
  fb_send :: "fcm_message \<Rightarrow> bool"
  fb_multicast :: "fcm_message \<Rightarrow> nat option"

record push_state =
  p_initialized :: bool
  p_available :: bool
  p_sent :: "fcm_message list"

definition ensure_init :: "firebase \<Rightarrow> settings \<Rightarrow> push_state \<Rightarrow> bool \<times> push_state" where
  "ensure_init F c st =
     (if p_initialized st then (p_available st, st)
      else
        let st1 = st\<lparr>p_initialized := True\<rparr>
        in if FIREBASE_CREDENTIALS_FILE c = [] then (False, st1)
           else let ok = fb_init F (FIREBASE_CREDENTIALS_FILE c) in (ok, st1\<lparr>p_available := ok\<rparr>))"

definition send_message_push ::
  "firebase \<Rightarrow> settings \<Rightarrow> string \<Rightarrow> string \<Rightarrow> string \<Rightarrow> string \<Rightarrow> (push_state, unit) handler" where
  "send_message_push F c token sender_name preview peer_id st =
     (case ensure_init F c st of
        (False, st1) \<Rightarrow> (Inr (), st1)
      | (True, st1) \<Rightarrow>
          let msg = \<lparr>fcm_tokens = [token], fcm_title = sender_name, fcm_body = take 80 preview,
                     fcm_data = [(''kind'', ''dm''), (''peer_id'', peer_id)], fcm_priority = ''high''\<rparr>
          in if fb_send F msg then (Inr (), st1\<lparr>p_sent := p_sent st1 @ [msg]\<rparr>) else (Inl FirebaseError, st1))"

text \<open>The slices \<^verbatim>\<open>tokens[i:i + n]\<close> for \<^verbatim>\<open>i in range(0, len(tokens), n)\<close>.\<close>

function batches :: "nat \<Rightarrow> 'a list \<Rightarrow> 'a list list" where
  "batches n xs = (if n = 0 \<or> xs = [] then [] else take n xs # batches n (drop n xs))"
  by pat_completeness auto
termination by (relation "measure (\<lambda>(n, xs). length xs)") auto

declare batches.simps [simp del]

text \<open>The loop over the batches: a call that raises ends it, and the batches sent before it stay sent.\<close>

fun send_multicasts :: "firebase \<Rightarrow> fcm_message list \<Rightarrow> (push_state, nat) handler" where
  "send_multicasts F [] st = (Inr 0, st)"
| "send_multicasts F (msg # msgs) st =
     (case fb_multicast F msg of
        None \<Rightarrow> (Inl FirebaseError, st)
      | Some n \<Rightarrow>
          (case send_multicasts F msgs (st\<lparr>p_sent := p_sent st @ [msg]\<rparr>) of
             (Inl e, st1) \<Rightarrow> (Inl e, st1)
           | (Inr delivered, st1) \<Rightarrow> (Inr (n + delivered), st1)))"

definition send_broadcast_push ::
  "firebase \<Rightarrow> settings \<Rightarrow> string list \<Rightarrow> string \<Rightarrow> string \<Rightarrow> string \<Rightarrow> (push_state, nat) handler" where
  "send_broadcast_push F c tokens title body broadcast_id st =
     (case ensure_init F c st of
        (False, st1) \<Rightarrow> (Inr 0, st1)
      | (True, st1) \<Rightarrow>
          if tokens = [] then (Inr 0, st1)
          else
            send_multicasts F (map (\<lambda>b. \<lparr>fcm_tokens = b, fcm_title = title, fcm_body = take 120 body,
                        fcm_data = [(''kind'', ''broadcast''), (''broadcast_id'', broadcast_id)],
                        fcm_priority = ''high''\<rparr>) (batches 500 tokens)) st1)"

section \<open>Batching\<close>

lemma concat_batches: "0 < n \<Longrightarrow> concat (batches n xs) = xs"
proof (induction n xs rule: batches.induct)
  case (1 n xs)
  then show ?case by (subst batches.simps) simp
qed

lemma batches_size: "b \<in> set (batches n xs) \<Longrightarrow> length b \<le> n"
proof (induction n xs rule: batches.induct)
  case (1 n xs)
  show ?case
  proof (cases "n = 0 \<or> xs = []")
    case True
    with 1(2) batches.simps [of n xs] show ?thesis by simp
  next
    case False
    then have "b = take n xs \<or> b \<in> set (batches n (drop n xs))" using 1(2) batches.simps [of n xs] by simp
    with 1(1) False show ?thesis by auto
  qed
qed

lemma send_multicasts_sent:
  "send_multicasts F msgs st = (r, st') \<Longrightarrow>
     \<exists>sent rest. msgs = sent @ rest \<and> p_sent st' = p_sent st @ sent \<and> (r \<noteq> Inl FirebaseError \<longrightarrow> rest = [])"
proof (induction F msgs st arbitrary: r st' rule: send_multicasts.induct)
  case (2 F msg msgs st)
  show ?case
  proof (cases "fb_multicast F msg")
    case None
    with 2(2) show ?thesis by auto
  next
    case (Some n)
    obtain r1 st1 where t: "send_multicasts F msgs (st\<lparr>p_sent := p_sent st @ [msg]\<rparr>) = (r1, st1)" by fastforce
    from 2(1) [OF Some t] obtain sent rest where
      "msgs = sent @ rest" "p_sent st1 = p_sent st @ [msg] @ sent" "r1 \<noteq> Inl FirebaseError \<longrightarrow> rest = []" by auto
    with 2(2) Some t show ?thesis
      by (intro exI [of _ "msg # sent"] exI [of _ rest]) (auto split: sum.splits)
  qed
qed simp

section \<open>Properties\<close>

text \<open>
  A broadcast reaches every registered device once: the multicasts handed to the SDK
  hold at most 500 tokens each, the limit of the service, and together they are the token
  list, in order and without loss or repetition. When a call of the SDK raises, they are a beginning of
  that list.
\<close>

theorem broadcast_push_covers:
  assumes "send_broadcast_push F c tokens title body bid st = (r, st')" and "fst (ensure_init F c st)"
    and "p_sent st = []"
  shows "(\<forall>m\<in>set (p_sent st'). length (fcm_tokens m) \<le> 500) \<and>
    (\<exists>rest. concat (map fcm_tokens (p_sent st')) @ rest = tokens \<and> (r \<noteq> Inl FirebaseError \<longrightarrow> rest = []))"
proof (cases "tokens = []")
  case True
  with assms show ?thesis by (auto simp: send_broadcast_push_def ensure_init_def Let_def split: if_splits prod.splits bool.splits)
next
  case False
  obtain st1 where e: "ensure_init F c st = (True, st1)" "p_sent st1 = []"
    using assms(2,3) by (cases "ensure_init F c st") (auto simp: ensure_init_def Let_def split: if_splits)
  let ?msg = "\<lambda>b. \<lparr>fcm_tokens = b, fcm_title = title, fcm_body = take 120 body,
    fcm_data = [(''kind'', ''broadcast''), (''broadcast_id'', bid)], fcm_priority = ''high''\<rparr>"
  have "send_multicasts F (map ?msg (batches 500 tokens)) st1 = (r, st')"
    using assms(1) e(1) False by (simp add: send_broadcast_push_def)
  from send_multicasts_sent [OF this] e(2) obtain sent rest where
    s: "map ?msg (batches 500 tokens) = sent @ rest" "p_sent st' = sent" "r \<noteq> Inl FirebaseError \<longrightarrow> rest = []" by auto
  have "map fcm_tokens (sent @ rest) = batches 500 tokens" by (simp add: s(1) [symmetric] comp_def)
  then have b: "batches 500 tokens = map fcm_tokens sent @ map fcm_tokens rest" by simp
  then have "concat (map fcm_tokens sent) @ concat (map fcm_tokens rest) = tokens"
    using concat_batches [of 500 tokens] by simp
  moreover have "\<forall>m\<in>set sent. length (fcm_tokens m) \<le> 500"
    using batches_size [of _ 500 tokens] by (simp add: b)
  ultimately show ?thesis using s(2,3) by auto
qed

definition working_firebase :: firebase where
  "working_firebase = \<lparr>fb_init = (\<lambda>_. True), fb_send = (\<lambda>_. True), fb_multicast = (\<lambda>m. Some (length (fcm_tokens m)))\<rparr>"

theorem broadcast_push_covers_witness:
  "let st = \<lparr>p_initialized = False, p_available = False, p_sent = []\<rparr>;
       (r, st') = send_broadcast_push working_firebase (settings_defaults\<lparr>FIREBASE_CREDENTIALS_FILE := ''f''\<rparr>)
         (replicate 700 ''t'') ''T'' ''B'' ''i'' st
   in \<forall>m\<in>set (p_sent st'). length (fcm_tokens m) \<le> 500"
  using broadcast_push_covers [OF surjective_pairing, of working_firebase "settings_defaults\<lparr>FIREBASE_CREDENTIALS_FILE := ''f''\<rparr>"
      "\<lparr>p_initialized = False, p_available = False, p_sent = []\<rparr>" "replicate 700 ''t''" "''T''" "''B''" "''i''"]
  by (simp add: case_prod_beta Let_def ensure_init_def working_firebase_def)

end
