(* ===== verification/Admin.thy ===== *)
theory Admin
  imports Security Ws_Manager Push
begin

text \<open>
  \<^verbatim>\<open>app/api/routes/admin.py\<close> and \<^verbatim>\<open>app/api/routes/broadcasts.py\<close>: the administrators'
  view of the users, suspension and reactivation, statistics, urgent broadcasts, and the
  per-user acknowledgement of broadcasts.
\<close>

section \<open>Users\<close>

definition require_superadmin :: "user \<Rightarrow> user res" where
  "require_superadmin user =
     (if u_role user \<notin> {role_value ADMIN, role_value SUPERADMIN}
      then Inl (HTTPException 403 ''superadmin role required'') else Inr user)"

record admin_user_out =
  au_id :: uuid
  au_full_name :: string
  au_phone_number :: string
  au_department :: "string option"
  au_role :: string
  au_status :: string
  au_last_seen_at :: "instant option"
  au_created_at :: instant

definition AdminUserOut :: "user \<Rightarrow> admin_user_out" where
  "AdminUserOut u = \<lparr>au_id = u_id u, au_full_name = full_name u, au_phone_number = phone_number u,
     au_department = department u, au_role = u_role u, au_status = u_status u, au_last_seen_at = last_seen_at u,
     au_created_at = u_created_at u\<rparr>"

text \<open>\<^verbatim>\<open>LIKE\<close> with its wildcards and the backslash as escape character, and \<^verbatim>\<open>ILIKE\<close>.\<close>

fun like :: "string \<Rightarrow> string \<Rightarrow> bool" where
  "like [] s = (s = [])"
| "like (p # ps) [] = (p = CHR ''%'' \<and> like ps [])"
| "like (p # ps) (c # cs) =
     (if p = CHR ''%'' then like ps (c # cs) \<or> like (p # ps) cs
      else if p = CHR 92 then (case ps of [] \<Rightarrow> False | e # es \<Rightarrow> c = e \<and> like es cs)
      else (p = CHR ''_'' \<or> p = c) \<and> like ps cs)"

definition ilike :: "string \<Rightarrow> string \<Rightarrow> bool" where
  "ilike pattern s = like (lower pattern) (lower s)"

definition list_users ::
  "string option \<Rightarrow> string option \<Rightarrow> string option \<Rightarrow> int \<Rightarrow> nat \<Rightarrow> db \<Rightarrow> admin_user_out list res" where
  "list_users dept user_status q limit offset d =
     (let sel = scalars (\<lambda>u. (truthy_str dept \<longrightarrow> department u = dept) \<and>
                (truthy_str user_status \<longrightarrow> Some (u_status u) = user_status) \<and>
                (truthy_str q \<longrightarrow> ilike (''%'' @ the q @ ''%'') (full_name u) \<or> ilike (''%'' @ the q @ ''%'') (phone_number u)))
              (users d)
      in if limit < 0 then Inl DataError
         else Inr (map AdminUserOut (take (nat limit) (drop offset (rev (sort_key u_created_at sel))))))"

record set_status_in =
  ss_action :: string
  ss_reason :: string

definition SetStatusIn :: "set_status_in \<Rightarrow> set_status_in res" where
  "SetStatusIn b =
     (if ss_action b \<notin> {''suspend'', ''activate''} then Inl (ValueError ''action'')
      else if \<not> (5 \<le> length (ss_reason b) \<and> length (ss_reason b) \<le> 500) then Inl (ValueError ''reason'')
      else Inr b)"

definition set_user_status ::
  "uuid \<Rightarrow> instant \<Rightarrow> uuid \<Rightarrow> set_status_in \<Rightarrow> user \<Rightarrow> ('s world, admin_user_out) handler" where
  "set_user_status aid now user_id b admin w =
     (case user_by_id (w_db w) user_id of
        None \<Rightarrow> (Inl (HTTPException 404 ''user not found''), w)
      | Some target \<Rightarrow>
          if u_role target = role_value SUPERADMIN \<and> u_role admin \<noteq> role_value SUPERADMIN
          then (Inl (HTTPException 403 ''cannot modify a superadmin''), w)
          else
            let suspend = (ss_action b = ''suspend'');
                target' = (if suspend then target\<lparr>u_status := status_value SUSPENDED, token_version := token_version target + 1\<rparr>
                           else target\<lparr>u_status := status_value ACTIVE\<rparr>);
                act = (if suspend then USER_SUSPENDED else USER_REACTIVATED);
                w1 = (if suspend then publish (u_id target') [(''type'', JStr ''account_suspended'')] w else w);
                d2 = add_audit ((audit_row aid now (Some (u_id admin)) (Some (u_role admin)) (audit_value act) True)
                       \<lparr>resource_type := Some ''user'', resource_id := Some (uuid_str (u_id target')),
                        description := Some (ss_reason b)\<rparr>) (set_user target' (w_db w1))
            in commit_world w1 d2 (AdminUserOut target'))"

record stats_out =
  st_online_now :: nat
  st_total_users :: nat
  st_active_users :: nat
  st_suspended_users :: nat
  st_messages_today :: nat
  st_storage_used_bytes :: int

definition live_stats :: "'s redis \<Rightarrow> instant \<Rightarrow> 's world \<Rightarrow> stats_out" where
  "live_stats R now w =
     (let d = w_db w; today_start = utc_date now * seconds 86400
      in \<lparr>st_online_now = online_count R (w_sess w),
          st_total_users = length (users d),
          st_active_users = length (filter (\<lambda>u. u_status u = status_value ACTIVE) (users d)),
          st_suspended_users = length (filter (\<lambda>u. u_status u = status_value SUSPENDED) (users d)),
          st_messages_today = length (filter (\<lambda>m. today_start \<le> m_created_at m) (messages d)),
          st_storage_used_bytes = sum_list (map (\<lambda>m. case media_size_bytes m of None \<Rightarrow> 0 | Some n \<Rightarrow> n) (messages d))\<rparr>)"

section \<open>Broadcasts\<close>

record broadcast_in =
  bi_title :: string
  bi_body :: string
  bi_department :: "string option"

definition BroadcastIn :: "broadcast_in \<Rightarrow> broadcast_in res" where
  "BroadcastIn b =
     (if \<not> (2 \<le> length (bi_title b) \<and> length (bi_title b) \<le> 120) then Inl (ValueError ''title'')
      else if \<not> (2 \<le> length (bi_body b) \<and> length (bi_body b) \<le> 2000) then Inl (ValueError ''body'')
      else if (case bi_department b of None \<Rightarrow> False | Some s \<Rightarrow> 80 < length s) then Inl (ValueError ''department'')
      else Inr b)"

record broadcast_out =
  bo_id :: uuid
  bo_title :: string
  bo_target_users :: nat
  bo_push_delivered :: nat

definition new_broadcast :: "uuid \<Rightarrow> instant \<Rightarrow> broadcast_in \<Rightarrow> user \<Rightarrow> broadcast" where
  "new_broadcast bid now b admin = \<lparr>b_id = bid, b_created_at = now, b_title = bi_title b, b_body = bi_body b,
     b_department = bi_department b, b_priority = ''urgent'', created_by_id = Some (u_id admin), b_expires_at = None\<rparr>"

definition broadcast_targets :: "broadcast_in \<Rightarrow> db \<Rightarrow> user list" where
  "broadcast_targets b d = scalars (\<lambda>u. u_status u = status_value ACTIVE \<and>
     (truthy_str (bi_department b) \<longrightarrow> department u = bi_department b)) (users d)"

definition opt_str :: "string option \<Rightarrow> json" where
  "opt_str x = (case x of None \<Rightarrow> JNull | Some s \<Rightarrow> JStr s)"

definition send_broadcast ::
  "firebase \<Rightarrow> settings \<Rightarrow> uuid \<Rightarrow> uuid \<Rightarrow> instant \<Rightarrow> broadcast_in \<Rightarrow> user \<Rightarrow> ('s world \<times> push_state, broadcast_out) handler" where
  "send_broadcast F c bid aid now b admin = (\<lambda>(w, ps).
     let row = new_broadcast bid now b admin;
         d1 = (w_db w)\<lparr>broadcasts := broadcasts (w_db w) @ [row]\<rparr>;
         targets = broadcast_targets b d1;
         d2 = add_audit ((audit_row aid now (Some (u_id admin)) (Some (u_role admin)) ''admin.broadcast.sent'' True)
                \<lparr>resource_type := Some ''broadcast'', resource_id := Some (uuid_str bid),
                 metadata := Some [(''department'', opt_str (bi_department b)), (''targets'', JInt (int (length targets)))]\<rparr>) d1
     in case commit_world w d2 () of
          (Inl e, w1) \<Rightarrow> (Inl e, w1, ps)
        | (Inr _, w1) \<Rightarrow>
            let w2 = publish_broadcast [(''type'', JStr ''broadcast''), (''broadcast_id'', JStr (uuid_str bid)),
                       (''title'', JStr (bi_title b)), (''body'', JStr (bi_body b)), (''department'', opt_str (bi_department b))] w1;
                tokens = map (\<lambda>u. the (fcm_token u)) (filter (\<lambda>u. truthy_str (fcm_token u)) targets);
                (pushed, ps1) = send_broadcast_push F c tokens (bi_title b) (bi_body b) (uuid_str bid) ps
            in (case pushed of
                  Inl e \<Rightarrow> Inl e
                | Inr delivered \<Rightarrow>
                    Inr \<lparr>bo_id = bid, bo_title = bi_title b, bo_target_users = length targets, bo_push_delivered = delivered\<rparr>,
                w2, ps1))"

definition unacked_broadcasts :: "user \<Rightarrow> db \<Rightarrow> broadcast list" where
  "unacked_broadcasts user d =
     (let acked = map ba_broadcast_id (scalars (\<lambda>a. ba_user_id a = u_id user) (broadcast_acks d))
      in rev (sort_key b_created_at (scalars (\<lambda>b. b_id b \<notin> set acked \<and>
           (b_department b = None \<or> (b_department b \<noteq> None \<and> b_department b = department user))) (broadcasts d))))"

definition ack_broadcast :: "uuid \<Rightarrow> instant \<Rightarrow> uuid \<Rightarrow> user \<Rightarrow> (db, unit) handler" where
  "ack_broadcast kid now broadcast_id user d =
     (case scalar (\<lambda>b. b_id b = broadcast_id) (broadcasts d) of
        None \<Rightarrow> (Inl (HTTPException 404 ''broadcast not found''), d)
      | Some _ \<Rightarrow>
          (case scalar (\<lambda>a. ba_broadcast_id a = broadcast_id \<and> ba_user_id a = u_id user) (broadcast_acks d) of
             Some _ \<Rightarrow> (Inr (), d)
           | None \<Rightarrow> commit d (d\<lparr>broadcast_acks := broadcast_acks d @
               [\<lparr>ba_id = kid, ba_created_at = now, ba_broadcast_id = broadcast_id, ba_user_id = u_id user\<rparr>]\<rparr>) ()))"

definition register_fcm_token :: "string \<Rightarrow> user \<Rightarrow> (db, unit) handler" where
  "register_fcm_token token user d = commit d (set_user (user\<lparr>fcm_token := Some token\<rparr>) d) ()"

section \<open>Suspension\<close>

definition with_status :: "set_status_in \<Rightarrow> user \<Rightarrow> user" where
  "with_status b u = (if ss_action b = ''suspend''
     then u\<lparr>u_status := status_value SUSPENDED, token_version := token_version u + 1\<rparr>
     else u\<lparr>u_status := status_value ACTIVE\<rparr>)"

lemma with_status_sel [simp]: "u_id (with_status b u) = u_id u"
  by (simp add: with_status_def)

lemma set_user_status_Inr:
  assumes "set_user_status aid now uid b admin w = (Inr out, w')"
  obtains t where "user_by_id (w_db w) uid = Some t" and "\<not> (u_role t = role_value SUPERADMIN \<and> u_role admin \<noteq> role_value SUPERADMIN)"
    and "\<And>i. user_by_id (w_db w') i = (if i = uid then Some (with_status b t) else user_by_id (w_db w) i)"
    and "w_pub w' = w_pub w @ (if ss_action b = ''suspend'' then [(user_channel uid, [(''type'', JStr ''account_suspended'')])] else [])"
    and "integrity (w_db w')"
proof -
  from assms obtain t where t: "user_by_id (w_db w) uid = Some t"
    "\<not> (u_role t = role_value SUPERADMIN \<and> u_role admin \<noteq> role_value SUPERADMIN)"
    by (auto simp: set_user_status_def split: option.splits if_splits)
  have id: "u_id t = uid" using user_by_idD [OF t(1)] by simp
  from assms t(1,2) have "integrity (w_db w') \<and> users (w_db w') = users (set_user (with_status b t) (w_db w)) \<and>
      w_pub w' = w_pub w @ (if ss_action b = ''suspend'' then [(user_channel uid, [(''type'', JStr ''account_suspended'')])] else [])"
    by (auto simp: set_user_status_def Let_def with_status_def commit_world_def commit_def id split: if_splits)
  then show thesis
    using that [OF t] user_by_id_set_user [of "with_status b t" "w_db w"] t(1) id
    by (simp add: user_by_id_def)
qed

section \<open>Searching\<close>

definition plain_pattern :: "string \<Rightarrow> bool" where
  "plain_pattern q \<longleftrightarrow> set q \<inter> {CHR ''%'', CHR ''_'', CHR 92} = {}"

lemma like_any [simp]: "like ''%'' s"
  by (induction s) simp_all

lemma like_prefix: "plain_pattern q \<Longrightarrow> like (q @ ''%'') s \<longleftrightarrow> starts_with s q"
proof (induction q arbitrary: s)
  case Nil
  then show ?case by (simp add: starts_with_def)
next
  case (Cons c q)
  then show ?case by (cases s) (auto simp: plain_pattern_def starts_with_def)
qed

lemma like_substring: "plain_pattern q \<Longrightarrow> like (''%'' @ q @ ''%'') s \<longleftrightarrow> contains q s"
proof (induction s)
  case Nil
  then show ?case using like_prefix [of q "[]"] by (auto simp: starts_with_def)
next
  case (Cons c s)
  then show ?case using like_prefix [of q "c # s"] by auto
qed

lemma lower_char_plain: "lower_char c \<in> {CHR ''%'', CHR ''_'', CHR 92} \<Longrightarrow> c \<in> {CHR ''%'', CHR ''_'', CHR 92}"
proof -
  assume a: "lower_char c \<in> {CHR ''%'', CHR ''_'', CHR 92}"
  then have "(of_char (lower_char c) :: nat) \<in> {37, 95, 92}" by auto
  then have "lower_char c = c"
    by (auto simp: lower_char_def Let_def split: if_splits)
  with a show ?thesis by simp
qed

lemma plain_pattern_lower: "plain_pattern q \<Longrightarrow> plain_pattern (lower q)"
  using lower_char_plain unfolding plain_pattern_def lower_def by fastforce

lemma ilike_substring: "plain_pattern q \<Longrightarrow> ilike (''%'' @ q @ ''%'') s \<longleftrightarrow> contains (lower q) (lower s)"
proof -
  have "lower (''%'' @ q @ ''%'') = ''%'' @ lower q @ ''%''" by (simp add: lower_def lower_char_def)
  then show "plain_pattern q \<Longrightarrow> ?thesis"
    using like_substring [OF plain_pattern_lower, of q "lower s"] by (simp add: ilike_def)
qed

section \<open>Properties\<close>

text \<open>
  C16. Suspending a user locks the account at once: no token, whatever it contains, lets a
  request act as this user any more; the devices are told over Pub/Sub; and a later
  reactivation does not revive the tokens from before.
\<close>

theorem suspend_kills_tokens:
  assumes "set_user_status aid now uid b admin w = (Inr out, w')" and "ss_action b = ''suspend''"
    and "user_by_id (w_db w) uid = Some u"
  shows "(\<forall>C c t creds v. get_current_user C c t creds (w_db w') = Inr v \<longrightarrow> u_id v \<noteq> uid) \<and>
    (user_channel uid, [(''type'', JStr ''account_suspended'')]) \<in> set (w_pub w') \<and>
    (\<forall>aid2 now2 b2 admin2 out2 w2 C c t minted jti ver role.
       set_user_status aid2 now2 uid b2 admin2 w' = (Inr out2, w2) \<longrightarrow> ss_action b2 = ''activate'' \<longrightarrow>
       crypto_laws C \<longrightarrow> TOKEN_ALGORITHM c \<in> set hmac_algorithms \<longrightarrow> ver \<le> token_version u \<longrightarrow>
       get_current_user C c t (Some (create_access_token C c minted jti uid ver role [])) (w_db w2) = Inl CREDENTIALS_ERROR)"
proof -
  from assms(1) obtain u' where "user_by_id (w_db w) uid = Some u'"
    and by_id: "\<And>i. user_by_id (w_db w') i = (if i = uid then Some (with_status b u') else user_by_id (w_db w) i)"
    and pub: "w_pub w' = w_pub w @ (if ss_action b = ''suspend'' then [(user_channel uid, [(''type'', JStr ''account_suspended'')])] else [])"
    by (rule set_user_status_Inr) blast
  with assms(3) have now': "user_by_id (w_db w') uid = Some (with_status b u)" by simp
  have "u_id v \<noteq> uid" if "get_current_user C c t creds (w_db w') = Inr v" for C c t creds v
    using that by (rule get_current_user_InrD) (use now' assms(2) in \<open>auto simp: with_status_def\<close>)
  moreover have "get_current_user C c t (Some (create_access_token C c minted jti uid ver role [])) (w_db w2) = Inl CREDENTIALS_ERROR"
    if s2: "set_user_status aid2 now2 uid b2 admin2 w' = (Inr out2, w2)" and b2: "ss_action b2 = ''activate''"
      and C: "crypto_laws C" "TOKEN_ALGORITHM c \<in> set hmac_algorithms" and ver: "ver \<le> token_version u"
    for aid2 now2 b2 admin2 out2 w2 C c t minted jti ver role
  proof -
    from s2 obtain u2 where u2: "user_by_id (w_db w') uid = Some u2"
      and by_id2: "\<And>i. user_by_id (w_db w2) i = (if i = uid then Some (with_status b2 u2) else user_by_id (w_db w') i)"
      by (rule set_user_status_Inr) blast
    from by_id2 [of uid] u2 now' have "user_by_id (w_db w2) uid = Some (with_status b2 (with_status b u))" by simp
    with assms(2) b2 ver show ?thesis by (simp add: get_current_user_token [OF C] with_status_def)
  qed
  ultimately show ?thesis using pub assms(2) by auto
qed

definition officer :: user where
  "officer = \<lparr>u_id = 1, u_created_at = 0, phone_number = ''+1'', full_name = ''Ada'', username = None,
     department = None, fcm_token = None, hashed_military_id = [], hashed_password = [],
     device_fingerprint = None, token_version = 1, u_status = ''active'', u_role = ''admin'', expiry_date = None,
     last_seen_at = None, is_online = False, u_avatar_object_key = None, mfa_enabled = True\<rparr>"

definition recruit :: user where
  "recruit = officer\<lparr>u_id := 2, phone_number := ''+2'', full_name := ''Bob'', u_role := ''soldier''\<rparr>"

definition admin_world :: "unit world" where
  "admin_world = \<lparr>w_db = empty_db\<lparr>users := [officer, recruit]\<rparr>, w_otp = (), w_sess = (), w_pub = []\<rparr>"

theorem suspend_kills_tokens_witness:
  "\<exists>out w'. set_user_status 9 0 2 \<lparr>ss_action = ''suspend'', ss_reason = ''reason''\<rparr> officer admin_world = (Inr out, w') \<and>
     (\<forall>C c t creds v. get_current_user C c t creds (w_db w') = Inr v \<longrightarrow> u_id v \<noteq> 2)"
proof -
  let ?b = "\<lparr>ss_action = ''suspend'', ss_reason = ''reason''\<rparr>"
  have u: "user_by_id (w_db admin_world) 2 = Some recruit"
    by (simp add: user_by_id_def admin_world_def recruit_def officer_def)
  then have "\<exists>out. fst (set_user_status 9 0 2 ?b officer admin_world) = Inr out"
    by (simp add: set_user_status_def recruit_def officer_def)
      (simp add: admin_world_def empty_db_def recruit_def officer_def integrity_def users_ok_def sessions_ok_def
        messages_ok_def members_ok_def requests_ok_def broadcasts_ok_def acks_ok_def audit_ok_def unique_on_def
        set_user_def update_where_def audit_row_def Let_def)
  then obtain out w' where r: "set_user_status 9 0 2 ?b officer admin_world = (Inr out, w')"
    by (metis surjective_pairing)
  from suspend_kills_tokens [OF r _ u] r show ?thesis by auto
qed

text \<open>
  What a status change leaves alone: every other user keeps every column, and the row of
  a superadmin changes only at the hands of a superadmin.
\<close>

theorem status_change_frame:
  assumes "set_user_status aid now uid b admin w = (r, w')"
  shows "(\<forall>i. i \<noteq> uid \<longrightarrow> user_by_id (w_db w') i = user_by_id (w_db w) i) \<and>
    (\<forall>u. user_by_id (w_db w) uid = Some u \<and> u_role u = role_value SUPERADMIN \<and> u_role admin \<noteq> role_value SUPERADMIN \<longrightarrow>
       r = Inl (HTTPException 403 ''cannot modify a superadmin'') \<and> w' = w)"
proof (cases r)
  case (Inl e)
  then have "users (w_db w') = users (w_db w)"
    using assms by (auto simp: set_user_status_def Let_def commit_world_def commit_def split: option.splits if_splits)
  then have "\<forall>i. user_by_id (w_db w') i = user_by_id (w_db w) i" by (simp add: user_by_id_def)
  with assms show ?thesis by (auto simp: set_user_status_def)
next
  case (Inr out)
  with assms have "set_user_status aid now uid b admin w = (Inr out, w')" by simp
  then obtain t where "user_by_id (w_db w) uid = Some t"
    "\<not> (u_role t = role_value SUPERADMIN \<and> u_role admin \<noteq> role_value SUPERADMIN)"
    "\<And>i. user_by_id (w_db w') i = (if i = uid then Some (with_status b t) else user_by_id (w_db w) i)"
    by (rule set_user_status_Inr) blast
  then show ?thesis by (simp, blast)
qed

theorem status_change_frame_witness:
  "user_by_id (w_db (snd (set_user_status 9 0 2 \<lparr>ss_action = ''activate'', ss_reason = ''reason''\<rparr> officer admin_world))) 1 =
   user_by_id (w_db admin_world) 1"
  using status_change_frame [OF surjective_pairing, of 2 9 0 "\<lparr>ss_action = ''activate'', ss_reason = ''reason''\<rparr>" officer admin_world]
  by simp

text \<open>
  The search of the user list: a query without wildcard characters selects exactly the
  users whose name or number contains it, regardless of case.
\<close>

theorem user_search:
  assumes "plain_pattern q" and "q \<noteq> []" and "list_users None None (Some q) limit 0 d = Inr out"
    and "int (length (users d)) \<le> limit"
  shows "au_id ` set out = u_id ` {u \<in> set (users d). contains (lower q) (lower (full_name u)) \<or>
    contains (lower q) (lower (phone_number u))}"
proof -
  define sel where "sel = filter (\<lambda>u. contains (lower q) (lower (full_name u)) \<or> contains (lower q) (lower (phone_number u))) (users d)"
  have len: "length sel \<le> nat limit" using assms(4) length_filter_le [of _ "users d"] unfolding sel_def
    by (metis nat_le_iff nat_mono le_trans nat_int)
  have "out = map AdminUserOut (take (nat limit) (rev (sort_key u_created_at sel)))"
    using assms(2,3) ilike_substring [OF assms(1)]
    by (simp add: list_users_def truthy_str_def sel_def Let_def split: if_splits)
  also have "\<dots> = map AdminUserOut (rev (sort_key u_created_at sel))" using len by simp
  finally show ?thesis by (simp add: sel_def AdminUserOut_def image_image)
qed

theorem user_search_witness:
  "\<exists>out. list_users None None (Some ''BO'') 50 0 (w_db admin_world) = Inr out \<and> au_id ` set out = {2}"
proof -
  have p: "plain_pattern ''BO''" by (simp add: plain_pattern_def)
  obtain out where l: "list_users None None (Some ''BO'') 50 0 (w_db admin_world) = Inr out"
    by (simp add: list_users_def Let_def)
  have "{u \<in> set (users (w_db admin_world)). contains (lower ''BO'') (lower (full_name u)) \<or>
      contains (lower ''BO'') (lower (phone_number u))} = {recruit}"
  proof -
    have "contains (lower ''BO'') (lower ''Bob'')" "\<not> contains (lower ''BO'') (lower ''Ada'')"
      "\<not> contains (lower ''BO'') (lower ''+1'')" "\<not> contains (lower ''BO'') (lower ''+2'')" by code_simp+
    then show ?thesis by (auto simp: admin_world_def officer_def recruit_def)
  qed
  with user_search [OF p _ l] l show ?thesis
    by (auto simp: admin_world_def recruit_def)
qed

text \<open>
  C17. The banner of a broadcast that was answered: without a department it is unacknowledged for every user,
  with one for exactly the users of the same department, whatever their status. The target count is
  that of the active users of the department, and of all active users if there is none or it is empty: for
  an empty department the two differ.
\<close>

theorem broadcast_unacked:
  assumes "integrity (w_db w)" and "send_broadcast F c bid aid now b admin (w, ps) = (Inr out, w', ps')"
  shows "(bid \<in> b_id ` set (unacked_broadcasts user (w_db w')) \<longleftrightarrow>
      bi_department b = None \<or> bi_department b = department user) \<and>
    bo_target_users out = length (filter (\<lambda>u. u_status u = status_value ACTIVE \<and>
      (bi_department b \<notin> {None, Some []} \<longrightarrow> department u = bi_department b)) (users (w_db w)))"
proof -
  have eq: "integrity (w_db w')" "broadcasts (w_db w') = broadcasts (w_db w) @ [new_broadcast bid now b admin]"
    "broadcast_acks (w_db w') = broadcast_acks (w_db w)"
    "bo_target_users out = length (broadcast_targets b (w_db w))"
    using assms(2)
    by (auto simp: send_broadcast_def Let_def case_prod_beta commit_world_def commit_def broadcast_targets_def split: if_splits sum.splits)
  have "b_id (new_broadcast bid now b admin) = bid" by (simp add: new_broadcast_def)
  with eq(1,2) have fresh: "bid \<notin> b_id ` set (broadcasts (w_db w))"
    by (simp add: integrity_def broadcasts_ok_def)
  have "\<forall>a\<in>set (broadcast_acks (w_db w)). ba_broadcast_id a \<in> set (map b_id (broadcasts (w_db w)))"
    using assms(1) by (simp add: integrity_def acks_ok_def)
  with fresh have unacked: "bid \<notin> ba_broadcast_id ` A" if "A \<subseteq> set (broadcast_acks (w_db w))" for A
    using that by (metis imageE set_map subset_iff)
  have "x \<in> set (unacked_broadcasts user (w_db w')) \<and> b_id x = bid \<longleftrightarrow>
      x = new_broadcast bid now b admin \<and> (bi_department b = None \<or> bi_department b = department user)" for x
    using fresh unacked [of "set (filter (\<lambda>a. ba_user_id a = u_id user) (broadcast_acks (w_db w)))"]
    by (auto simp: unacked_broadcasts_def Let_def eq(2,3) new_broadcast_def)
  then have "bid \<in> b_id ` set (unacked_broadcasts user (w_db w')) \<longleftrightarrow>
      bi_department b = None \<or> bi_department b = department user" by (metis image_iff)
  moreover have "bo_target_users out = length (filter (\<lambda>u. u_status u = status_value ACTIVE \<and>
      (bi_department b \<notin> {None, Some []} \<longrightarrow> department u = bi_department b)) (users (w_db w)))"
    by (auto simp: eq(4) broadcast_targets_def truthy_str_def split: option.splits)
  ultimately show ?thesis by blast
qed

theorem broadcast_unacked_witness:
  "\<exists>out w' ps'. send_broadcast working_firebase settings_defaults 7 8 0 \<lparr>bi_title = ''T1'', bi_body = ''B1'', bi_department = None\<rparr>
       officer (admin_world, \<lparr>p_initialized = False, p_available = False, p_sent = []\<rparr>) = (Inr out, w', ps') \<and>
     7 \<in> b_id ` set (unacked_broadcasts recruit (w_db w'))"
proof -
  let ?b = "\<lparr>bi_title = ''T1'', bi_body = ''B1'', bi_department = None\<rparr>"
  let ?ps = "\<lparr>p_initialized = False, p_available = False, p_sent = []\<rparr>"
  have i: "integrity (w_db admin_world)"
    by (simp add: admin_world_def empty_db_def officer_def recruit_def integrity_def users_ok_def
        sessions_ok_def messages_ok_def members_ok_def requests_ok_def broadcasts_ok_def acks_ok_def audit_ok_def unique_on_def)
  then have "integrity (add_audit a ((w_db admin_world)\<lparr>broadcasts := broadcasts (w_db admin_world) @ [new_broadcast 7 0 ?b officer]\<rparr>))"
    if "actor_id a = Some (u_id officer)" for a
    using that by (simp add: integrity_def broadcasts_ok_def audit_ok_def acks_ok_def unique_on_def new_broadcast_def admin_world_def
        empty_db_def officer_def)
  moreover have "fst (send_broadcast_push F settings_defaults tokens t x i ?ps) = Inr 0" for F tokens t x i
    by (simp add: send_broadcast_push_def ensure_init_def settings_defaults_def)
  ultimately have "\<exists>out. fst (send_broadcast working_firebase settings_defaults 7 8 0 ?b officer (admin_world, ?ps)) = Inr out"
    by (simp add: send_broadcast_def Let_def case_prod_beta audit_row_def)
  then obtain out w' ps' where r: "send_broadcast working_firebase settings_defaults 7 8 0 ?b officer (admin_world, ?ps) = (Inr out, w', ps')"
    by (metis surjective_pairing)
  from broadcast_unacked [OF i r, of recruit] r show ?thesis by auto
qed

text \<open>
  C36. Acknowledging an existing broadcast, with a fresh id for the new row, succeeds and keeps the integrity of the database: it removes exactly this
  broadcast from exactly this user's banner and is idempotent, so a second tap, on any device,
  changes nothing.
\<close>

theorem ack_broadcast_once:
  assumes "integrity d" and "bid \<in> b_id ` set (broadcasts d)" and "u_id user \<in> u_id ` set (users d)"
    and "kid \<notin> ba_id ` set (broadcast_acks d)" and "ack_broadcast kid now bid user d = (r, d')"
  shows "r = Inr () \<and> integrity d' \<and>
    set (unacked_broadcasts user d') = {b \<in> set (unacked_broadcasts user d). b_id b \<noteq> bid} \<and>
    (u_id v \<noteq> u_id user \<longrightarrow> unacked_broadcasts v d' = unacked_broadcasts v d) \<and>
    ack_broadcast k t bid user d' = (Inr (), d')"
proof -
  obtain b where b: "scalar (\<lambda>b. b_id b = bid) (broadcasts d) = Some b"
    using assms(2) find_NoneD [of "\<lambda>b. b_id b = bid" "broadcasts d"] by (cases "scalar (\<lambda>b. b_id b = bid) (broadcasts d)") auto
  let ?P = "\<lambda>a. ba_broadcast_id a = bid \<and> ba_user_id a = u_id user"
  let ?row = "\<lparr>ba_id = kid, ba_created_at = now, ba_broadcast_id = bid, ba_user_id = u_id user\<rparr>"
  show ?thesis
  proof (cases "scalar ?P (broadcast_acks d)")
    case None
    have new: "integrity (d\<lparr>broadcast_acks := broadcast_acks d @ [?row]\<rparr>)"
      using assms(1-4) None by (auto simp: integrity_def acks_ok_def find_None_iff)
    have d': "r = Inr ()" "d' = d\<lparr>broadcast_acks := broadcast_acks d @ [?row]\<rparr>"
      using assms(5) b None new by (simp_all add: ack_broadcast_def commit_def)
    have "ack_broadcast k t bid user d' = (Inr (), d')"
      using b None by (simp add: ack_broadcast_def d' find_append)
    moreover have "set (unacked_broadcasts user d') = {b \<in> set (unacked_broadcasts user d). b_id b \<noteq> bid}"
      by (auto simp: unacked_broadcasts_def Let_def d')
    moreover have "u_id v \<noteq> u_id user \<longrightarrow> unacked_broadcasts v d' = unacked_broadcasts v d"
      by (simp add: unacked_broadcasts_def Let_def d')
    ultimately show ?thesis using new d' by simp
  next
    case (Some a)
    have d': "r = Inr ()" "d' = d" using assms(5) b Some by (simp_all add: ack_broadcast_def)
    have "bid \<in> ba_broadcast_id ` set (filter (\<lambda>a. ba_user_id a = u_id user) (broadcast_acks d))"
      using find_SomeD [OF Some] by force
    then have "b_id x \<noteq> bid" if "x \<in> set (unacked_broadcasts user d)" for x
      using that by (auto simp: unacked_broadcasts_def Let_def)
    then have "set (unacked_broadcasts user d) = {b \<in> set (unacked_broadcasts user d). b_id b \<noteq> bid}" by blast
    with assms(1) b Some d' show ?thesis by (simp add: ack_broadcast_def)
  qed
qed

definition banner_db :: db where
  "banner_db = (w_db admin_world)\<lparr>broadcasts := [new_broadcast 7 0 \<lparr>bi_title = ''T1'', bi_body = ''B1'', bi_department = None\<rparr> officer]\<rparr>"

theorem ack_broadcast_once_witness:
  "set (unacked_broadcasts recruit (snd (ack_broadcast 3 0 7 recruit banner_db))) = {} \<and>
   unacked_broadcasts officer (snd (ack_broadcast 3 0 7 recruit banner_db)) = unacked_broadcasts officer banner_db"
proof -
  have i: "integrity banner_db"
    by (simp add: banner_db_def admin_world_def empty_db_def officer_def recruit_def new_broadcast_def integrity_def users_ok_def
        sessions_ok_def messages_ok_def members_ok_def requests_ok_def broadcasts_ok_def acks_ok_def audit_ok_def unique_on_def)
  have h: "7 \<in> b_id ` set (broadcasts banner_db)" "u_id recruit \<in> u_id ` set (users banner_db)"
    "3 \<notin> ba_id ` set (broadcast_acks banner_db)" "u_id officer \<noteq> u_id recruit"
    by (simp_all add: banner_db_def admin_world_def empty_db_def new_broadcast_def recruit_def officer_def)
  have "\<forall>b\<in>set (unacked_broadcasts recruit banner_db). b_id b = 7"
    by (simp add: unacked_broadcasts_def Let_def banner_db_def admin_world_def empty_db_def new_broadcast_def)
  then have none: "{b \<in> set (unacked_broadcasts recruit banner_db). b_id b \<noteq> 7} = {}" by blast
  note a = ack_broadcast_once [OF i h(1-3) surjective_pairing, where v = officer and now = 0 and k = 4 and t = 0]
  have "set (unacked_broadcasts recruit (snd (ack_broadcast 3 0 7 recruit banner_db))) = {}"
    unfolding none [symmetric] using a by (elim conjE)
  moreover have "unacked_broadcasts officer (snd (ack_broadcast 3 0 7 recruit banner_db)) = unacked_broadcasts officer banner_db"
    using a h(4) by (elim conjE) (rule mp)
  ultimately show ?thesis by (rule conjI)
qed

end
