(* ===== verification/Otp_Service.thy ===== *)
theory Otp_Service
  imports Redis Config
begin

text \<open>
  \<^verbatim>\<open>app/services/otp_service.py\<close> with the generator and the comparison of
  \<^verbatim>\<open>app/core/security.py\<close>. The service keeps two Redis keys per user, the outstanding
  code and the number of submissions; the definitions take the Redis commands and the
  settings as arguments, and the random digits as a function from their position.
\<close>

section \<open>Model\<close>

definition generate_otp :: "(nat \<Rightarrow> nat) \<Rightarrow> nat \<Rightarrow> string" where
  "generate_otp draw digits = concat (map (\<lambda>i. str_int (int (draw i))) [0..<digits])"

definition constant_time_compare :: "string \<Rightarrow> string \<Rightarrow> bool" where
  "constant_time_compare a b \<longleftrightarrow> a = b"

definition code_key :: "uuid \<Rightarrow> string" where
  "code_key user_id = ''otp:'' @ uuid_str user_id"

definition attempts_key :: "uuid \<Rightarrow> string" where
  "attempts_key user_id = ''otp:attempts:'' @ uuid_str user_id"

definition issue :: "'s redis \<Rightarrow> settings \<Rightarrow> (nat \<Rightarrow> nat) \<Rightarrow> uuid \<Rightarrow> 's \<Rightarrow> string \<times> 's" where
  "issue R c draw user_id s =
     (let code = generate_otp draw 6;
          s1 = r_set R (code_key user_id) code (Some (OTP_TTL_SECONDS c)) s;
          s2 = r_delete R (attempts_key user_id) s1
      in (code, s2))"

definition verify :: "'s redis \<Rightarrow> settings \<Rightarrow> uuid \<Rightarrow> string \<Rightarrow> 's \<Rightarrow> bool \<times> 's" where
  "verify R c user_id submitted s =
     (let (attempts, s1) = r_incr R (attempts_key user_id) s;
          s2 = (if attempts = 1 then r_expire R (attempts_key user_id) (OTP_TTL_SECONDS c) s1 else s1)
      in if attempts > OTP_MAX_ATTEMPTS c then (False, r_delete R (code_key user_id) s2)
         else (case r_get R (code_key user_id) s2 of
                 None \<Rightarrow> (False, s2)
               | Some stored \<Rightarrow>
                   if constant_time_compare stored submitted
                   then (True, r_delete R (attempts_key user_id) (r_delete R (code_key user_id) s2))
                   else (False, s2)))"

text \<open>What a client can do with an issued code: submit guesses, and let time pass.\<close>

datatype otp_event = Submit string | Wait nat

fun otp_run :: "'s redis \<Rightarrow> settings \<Rightarrow> uuid \<Rightarrow> otp_event list \<Rightarrow> 's \<Rightarrow> bool list \<times> 's" where
  "otp_run R c uid [] s = ([], s)"
| "otp_run R c uid (Wait ms # es) s = otp_run R c uid es (r_elapse R ms s)"
| "otp_run R c uid (Submit g # es) s =
     (let (ok, s1) = verify R c uid g s; (oks, s2) = otp_run R c uid es s1 in (ok # oks, s2))"

fun submissions :: "otp_event list \<Rightarrow> string list" where
  "submissions [] = []"
| "submissions (Wait ms # es) = submissions es"
| "submissions (Submit g # es) = g # submissions es"

primrec waited :: "otp_event list \<Rightarrow> nat" where
  "waited [] = 0"
| "waited (e # es) = (case e of Wait ms \<Rightarrow> ms | Submit g \<Rightarrow> 0) + waited es"

text \<open>The service's keys hold the types it gives them.\<close>

definition otp_typed :: "('s \<Rightarrow> string \<Rightarrow> string option) \<Rightarrow> ('s \<Rightarrow> string \<Rightarrow> string fset) \<Rightarrow> uuid \<Rightarrow> 's \<Rightarrow> bool" where
  "otp_typed strs members uid s \<longleftrightarrow> members s (code_key uid) = {||} \<and> members s (attempts_key uid) = {||} \<and>
     counter_below incr_limit (strs s (attempts_key uid))"

section \<open>Keys and codes\<close>

lemma length_generate_otp: "\<forall>i<n. draw i < 10 \<Longrightarrow> length (generate_otp draw n) = n"
proof (induction n)
  case 0
  then show ?case by (simp add: generate_otp_def)
next
  case (Suc n)
  have "length (str_int (int (draw n))) = 1"
    using Suc.prems by (auto simp: str_int_def str_base.simps)
  with Suc show ?case by (simp add: generate_otp_def)
qed

lemma key_eq_code [key_simps]: "code_key u = code_key v \<longleftrightarrow> u = v"
  by (simp add: code_key_def)

lemma key_eq_attempts [key_simps]: "attempts_key u = attempts_key v \<longleftrightarrow> u = v"
  by (simp add: attempts_key_def)

lemma code_neq_attempts [key_simps]: "code_key u \<noteq> attempts_key v" "attempts_key v \<noteq> code_key u"
proof -
  have "uuid_str u \<noteq> ''attempts:'' @ uuid_str v"
    by (rule uuid_str_neq [where c = "CHR '':''"]) (auto simp: digit_of_def)
  then show "code_key u \<noteq> attempts_key v" "attempts_key v \<noteq> code_key u"
    by (auto simp: code_key_def attempts_key_def)
qed

section \<open>What the operations do to the store\<close>

context redis_values
begin

lemma otp_typed_issue:
  "otp_typed strs members uid s \<Longrightarrow> otp_typed strs members uid (snd (issue R c draw uid s))"
  by (simp add: otp_typed_def issue_def Let_def value_laws key_simps)

lemma strs_issue [view_simps]:
  "otp_typed strs members uid s \<Longrightarrow> strs (snd (issue R c draw uid s)) =
     (strs s)(code_key uid \<mapsto> fst (issue R c draw uid s), attempts_key uid := None)"
  by (simp add: otp_typed_def issue_def Let_def value_laws key_simps)

lemma verify_result:
  assumes "otp_typed strs members uid s" and "0 < OTP_TTL_SECONDS c"
  shows "fst (verify R c uid g s) \<longleftrightarrow>
    count_of (strs s (attempts_key uid)) < OTP_MAX_ATTEMPTS c \<and> strs s (code_key uid) = Some g"
  using assms
  by (auto simp: otp_typed_def verify_def Let_def case_prod_beta value_laws key_simps constant_time_compare_def
      split: option.splits)

lemma strs_verify [view_simps]:
  assumes "otp_typed strs members uid s" and "0 < OTP_TTL_SECONDS c"
  shows "strs (snd (verify R c uid g s)) =
    (if fst (verify R c uid g s) then (strs s)(code_key uid := None, attempts_key uid := None)
     else if count_of (strs s (attempts_key uid)) < OTP_MAX_ATTEMPTS c
       then (strs s)(attempts_key uid \<mapsto> str_int (count_of (strs s (attempts_key uid)) + 1))
     else (strs s)(attempts_key uid \<mapsto> str_int (count_of (strs s (attempts_key uid)) + 1),
       code_key uid := None))"
  using assms
  by (auto simp: otp_typed_def verify_def Let_def case_prod_beta value_laws key_simps constant_time_compare_def fun_eq_iff
      split: option.splits)

lemma members_verify [view_simps]:
  assumes "otp_typed strs members uid s" and "0 < OTP_TTL_SECONDS c"
  shows "members (snd (verify R c uid g s)) = members s"
  using assms
  by (auto simp: otp_typed_def verify_def Let_def case_prod_beta value_laws key_simps fun_eq_iff
      split: option.splits)

end

section \<open>Guessing an issued code\<close>

text \<open>
  After \<open>k\<close> submissions either the code is gone, or it is the issued one, the counter
  stands at \<open>k\<close>, and the code expires no later than the counter.
\<close>

definition guess_inv :: "('s \<Rightarrow> string \<Rightarrow> string option) \<Rightarrow> ('s \<Rightarrow> string \<Rightarrow> string fset) \<Rightarrow>
    ('s \<Rightarrow> string \<Rightarrow> nat option) \<Rightarrow> settings \<Rightarrow> uuid \<Rightarrow> string \<Rightarrow> int \<Rightarrow> 's \<Rightarrow> bool" where
  "guess_inv strs members ttl c uid code k s \<longleftrightarrow>
     members s (code_key uid) = {||} \<and> members s (attempts_key uid) = {||} \<and>
     counter_below (k + 1) (strs s (attempts_key uid)) \<and>
     (strs s (code_key uid) = None \<or>
       strs s (code_key uid) = Some code \<and> count_of (strs s (attempts_key uid)) = k \<and>
       (\<exists>t. ttl s (code_key uid) = Some t \<and> t \<le> OTP_TTL_SECONDS c * 1000 \<and>
          (strs s (attempts_key uid) = None \<or> (\<exists>t'. ttl s (attempts_key uid) = Some t' \<and> t \<le> t'))))"

context redis
begin

lemma ttl_issue [view_simps]:
  "ttl (snd (issue R c draw uid s)) =
     (ttl s)(code_key uid \<mapsto> OTP_TTL_SECONDS c * 1000, attempts_key uid := None)"
  by (simp add: issue_def Let_def ttl_laws)

lemma ttl_verify [view_simps]:
  assumes "otp_typed strs members uid s" and "0 < OTP_TTL_SECONDS c" and "\<not> fst (verify R c uid g s)"
  shows "ttl (snd (verify R c uid g s)) =
    (if count_of (strs s (attempts_key uid)) < OTP_MAX_ATTEMPTS c then id else (\<lambda>f. f(code_key uid := None)))
      (if count_of (strs s (attempts_key uid)) = 0 then (ttl s)(attempts_key uid \<mapsto> OTP_TTL_SECONDS c * 1000)
       else ttl s)"
  using assms
  by (auto simp: otp_typed_def verify_def Let_def case_prod_beta value_laws ttl_laws key_simps fun_eq_iff
      split: option.splits if_splits)

lemma guess_inv_issue:
  "otp_typed strs members uid s \<Longrightarrow>
     guess_inv strs members ttl c uid (fst (issue R c draw uid s)) 0 (snd (issue R c draw uid s))"
  by (simp add: guess_inv_def view_simps key_simps) (simp add: otp_typed_def issue_def Let_def value_laws key_simps)

lemma guess_inv_typed:
  "guess_inv strs members ttl c uid code k s \<Longrightarrow> k < incr_limit - 1 \<Longrightarrow> otp_typed strs members uid s"
  by (auto simp: guess_inv_def otp_typed_def elim: counter_mono)

lemma guess_inv_wait:
  "guess_inv strs members ttl c uid code k s \<Longrightarrow> guess_inv strs members ttl c uid code k (r_elapse R ms s)"
  by (auto simp: guess_inv_def elapse_laws split: option.splits)

lemma guess_inv_submit:
  assumes "guess_inv strs members ttl c uid code k s" and "0 \<le> k" and "k < incr_limit - 1" and "0 < OTP_TTL_SECONDS c"
  shows "guess_inv strs members ttl c uid code (k + 1) (snd (verify R c uid g s))"
proof -
  note t = guess_inv_typed [OF assms(1,3)]
  have cnt: "0 \<le> count_of (strs s (attempts_key uid))" "count_of (strs s (attempts_key uid)) \<le> k"
    using assms(1,2) by (auto simp: guess_inv_def counter_below_iff)
  show ?thesis
  proof (cases "fst (verify R c uid g s)")
    case True
    with t assms show ?thesis by (simp add: guess_inv_def view_simps key_simps)
  next
    case False
    with t assms cnt show ?thesis
      by (auto simp: guess_inv_def view_simps key_simps)
  qed
qed

lemma run_dead:
  "guess_inv strs members ttl c uid code k s \<Longrightarrow> strs s (code_key uid) = None \<Longrightarrow> 0 \<le> k \<Longrightarrow>
   k + int (length evs) < incr_limit - 1 \<Longrightarrow> 0 < OTP_TTL_SECONDS c \<Longrightarrow> True \<notin> set (fst (otp_run R c uid evs s))"
proof (induction evs arbitrary: k s)
  case Nil
  then show ?case by simp
next
  case (Cons e evs)
  show ?case
  proof (cases e)
    case (Wait ms)
    have "strs (r_elapse R ms s) (code_key uid) = None"
      using Cons.prems(2) by (simp add: elapse_laws split: option.splits)
    with Cons.IH [OF guess_inv_wait [OF Cons.prems(1)]] Cons.prems Wait show ?thesis by simp
  next
    case (Submit g)
    have t: "otp_typed strs members uid s"
      using Cons.prems by (auto intro: guess_inv_typed)
    then have no: "\<not> fst (verify R c uid g s)" and
      "strs (snd (verify R c uid g s)) (code_key uid) = None"
      using Cons.prems(2,5) by (simp_all add: verify_result view_simps key_simps)
    with Cons.IH [OF guess_inv_submit [OF Cons.prems(1)]] Cons.prems Submit show ?thesis
      by (auto simp: case_prod_beta Let_def)
  qed
qed

lemma run_bound:
  "guess_inv strs members ttl c uid code k s \<Longrightarrow> 0 \<le> k \<Longrightarrow> k + int (length evs) < incr_limit - 1 \<Longrightarrow>
   0 < OTP_TTL_SECONDS c \<Longrightarrow> oks = fst (otp_run R c uid evs s) \<Longrightarrow>
     length oks = length (submissions evs) \<and>
     (\<forall>i<length oks. oks ! i \<longrightarrow> k + int i < OTP_MAX_ATTEMPTS c \<and> submissions evs ! i = code) \<and>
     count_list oks True \<le> 1"
proof (induction evs arbitrary: k s oks)
  case Nil
  then show ?case by simp
next
  case (Cons e evs)
  show ?case
  proof (cases e)
    case (Wait ms)
    with Cons.IH [OF guess_inv_wait [OF Cons.prems(1)]] Cons.prems show ?thesis by simp
  next
    case (Submit g)
    let ?v = "verify R c uid g s"
    let ?oks = "fst (otp_run R c uid evs (snd ?v))"
    have t: "otp_typed strs members uid s"
      using Cons.prems by (auto intro: guess_inv_typed)
    have inv: "guess_inv strs members ttl c uid code (k + 1) (snd ?v)"
      using Cons.prems by (auto intro: guess_inv_submit)
    have rest: "length ?oks = length (submissions evs)"
      "\<forall>i<length ?oks. ?oks ! i \<longrightarrow> k + 1 + int i < OTP_MAX_ATTEMPTS c \<and> submissions evs ! i = code"
      "count_list ?oks True \<le> 1"
      using Cons.IH [OF inv, of ?oks] Cons.prems by auto
    have oks: "oks = fst ?v # ?oks" using Cons.prems(5) Submit by (simp add: case_prod_beta Let_def)
    have hit: "k < OTP_MAX_ATTEMPTS c \<and> g = code \<and> count_list ?oks True = 0" if "fst ?v"
    proof -
      have "True \<notin> set ?oks"
        using run_dead [OF inv] that t Cons.prems by (simp add: view_simps key_simps)
      with that t Cons.prems show ?thesis
        by (auto simp: verify_result guess_inv_def)
    qed
    from rest(1) oks Submit have "length oks = length (submissions (e # evs))" by simp
    moreover have "k + int i < OTP_MAX_ATTEMPTS c \<and> submissions (e # evs) ! i = code"
      if "i < length oks" "oks ! i" for i
      using that hit rest(1,2) oks Submit by (cases i) auto
    moreover have "count_list oks True \<le> 1" using hit rest(3) oks by auto
    ultimately show ?thesis by blast
  qed
qed

lemma run_live:
  "guess_inv strs members ttl c uid code k s \<Longrightarrow> 0 \<le> k \<Longrightarrow> k + int (length evs) < incr_limit - 1 \<Longrightarrow>
   0 < OTP_TTL_SECONDS c \<Longrightarrow> strs s (code_key uid) = Some code \<Longrightarrow> ttl s (code_key uid) = Some t \<Longrightarrow>
   waited evs < t \<Longrightarrow> code \<notin> set (submissions evs) \<Longrightarrow> k + int (length (submissions evs)) < OTP_MAX_ATTEMPTS c \<Longrightarrow>
   s' = snd (otp_run R c uid evs s) \<Longrightarrow>
     guess_inv strs members ttl c uid code (k + int (length (submissions evs))) s' \<and> strs s' (code_key uid) = Some code"
proof (induction evs arbitrary: k s t s')
  case Nil
  then show ?case by simp
next
  case (Cons e evs)
  show ?case
  proof (cases e)
    case (Wait ms)
    have "strs (r_elapse R ms s) (code_key uid) = Some code" "ttl (r_elapse R ms s) (code_key uid) = Some (t - ms)"
      using Cons.prems Wait by (simp_all add: elapse_laws)
    with Cons.IH [OF guess_inv_wait [OF Cons.prems(1)]] Cons.prems Wait show ?thesis by simp
  next
    case (Submit g)
    have ty: "otp_typed strs members uid s"
      using Cons.prems by (auto intro: guess_inv_typed)
    have no: "\<not> fst (verify R c uid g s)" and cnt: "count_of (strs s (attempts_key uid)) = k"
      using Cons.prems ty Submit by (auto simp: verify_result guess_inv_def)
    then have "strs (snd (verify R c uid g s)) (code_key uid) = Some code"
      "ttl (snd (verify R c uid g s)) (code_key uid) = Some t"
      using Cons.prems ty Submit by (simp_all add: view_simps key_simps)
    with Cons.IH [OF guess_inv_submit [OF Cons.prems(1)]] Cons.prems Submit show ?thesis
      by (simp add: case_prod_beta Let_def algebra_simps)
  qed
qed

end

section \<open>Properties\<close>

text \<open>
  C1. Brute force: after an issue, in every sequence of submissions and waiting times, only
  one of the first \<open>OTP_MAX_ATTEMPTS\<close> submissions can succeed, it is the issued code, and
  at most one submission succeeds at all. Waiting does not help, because the attempt counter
  never expires before the code it guards.
\<close>

theorem otp_guess_bound:
  assumes "redis R strs members ttl" and "otp_typed strs members uid s"
    and "0 < OTP_TTL_SECONDS c" and "length evs < 2 ^ 62"
    and "issue R c draw uid s = (code, s1)" and "otp_run R c uid evs s1 = (oks, s2)"
  shows "(\<forall>i<length oks. oks ! i \<longrightarrow> int i < OTP_MAX_ATTEMPTS c \<and> submissions evs ! i = code) \<and>
    length oks = length (submissions evs) \<and> count_list oks True \<le> 1"
proof -
  have "guess_inv strs members ttl c uid code 0 s1"
    using redis.guess_inv_issue [OF assms(1,2), of c draw] assms(5) by simp
  from redis.run_bound [OF assms(1) this, of evs oks] assms(3,4,6) show ?thesis by auto
qed

abbreviation demo_events :: "otp_event list" where
  "demo_events \<equiv> [Submit ''000000'', Wait 1500, Submit ''777777'', Submit ''777777'']"

lemma demo_issue: "fst (issue ref_redis settings_defaults (\<lambda>_. 7) 1 Map.empty) = ''777777''"
  by (simp only: issue_def Let_def fst_conv) code_simp

lemma demo_run:
  "fst (otp_run ref_redis settings_defaults 1 demo_events
     (snd (issue ref_redis settings_defaults (\<lambda>_. 7) 1 Map.empty))) = [False, True, False]"
proof -
  have "generate_otp (\<lambda>_. 7) 6 = ''777777''" by code_simp
  then show ?thesis
    by (simp add: issue_def verify_def constant_time_compare_def Let_def ref_defs key_simps)
qed

lemma demo_typed: "otp_typed ref_strs ref_members uid Map.empty"
  by (simp add: otp_typed_def ref_defs)

theorem otp_guess_bound_witness:
  "let (code, s1) = issue ref_redis settings_defaults (\<lambda>_. 7) 1 Map.empty;
       (oks, s2) = otp_run ref_redis settings_defaults 1 demo_events s1
   in oks = [False, True, False] \<and> count_list oks True \<le> 1 \<and> submissions demo_events ! 1 = code"
  using otp_guess_bound [OF ref.redis_axioms demo_typed _ _ surjective_pairing surjective_pairing,
      of settings_defaults demo_events 1 "\<lambda>_. 7"] demo_run demo_issue
  by (simp add: case_prod_beta)

text \<open>
  The legitimate user gets in: fewer than \<open>OTP_MAX_ATTEMPTS\<close> wrong submissions and less
  than \<open>OTP_TTL_SECONDS\<close> of waiting leave the issued code valid, and submitting it succeeds.
\<close>

theorem otp_accepts:
  assumes "redis R strs members ttl" and "otp_typed strs members uid s"
    and "0 < OTP_TTL_SECONDS c" and "length evs < 2 ^ 62"
    and "issue R c draw uid s = (code, s1)" and "otp_run R c uid evs s1 = (oks, s2)"
    and "code \<notin> set (submissions evs)" and "int (length (submissions evs)) < OTP_MAX_ATTEMPTS c"
    and "waited evs < OTP_TTL_SECONDS c * 1000"
  shows "fst (verify R c uid code s2)"
proof -
  have inv: "guess_inv strs members ttl c uid code 0 s1"
    using redis.guess_inv_issue [OF assms(1,2), of c draw] assms(5) by simp
  have "strs s1 (code_key uid) = Some code" "ttl s1 (code_key uid) = Some (OTP_TTL_SECONDS c * 1000)"
    using redis_values.strs_issue [OF redis.axioms(1) [OF assms(1)] assms(2), of c draw]
      redis.ttl_issue [OF assms(1), of c draw uid s] assms(5) by (simp_all add: key_simps)
  from redis.run_live [OF assms(1) inv _ _ assms(3) this, of evs s2] assms(4,6-9)
  have end_inv: "guess_inv strs members ttl c uid code (int (length (submissions evs))) s2"
    and live: "strs s2 (code_key uid) = Some code"
    by simp_all
  have "length (submissions evs) \<le> length evs"
    by (induction evs rule: submissions.induct) simp_all
  then have "otp_typed strs members uid s2"
    using redis.guess_inv_typed [OF assms(1) end_inv] assms(4) by simp
  with end_inv live assms(3,8) redis_values.verify_result [OF redis.axioms(1) [OF assms(1)]] show ?thesis
    by (auto simp: guess_inv_def)
qed

theorem otp_accepts_witness:
  "let (code, s1) = issue ref_redis settings_defaults (\<lambda>_. 7) 1 Map.empty;
       (oks, s2) = otp_run ref_redis settings_defaults 1 [Submit ''000000'', Wait 299999] s1
   in fst (verify ref_redis settings_defaults 1 code s2)"
  using otp_accepts [OF ref.redis_axioms demo_typed _ _ surjective_pairing surjective_pairing,
      of settings_defaults "[Submit ''000000'', Wait 299999]" "\<lambda>_. 7" 1] demo_issue
  by (simp add: case_prod_beta)

end
