(* ===== verification/Auth.thy ===== *)
theory Auth
  imports Otp_Service Security
begin

text \<open>
  \<^verbatim>\<open>app/api/routes/auth.py\<close> and \<^verbatim>\<open>app/services/sms_gateway.py\<close>: requesting and verifying a
  one-time code, WebSocket tickets, and the sessions of a user. Each handler is a function
  of the shared \<open>world\<close>; row ids, random tokens and the clock, which a handler reads
  once, are arguments.
\<close>

section \<open>Rate limiting and requesting a code\<close>

definition OTP_COOLDOWN_SECONDS :: nat where
  "OTP_COOLDOWN_SECONDS = 60"

definition OTP_MAX_PER_HOUR :: int where
  "OTP_MAX_PER_HOUR = 5"

definition cooldown_key :: "string \<Rightarrow> string" where
  "cooldown_key phone = ''otp:cooldown:'' @ phone"

definition hourly_key :: "string \<Rightarrow> string" where
  "hourly_key phone = ''otp:hourly:'' @ phone"

definition ip_key :: "string \<Rightarrow> string" where
  "ip_key ip = ''otp:ip:'' @ ip"

definition rate_limit_otp :: "'s redis \<Rightarrow> string \<Rightarrow> string \<Rightarrow> ('s, nat) handler" where
  "rate_limit_otp R phone ip s =
     (if r_exists R (cooldown_key phone) s
      then (Inl (HTTPException 429 (''Please wait '' @ str_int (r_ttl R (cooldown_key phone) s) @
              ''s before requesting another code'')), s)
      else
        let (hourly, s1) = r_incr R (hourly_key phone) s;
            s2 = (if hourly = 1 then r_expire R (hourly_key phone) 3600 s1 else s1);
            (ip_count, s3) = r_incr R (ip_key ip) s2;
            s4 = (if ip_count = 1 then r_expire R (ip_key ip) 3600 s3 else s3)
        in if hourly > OTP_MAX_PER_HOUR \<or> ip_count > OTP_MAX_PER_HOUR * 4
           then (Inl (HTTPException 429 ''Too many attempts. Try again later.''), s4)
           else (Inr OTP_COOLDOWN_SECONDS, r_set R (cooldown_key phone) ''1'' (Some OTP_COOLDOWN_SECONDS) s4))"

text \<open>The gateway logs a masked number in development and is not implemented elsewhere.\<close>

definition send_otp :: "settings \<Rightarrow> string \<Rightarrow> string \<Rightarrow> string res" where
  "send_otp c phone code =
     (if ENV c = ''development'' then Inr (take 5 phone @ ''********'')
      else Inl (NotImplementedError ''Production SMS provider not configured yet''))"

record request_otp_out =
  detail :: string
  retry_after_seconds :: nat

definition request_otp ::
  "'s redis \<Rightarrow> settings \<Rightarrow> (nat \<Rightarrow> nat) \<Rightarrow> string \<Rightarrow> string option \<Rightarrow> ('s world, request_otp_out) handler" where
  "request_otp R c draw phone client w =
     (let ip = (case client of None \<Rightarrow> ''unknown'' | Some h \<Rightarrow> h);
          (lim, s1) = rate_limit_otp R phone ip (w_otp w);
          w1 = w\<lparr>w_otp := s1\<rparr>
      in case lim of Inl e \<Rightarrow> (Inl e, w1)
         | Inr retry_after \<Rightarrow>
             let out = \<lparr>detail = ''If this number is registered, a code has been sent.'',
                        retry_after_seconds = retry_after\<rparr>
             in case scalar (\<lambda>u. phone_number u = phone) (users (w_db w1)) of
                  None \<Rightarrow> (Inr out, w1)
                | Some user \<Rightarrow>
                    if u_status user = status_value ACTIVE then
                      let (code, s2) = issue R c draw (u_id user) (w_otp w1);
                          w2 = w1\<lparr>w_otp := s2\<rparr>
                      in case send_otp c phone code of Inl e \<Rightarrow> (Inl e, w2) | Inr _ \<Rightarrow> (Inr out, w2)
                    else (Inr out, w1))"

section \<open>Verification\<close>

definition classify_device :: "string \<Rightarrow> string" where
  "classify_device user_agent =
     (let ua = lower user_agent
      in if list_ex (\<lambda>k. contains k ua) [''android'', ''iphone'', ''mobile''] then ''mobile''
         else if contains ''ipad'' ua \<or> contains ''tablet'' ua then ''tablet''
         else if list_ex (\<lambda>k. contains k ua) [''windows'', ''macintosh'', ''linux''] then ''desktop''
         else ''unknown'')"

record user_out =
  uo_id :: uuid
  uo_full_name :: string
  uo_username :: "string option"
  uo_role :: string
  uo_avatar_url :: "string option"

definition UserOut :: "user \<Rightarrow> user_out" where
  "UserOut u = \<lparr>uo_id = u_id u, uo_full_name = full_name u, uo_username = username u,
     uo_role = u_role u, uo_avatar_url = None\<rparr>"

record verify_out =
  access_token :: string
  refresh_token :: string
  token_type :: string
  expires_in :: int
  session_id :: uuid
  vo_user :: user_out

definition generic_error :: error where
  "generic_error = HTTPException 401 ''Verification failed. Check your code and credentials.''"

text \<open>The random values and row ids a login draws.\<close>

record login_draws =
  ld_jti :: string
  ld_refresh :: string
  ld_session :: uuid
  ld_audit :: uuid
  ld_audit2 :: uuid

definition login_failed_row :: "uuid \<Rightarrow> instant \<Rightarrow> user \<Rightarrow> string \<Rightarrow> string \<Rightarrow> audit_log" where
  "login_failed_row i now user ip ua =
     (audit_row i now (Some (u_id user)) (Some (u_role user)) (audit_value LOGIN_FAILED) False)
       \<lparr>a_ip_address := Some ip, a_user_agent := Some ua, error_code := Some ''otp_or_mid_mismatch''\<rparr>"

definition login_session :: "crypto \<Rightarrow> settings \<Rightarrow> login_draws \<Rightarrow> instant \<Rightarrow> uuid \<Rightarrow> string \<Rightarrow> string \<Rightarrow> user_session" where
  "login_session C c r now user_id ip ua =
     \<lparr>s_id = ld_session r, s_created_at = now, s_user_id = user_id,
      refresh_token_hash = hash_refresh_token C (ld_refresh r), s_ip_address = ip, s_user_agent = Some ua,
      device_type = Some (classify_device ua), device_name = None, os_version = None, app_version = None,
      geo_country = None, geo_city = None, geo_lat = None, geo_lon = None, last_active_at = None,
      s_expires_at = now + seconds (86400 * REFRESH_TOKEN_EXPIRE_DAYS c), revoked_at = None,
      ws_connection_id = None\<rparr>"

definition verify_login ::
  "'s redis \<Rightarrow> crypto \<Rightarrow> settings \<Rightarrow> login_draws \<Rightarrow> instant \<Rightarrow> verify_in \<Rightarrow> string option \<Rightarrow> string option \<Rightarrow>
     ('s world, verify_out) handler" where
  "verify_login R C c r now body client header w =
     (let ip = (case client of None \<Rightarrow> ''unknown'' | Some h \<Rightarrow> h);
          ua = take 512 (case header of None \<Rightarrow> [] | Some h \<Rightarrow> h)
      in case scalar (\<lambda>u. phone_number u = vi_phone_number body) (users (w_db w)) of
           None \<Rightarrow> (Inl generic_error, w)
         | Some user \<Rightarrow>
             if u_status user \<noteq> status_value ACTIVE then (Inl generic_error, w)
             else if (case expiry_date user of None \<Rightarrow> False | Some day \<Rightarrow> day < utc_date now)
               then (Inl generic_error, w)
             else
               let (otp_ok, s1) = verify R c (u_id user) (vi_otp_code body) (w_otp w);
                   w1 = w\<lparr>w_otp := s1\<rparr>;
                   mil_ok = verify_military_id C (vi_military_id body) (hashed_military_id user)
               in if \<not> (otp_ok \<and> mil_ok) then
                    (case commit_world w1 (add_audit (login_failed_row (ld_audit r) now user ip ua) (w_db w1)) () of
                       (Inl e, w2) \<Rightarrow> (Inl e, w2)
                     | (Inr _, w2) \<Rightarrow> (Inl generic_error, w2))
                  else
                    let fingerprint_changed = (case device_fingerprint user of None \<Rightarrow> False
                                               | Some f \<Rightarrow> f \<noteq> vi_device_fingerprint body);
                        user' = user\<lparr>device_fingerprint := Some (vi_device_fingerprint body),
                                     token_version := token_version user + 1, last_seen_at := Some now\<rparr>;
                        token = create_access_token C c now (ld_jti r) (u_id user') (token_version user') (u_role user') [];
                        session = login_session C c r now (u_id user') ip ua;
                        d1 = set_user user' (w_db w1);
                        d2 = d1\<lparr>sessions := sessions d1 @ [session]\<rparr>;
                        d3 = add_audit ((audit_row (ld_audit r) now (Some (u_id user')) (Some (u_role user'))
                                (audit_value LOGIN_SUCCESS) True)
                                \<lparr>a_ip_address := Some ip, a_user_agent := Some ua,
                                 metadata := Some [(''fingerprint_changed'', JBool fingerprint_changed)]\<rparr>) d2;
                        d4 = (if fingerprint_changed then
                                add_audit ((audit_row (ld_audit2 r) now (Some (u_id user')) (Some (u_role user'))
                                  (audit_value DEVICE_FINGERPRINT_CHANGED) True)\<lparr>a_ip_address := Some ip\<rparr>) d3
                              else d3)
                    in commit_world w1 d4
                         \<lparr>access_token = token, refresh_token = ld_refresh r, token_type = ''bearer'',
                          expires_in = ACCESS_TOKEN_EXPIRE_MINUTES c * 60, session_id = s_id session,
                          vo_user = UserOut user'\<rparr>)"

section \<open>WebSocket tickets and sessions\<close>

definition WS_TICKET_TTL_SECONDS :: nat where
  "WS_TICKET_TTL_SECONDS = 30"

definition ticket_key :: "string \<Rightarrow> string" where
  "ticket_key ticket = ''ws:ticket:'' @ ticket"

record ws_ticket_out =
  ticket :: string
  t_expires_in :: nat
  ws_url :: string

definition create_ws_ticket :: "'s redis \<Rightarrow> string \<Rightarrow> user \<Rightarrow> 's \<Rightarrow> ws_ticket_out \<times> 's" where
  "create_ws_ticket R tok user s =
     (\<lparr>ticket = tok, t_expires_in = WS_TICKET_TTL_SECONDS, ws_url = ''/ws/chat?ticket='' @ tok\<rparr>,
      r_set R (ticket_key tok) (uuid_str (u_id user)) (Some WS_TICKET_TTL_SECONDS) s)"

text \<open>The other end, at the start of \<^verbatim>\<open>chat_socket\<close>: the ticket is read and deleted at once.\<close>

definition redeem_ticket :: "'s redis \<Rightarrow> string \<Rightarrow> 's \<Rightarrow> uuid option res \<times> 's" where
  "redeem_ticket R tok s =
     (case r_getdel R (ticket_key tok) s of
        (None, s1) \<Rightarrow> (Inr None, s1)
      | (Some raw, s1) \<Rightarrow>
          (case uuid_parse raw of
             None \<Rightarrow> (Inl (ValueError ''badly formed hexadecimal UUID string''), s1)
           | Some user_id \<Rightarrow> (Inr (Some user_id), s1)))"

definition list_sessions :: "instant \<Rightarrow> user \<Rightarrow> db \<Rightarrow> user_session list" where
  "list_sessions now user d =
     rev (sort_key s_created_at (scalars (\<lambda>s. s_user_id s = u_id user \<and> revoked_at s = None \<and> now < s_expires_at s)
       (sessions d)))"

definition revoke_session :: "uuid \<Rightarrow> instant \<Rightarrow> uuid \<Rightarrow> user \<Rightarrow> ('s world, unit) handler" where
  "revoke_session aid now sid user w =
     (case scalar (\<lambda>s. s_id s = sid \<and> s_user_id s = u_id user \<and> revoked_at s = None) (sessions (w_db w)) of
        None \<Rightarrow> (Inl (HTTPException 404 ''session not found''), w)
      | Some session \<Rightarrow>
          let d1 = (w_db w)\<lparr>sessions := update_where (\<lambda>s. s_id s = s_id session) (\<lambda>s. s\<lparr>revoked_at := Some now\<rparr>)
                      (sessions (w_db w))\<rparr>;
              d2 = add_audit ((audit_row aid now (Some (u_id user)) (Some (u_role user)) (audit_value SESSION_REVOKED) True)
                     \<lparr>resource_type := Some ''user_session'', resource_id := Some (uuid_str sid)\<rparr>) d1
          in case commit_world w d2 () of
               (Inl e, w1) \<Rightarrow> (Inl e, w1)
             | (Inr _, w1) \<Rightarrow>
                 (Inr (), publish (u_id user) [(''type'', JStr ''session_revoked''), (''session_id'', JStr (uuid_str sid))] w1))"

section \<open>The request limiter\<close>

lemma rate_keys [key_simps]:
  "cooldown_key p \<noteq> hourly_key q" "hourly_key q \<noteq> cooldown_key p" "cooldown_key p \<noteq> ip_key i"
  "ip_key i \<noteq> cooldown_key p" "hourly_key q \<noteq> ip_key i" "ip_key i \<noteq> hourly_key q"
  "cooldown_key p = cooldown_key q \<longleftrightarrow> p = q" "hourly_key p = hourly_key q \<longleftrightarrow> p = q"
  "ip_key i = ip_key j \<longleftrightarrow> i = j"
  by (simp_all add: cooldown_key_def hourly_key_def ip_key_def)

text \<open>The limiter's keys hold the types it gives them, with counters below a bound.\<close>

definition rate_typed :: "('s \<Rightarrow> string \<Rightarrow> string option) \<Rightarrow> ('s \<Rightarrow> string \<Rightarrow> string fset) \<Rightarrow> int \<Rightarrow> string \<Rightarrow> 's \<Rightarrow> bool" where
  "rate_typed strs members b phone s \<longleftrightarrow>
     members s (cooldown_key phone) = {||} \<and> members s (hourly_key phone) = {||} \<and>
     counter_below b (strs s (hourly_key phone)) \<and>
     (\<forall>ip. members s (ip_key ip) = {||} \<and> counter_below b (strs s (ip_key ip)))"

abbreviation counted :: "string \<Rightarrow> (string \<Rightarrow> string option) \<Rightarrow> (string \<Rightarrow> string option)" where
  "counted k f \<equiv> f(k \<mapsto> str_int (count_of (f k) + 1))"

definition admits :: "(string \<Rightarrow> string option) \<Rightarrow> string \<Rightarrow> string \<Rightarrow> bool" where
  "admits f phone ip \<longleftrightarrow> f (cooldown_key phone) = None \<and> count_of (f (hourly_key phone)) < OTP_MAX_PER_HOUR \<and>
     count_of (f (ip_key ip)) < OTP_MAX_PER_HOUR * 4"

context redis_values
begin

lemma rate_limit_admits:
  assumes "rate_typed strs members b phone s" and "b \<le> incr_limit"
  shows "isl (fst (rate_limit_otp R phone ip s)) \<longleftrightarrow> \<not> admits (strs s) phone ip"
  using assms counter_mono [of b _ incr_limit]
  by (auto simp: rate_typed_def rate_limit_otp_def admits_def Let_def case_prod_beta value_laws key_simps)

lemma rate_limit_Inr: "fst (rate_limit_otp R phone ip s) = Inr n \<Longrightarrow> n = OTP_COOLDOWN_SECONDS"
  by (auto simp: rate_limit_otp_def Let_def case_prod_beta split: if_splits)

lemma rate_limit_429:
  assumes "fst (rate_limit_otp R phone ip s) = Inl e"
  shows "\<exists>m. e = HTTPException 429 m"
  using assms by (auto simp: rate_limit_otp_def Let_def case_prod_beta split: if_splits)

lemma strs_rate_limit [view_simps]:
  assumes "rate_typed strs members b phone s" and "b \<le> incr_limit"
  shows "strs (snd (rate_limit_otp R phone ip s)) =
    (if strs s (cooldown_key phone) \<noteq> None then strs s
     else if admits (strs s) phone ip then (counted (ip_key ip) (counted (hourly_key phone) (strs s)))(cooldown_key phone \<mapsto> ''1'')
     else counted (ip_key ip) (counted (hourly_key phone) (strs s)))"
  using assms counter_mono [of b _ incr_limit]
  by (auto simp: rate_typed_def rate_limit_otp_def admits_def Let_def case_prod_beta value_laws key_simps)

lemma members_rate_limit [view_simps]:
  assumes "rate_typed strs members b phone s" and "b \<le> incr_limit"
  shows "members (snd (rate_limit_otp R phone ip s)) = members s"
  using assms counter_mono [of b _ incr_limit]
  by (auto simp: rate_typed_def rate_limit_otp_def Let_def case_prod_beta value_laws key_simps)

lemma rate_typed_step:
  assumes "rate_typed strs members b phone s" and "b < incr_limit" and "0 < b"
  shows "rate_typed strs members (b + 1) phone (snd (rate_limit_otp R phone ip s))"
proof -
  have up: "counter_below b x \<Longrightarrow> counter_below (b + 1) x" for x by (erule counter_mono) simp
  have "counter_below b x \<Longrightarrow> counter_below (b + 1) (Some (str_int (count_of x + 1)))" for x
    using assms(3) by (auto simp: counter_below_iff)
  with assms up show ?thesis
    by (auto simp: rate_typed_def strs_rate_limit [OF assms(1)] members_rate_limit [OF assms(1)] key_simps)
qed

end

text \<open>Requests for one number, from any addresses, with time passing between them.\<close>

datatype request_event = Request string | Pause nat

fun request_run :: "'s redis \<Rightarrow> string \<Rightarrow> request_event list \<Rightarrow> 's \<Rightarrow> bool list \<times> 's" where
  "request_run R phone [] s = ([], s)"
| "request_run R phone (Pause ms # es) s = request_run R phone es (r_elapse R ms s)"
| "request_run R phone (Request ip # es) s =
     (let (res, s1) = rate_limit_otp R phone ip s; (oks, s2) = request_run R phone es s1 in ((\<not> isl res) # oks, s2))"

primrec paused :: "request_event list \<Rightarrow> nat" where
  "paused [] = 0"
| "paused (e # es) = (case e of Pause ms \<Rightarrow> ms | Request ip \<Rightarrow> 0) + paused es"

text \<open>With at least \<open>k\<close> requests counted, the hourly window outlives the rest of the run.\<close>

definition window_inv :: "('s \<Rightarrow> string \<Rightarrow> string option) \<Rightarrow> ('s \<Rightarrow> string \<Rightarrow> nat option) \<Rightarrow> string \<Rightarrow> int \<Rightarrow> nat \<Rightarrow> 's \<Rightarrow> bool" where
  "window_inv strs ttl phone k rest s \<longleftrightarrow> k \<le> count_of (strs s (hourly_key phone)) \<and>
     (strs s (hourly_key phone) = None \<or> (\<exists>t. ttl s (hourly_key phone) = Some t \<and> rest < t))"

context redis
begin

lemma ttl_rate_limit_hourly:
  assumes "rate_typed strs members b phone s" and "b \<le> incr_limit"
  shows "ttl (snd (rate_limit_otp R phone ip s)) (hourly_key phone) =
    (if strs s (cooldown_key phone) = None \<and> count_of (strs s (hourly_key phone)) = 0 then Some 3600000
     else ttl s (hourly_key phone))"
  using assms counter_mono [of b _ incr_limit]
  by (auto simp: rate_typed_def rate_limit_otp_def Let_def case_prod_beta value_laws ttl_laws key_simps)

lemma rate_typed_elapse:
  "rate_typed strs members b phone s \<Longrightarrow> rate_typed strs members b phone (r_elapse R ms s)"
  by (auto simp: rate_typed_def elapse_laws split: option.splits)

lemma window_inv_elapse:
  "window_inv strs ttl phone k (ms + rest) s \<Longrightarrow> window_inv strs ttl phone k rest (r_elapse R ms s)"
  by (auto simp: window_inv_def elapse_laws split: option.splits)

lemma window_inv_request:
  assumes "window_inv strs ttl phone k rest s" and "rate_typed strs members b phone s" and "b \<le> incr_limit"
    and "rest < 3600000"
  shows "window_inv strs ttl phone (if isl (fst (rate_limit_otp R phone ip s)) then k else k + 1) rest
    (snd (rate_limit_otp R phone ip s))"
  using assms
  by (auto simp: window_inv_def rate_limit_admits [OF assms(2,3)] strs_rate_limit [OF assms(2,3)]
      ttl_rate_limit_hourly [OF assms(2,3)] key_simps admits_def)

lemma request_run_bound:
  "\<lbrakk>window_inv strs ttl phone k (paused evs) s; rate_typed strs members b phone s; 0 < b;
    b + int (length evs) \<le> incr_limit; paused evs < 3600000; k \<le> OTP_MAX_PER_HOUR\<rbrakk> \<Longrightarrow>
   k + int (count_list (fst (request_run R phone evs s)) True) \<le> OTP_MAX_PER_HOUR"
proof (induction evs arbitrary: k b s)
  case Nil
  then show ?case by simp
next
  case (Cons e evs)
  show ?case
  proof (cases e)
    case (Pause ms)
    then show ?thesis
      using Cons.IH [OF window_inv_elapse rate_typed_elapse [OF Cons.prems(2)]] Cons.prems by simp
  next
    case (Request ip)
    let ?v = "rate_limit_otp R phone ip s"
    let ?k = "if isl (fst ?v) then k else k + 1"
    have b: "b < incr_limit" "b \<le> incr_limit" using Cons.prems(4) by simp_all
    have "window_inv strs ttl phone ?k (paused evs) (snd ?v)"
      using window_inv_request [OF _ Cons.prems(2) b(2)] Cons.prems(1,5) Request by simp
    moreover have "?k \<le> OTP_MAX_PER_HOUR"
      using Cons.prems(1,6) rate_limit_admits [OF Cons.prems(2) b(2), of ip]
      by (auto simp: window_inv_def admits_def)
    ultimately have "?k + int (count_list (fst (request_run R phone evs (snd ?v))) True) \<le> OTP_MAX_PER_HOUR"
      using Cons.IH [OF _ rate_typed_step [OF Cons.prems(2) b(1) Cons.prems(3)]] Cons.prems Request by simp
    then show ?thesis using Request by (auto simp: case_prod_beta Let_def split: if_splits)
  qed
qed

text \<open>From any state: the window may end once during the run, and then a fresh one begins.\<close>

lemma request_run_two_windows:
  "\<lbrakk>k \<le> count_of (strs s (hourly_key phone)); rate_typed strs members b phone s; 0 < b;
    b + int (length evs) \<le> incr_limit; paused evs < 3600000; 0 \<le> k; k \<le> OTP_MAX_PER_HOUR\<rbrakk> \<Longrightarrow>
   k + int (count_list (fst (request_run R phone evs s)) True) \<le> 2 * OTP_MAX_PER_HOUR"
proof (induction evs arbitrary: k b s)
  case Nil
  then show ?case by simp
next
  case (Cons e evs)
  show ?case
  proof (cases e)
    case (Pause ms)
    let ?s = "r_elapse R ms s"
    have t: "rate_typed strs members b phone ?s" by (rule rate_typed_elapse [OF Cons.prems(2)])
    show ?thesis
    proof (cases "strs ?s (hourly_key phone) = None")
      case True
      then have "window_inv strs ttl phone 0 (paused evs) ?s" by (simp add: window_inv_def)
      from request_run_bound [OF this t Cons.prems(3)] Cons.prems Pause show ?thesis by simp
    next
      case False
      then have "strs ?s (hourly_key phone) = strs s (hourly_key phone)" by (auto simp: elapse_laws split: option.splits if_splits)
      with Cons.IH [OF _ t] Cons.prems Pause show ?thesis by simp
    qed
  next
    case (Request ip)
    let ?v = "rate_limit_otp R phone ip s"
    let ?k = "if isl (fst ?v) then k else k + 1"
    have b: "b < incr_limit" "b \<le> incr_limit" using Cons.prems(4) by simp_all
    have "?k \<le> count_of (strs (snd ?v) (hourly_key phone))" "?k \<le> OTP_MAX_PER_HOUR"
      using Cons.prems(1,7) rate_limit_admits [OF Cons.prems(2) b(2), of ip]
      by (auto simp: strs_rate_limit [OF Cons.prems(2) b(2)] admits_def key_simps)
    then have "?k + int (count_list (fst (request_run R phone evs (snd ?v))) True) \<le> 2 * OTP_MAX_PER_HOUR"
      using Cons.IH [OF _ rate_typed_step [OF Cons.prems(2) b(1) Cons.prems(3)]] Cons.prems Request by simp
    then show ?thesis using Request by (auto simp: case_prod_beta Let_def split: if_splits)
  qed
qed

lemma cooldown_refuses:
  assumes "rate_typed strs members b phone s" and "b < incr_limit" and "0 < b"
    and "\<not> isl (fst (rate_limit_otp R phone ip s))" and "ms < 60000"
    and "s' = r_elapse R ms (snd (rate_limit_otp R phone ip s))"
  shows "isl (fst (rate_limit_otp R phone ip' s'))"
proof -
  let ?s = "snd (rate_limit_otp R phone ip s)"
  have b: "b \<le> incr_limit" "b + 1 \<le> incr_limit" using assms(2) by simp_all
  have ad: "admits (strs s) phone ip" using assms(4) rate_limit_admits [OF assms(1) b(1)] by simp
  have ttl: "ttl ?s (cooldown_key phone) = Some 60000"
    using assms(1,4) b counter_mono [of b _ incr_limit] ad
    by (auto simp: rate_typed_def rate_limit_otp_def Let_def case_prod_beta value_laws ttl_laws key_simps
        OTP_COOLDOWN_SECONDS_def admits_def)
  have t1: "rate_typed strs members (b + 1) phone ?s" using rate_typed_step [OF assms(1-3)] .
  have "strs ?s (cooldown_key phone) = Some ''1''"
    using ad strs_rate_limit [OF assms(1) b(1)] by (simp add: admits_def)
  then have "strs s' (cooldown_key phone) = Some ''1''"
    using ttl assms(5,6) by (simp add: elapse_laws)
  then show ?thesis
    using rate_limit_admits [OF rate_typed_elapse [OF t1] b(2)] assms(6) by (simp add: admits_def)
qed

end

text \<open>In development the answer to a request is the limiter's.\<close>

lemma request_otp_fst:
  assumes "ENV c = ''development''"
  shows "fst (request_otp R c draw phone client w) =
    (case fst (rate_limit_otp R phone (case client of None \<Rightarrow> ''unknown'' | Some h \<Rightarrow> h) (w_otp w)) of
       Inl e \<Rightarrow> Inl e
     | Inr n \<Rightarrow> Inr \<lparr>detail = ''If this number is registered, a code has been sent.'', retry_after_seconds = n\<rparr>)"
  using assms by (auto simp: request_otp_def send_otp_def Let_def case_prod_beta split: sum.splits option.splits)

section \<open>Logging in\<close>

lemma integrity_unique:
  "integrity d \<Longrightarrow> unique_on u_id (users d)" "integrity d \<Longrightarrow> unique_on s_id (sessions d)"
  by (simp_all add: integrity_def users_ok_def sessions_ok_def)

lemma user_by_phone:
  assumes "integrity d" and "scalar (\<lambda>u. phone_number u = p) (users d) = Some u"
  shows "user_by_id d (u_id u) = Some u"
  using find_unique [OF integrity_unique(1) [OF assms(1)]] find_SomeD [OF assms(2)]
  by (simp add: user_by_id_def)

definition logged_in :: "instant \<Rightarrow> verify_in \<Rightarrow> user \<Rightarrow> user" where
  "logged_in now body u = u\<lparr>device_fingerprint := Some (vi_device_fingerprint body),
     token_version := token_version u + 1, last_seen_at := Some now\<rparr>"

lemma verify_login_Inr:
  assumes "verify_login R C c r now body client header w = (Inr out, w')"
  obtains u where "scalar (\<lambda>u. phone_number u = vi_phone_number body) (users (w_db w)) = Some u"
    and "u_status u = status_value ACTIVE" and "\<forall>day. expiry_date u = Some day \<longrightarrow> utc_date now \<le> day"
    and "fst (verify R c (u_id u) (vi_otp_code body) (w_otp w))"
    and "verify_military_id C (vi_military_id body) (hashed_military_id u)"
    and "users (w_db w') = users (set_user (logged_in now body u) (w_db w))"
    and "sessions (w_db w') = sessions (w_db w) @ [login_session C c r now (u_id u)
        (case client of None \<Rightarrow> ''unknown'' | Some h \<Rightarrow> h) (take 512 (case header of None \<Rightarrow> [] | Some h \<Rightarrow> h))]"
    and "access_token out = create_access_token C c now (ld_jti r) (u_id u) (token_version u + 1) (u_role u) []"
    and "integrity (w_db w')"
proof -
  obtain u where u: "scalar (\<lambda>u. phone_number u = vi_phone_number body) (users (w_db w)) = Some u"
    "u_status u = status_value ACTIVE" "\<forall>day. expiry_date u = Some day \<longrightarrow> utc_date now \<le> day"
    "fst (verify R c (u_id u) (vi_otp_code body) (w_otp w))"
    "verify_military_id C (vi_military_id body) (hashed_military_id u)"
    using assms
    by (auto simp: verify_login_def Let_def case_prod_beta split: option.splits if_splits sum.splits)
  note def = verify_login_def [of R C c r now body client header w, unfolded u(1)]
  have "(case expiry_date u of None \<Rightarrow> False | Some day \<Rightarrow> day < utc_date now) = False"
    using u(3) by (auto split: option.splits)
  note out = assms [unfolded def Let_def case_prod_beta option.case u this, simplified u(2,4,5), simplified]
  show thesis
    by (rule that [OF u]; use out in
      \<open>auto simp: commit_world_def commit_def logged_in_def set_user_def split: if_splits\<close>)
qed

lemma verify_login_Inl:
  assumes "verify_login R C c r now body client header w = (Inl e, w')"
  shows "users (w_db w') = users (w_db w) \<and> sessions (w_db w') = sessions (w_db w) \<and>
    e \<in> {generic_error, IntegrityError} \<and>
    (audit_logs (w_db w') = audit_logs (w_db w) \<or>
     (\<exists>a. audit_logs (w_db w') = audit_logs (w_db w) @ [a] \<and> action a = audit_value LOGIN_FAILED \<and> \<not> success a))"
  using assms
  by (auto simp: verify_login_def Let_def case_prod_beta commit_world_def commit_def login_failed_row_def audit_row_def
      split: option.splits if_splits sum.splits)

section \<open>Properties\<close>

text \<open>A registered user and the credentials that log this user in.\<close>

definition demo_user :: user where
  "demo_user = \<lparr>u_id = 1, u_created_at = 0, phone_number = ''+201001234567'', full_name = ''A'', username = None,
     department = None, fcm_token = None, hashed_military_id = ''AB12'', hashed_password = [],
     device_fingerprint = None, token_version = 4, u_status = ''active'', u_role = ''soldier'', expiry_date = None,
     last_seen_at = None, is_online = False, u_avatar_object_key = None, mfa_enabled = False\<rparr>"

definition demo_db :: db where
  "demo_db = empty_db\<lparr>users := [demo_user]\<rparr>"

definition demo_body :: verify_in where
  "demo_body = \<lparr>vi_phone_number = ''+201001234567'', vi_otp_code = ''777777'', vi_military_id = '' AB12 '',
     vi_device_fingerprint = ''fingerprint-of-device''\<rparr>"

definition demo_draws :: login_draws where
  "demo_draws = \<lparr>ld_jti = ''j'', ld_refresh = ''r'', ld_session = 11, ld_audit = 12, ld_audit2 = 13\<rparr>"

definition demo_world :: "store world" where
  "demo_world = \<lparr>w_db = demo_db, w_otp = snd (issue ref_redis settings_defaults (\<lambda>_. 7) 1 Map.empty),
     w_sess = Map.empty, w_pub = []\<rparr>"

definition demo_login :: "verify_out res \<times> store world" where
  "demo_login = verify_login ref_redis plain_crypto settings_defaults demo_draws 1000000 demo_body None None demo_world"

lemmas integrity_defs = integrity_def users_ok_def sessions_ok_def messages_ok_def members_ok_def
  requests_ok_def broadcasts_ok_def acks_ok_def audit_ok_def unique_on_def

lemma demo_integrity: "integrity demo_db"
  by (simp add: demo_db_def empty_db_def integrity_defs)

lemma demo_otp_typed: "otp_typed ref_strs ref_members 1 (w_otp demo_world)"
  by (simp add: demo_world_def ref.otp_typed_issue demo_typed)

lemma demo_otp_ok: "fst (verify ref_redis settings_defaults 1 ''777777'' (w_otp demo_world))"
  using ref.verify_result [OF demo_otp_typed, of settings_defaults "''777777''"]
    ref.strs_issue [OF demo_typed, of settings_defaults "\<lambda>_. 7" 1] demo_issue
  by (simp add: demo_world_def key_simps)

lemma demo_military_ok: "verify_military_id plain_crypto (vi_military_id demo_body) (hashed_military_id demo_user)"
  by code_simp

lemma demo_login_ok: "\<exists>out w'. demo_login = (Inr out, w')"
proof -
  have u: "scalar (\<lambda>u. phone_number u = vi_phone_number demo_body) (users (w_db demo_world)) = Some demo_user"
    by (simp add: demo_world_def demo_db_def demo_body_def demo_user_def)
  have "u_status demo_user = ''active''" "expiry_date demo_user = None" "device_fingerprint demo_user = None"
    "u_id demo_user = 1" "vi_otp_code demo_body = ''777777''"
    by (simp_all add: demo_user_def demo_body_def)
  with u demo_otp_ok demo_military_ok show ?thesis
    by (simp add: demo_login_def verify_login_def case_prod_beta)
      (simp add: demo_world_def demo_db_def demo_draws_def empty_db_def integrity_defs set_user_def update_where_def
        demo_user_def demo_body_def login_session_def audit_row_def Let_def)
qed

text \<open>
  C2. A login invalidates every earlier token of the user: whatever token was minted for
  this user with a version up to the one before the login is refused at all times, while the
  token the login returns is accepted until it expires.
\<close>

theorem login_invalidates_tokens:
  assumes "crypto_laws C" and "TOKEN_ALGORITHM c \<in> set hmac_algorithms" and "integrity (w_db w)"
    and "verify_login R C c r now body client header w = (Inr out, w')"
    and "scalar (\<lambda>u. phone_number u = vi_phone_number body) (users (w_db w)) = Some u"
  shows "(\<forall>ver role t jti later. ver \<le> token_version u \<longrightarrow>
      get_current_user C c later (Some (create_access_token C c t jti (u_id u) ver role [])) (w_db w') =
        Inl CREDENTIALS_ERROR) \<and>
    (\<forall>later\<le>now + seconds (60 * ACCESS_TOKEN_EXPIRE_MINUTES c).
      get_current_user C c later (Some (access_token out)) (w_db w') = Inr (logged_in now body u))"
proof -
  have by_id: "user_by_id (w_db w) (u_id u) = Some u" using assms(3,5) by (rule user_by_phone)
  from assms(4) obtain v where "scalar (\<lambda>u. phone_number u = vi_phone_number body) (users (w_db w)) = Some v"
    and st: "u_status v = status_value ACTIVE"
    and us: "users (w_db w') = users (set_user (logged_in now body v) (w_db w))"
    and tok: "access_token out = create_access_token C c now (ld_jti r) (u_id v) (token_version v + 1) (u_role v) []"
    by (rule verify_login_Inr)
  moreover from this have v: "v = u" using assms(5) by simp
  ultimately have now': "user_by_id (w_db w') (u_id u) = Some (logged_in now body u)"
    using by_id user_by_id_set_user [of "logged_in now body u" "w_db w" "u_id u"]
    by (simp add: user_by_id_def logged_in_def)
  have "\<not> x div seconds 1 < y div seconds 1" if "y \<le> x" for x y
    using that zdiv_mono1 [of y x "seconds 1"] by (simp add: seconds_def)
  with now' st tok v show ?thesis
    by (simp add: get_current_user_token [OF assms(1,2)] logged_in_def)
qed

theorem login_invalidates_tokens_witness:
  "\<exists>out w'. demo_login = (Inr out, w') \<and>
     get_current_user plain_crypto settings_defaults 5000000
       (Some (create_access_token plain_crypto settings_defaults 0 ''k'' 1 4 ''soldier'' [])) (w_db w') =
       Inl CREDENTIALS_ERROR \<and>
     get_current_user plain_crypto settings_defaults 5000000 (Some (access_token out)) (w_db w') =
       Inr (logged_in 1000000 demo_body demo_user)"
proof -
  have u: "scalar (\<lambda>u. phone_number u = vi_phone_number demo_body) (users (w_db demo_world)) = Some demo_user"
    by (simp add: demo_world_def demo_db_def demo_body_def demo_user_def)
  have a: "TOKEN_ALGORITHM settings_defaults \<in> set hmac_algorithms"
    by (simp add: settings_defaults_def hmac_algorithms_def)
  have d: "integrity (w_db demo_world)" by (simp add: demo_world_def demo_integrity)
  obtain out w' where l: "demo_login = (Inr out, w')" using demo_login_ok by blast
  show ?thesis
    using login_invalidates_tokens [OF plain_crypto_laws a d l [unfolded demo_login_def] u] l
    by (intro exI [of _ out] exI [of _ w']) (simp add: demo_user_def seconds_def)
qed

text \<open>
  C3. A login succeeds only with an unexpired, active account, the outstanding code and the
  right military id; it appends exactly one session, which belongs to that user, and changes
  no other user.
\<close>

theorem login_sound:
  assumes "verify_login R C c r now body client header w = (Inr out, w')"
  shows "\<exists>u. u \<in> set (users (w_db w)) \<and> phone_number u = vi_phone_number body \<and>
    u_status u = status_value ACTIVE \<and> (\<forall>day. expiry_date u = Some day \<longrightarrow> utc_date now \<le> day) \<and>
    fst (verify R c (u_id u) (vi_otp_code body) (w_otp w)) \<and>
    verify_military_id C (vi_military_id body) (hashed_military_id u) \<and>
    (\<exists>s. sessions (w_db w') = sessions (w_db w) @ [s] \<and> s_user_id s = u_id u \<and> revoked_at s = None) \<and>
    (\<forall>i. i \<noteq> u_id u \<longrightarrow> user_by_id (w_db w') i = user_by_id (w_db w) i)"
proof -
  from assms obtain u where u: "scalar (\<lambda>u. phone_number u = vi_phone_number body) (users (w_db w)) = Some u"
    "u_status u = status_value ACTIVE" "\<forall>day. expiry_date u = Some day \<longrightarrow> utc_date now \<le> day"
    "fst (verify R c (u_id u) (vi_otp_code body) (w_otp w))"
    "verify_military_id C (vi_military_id body) (hashed_military_id u)"
    and us: "users (w_db w') = users (set_user (logged_in now body u) (w_db w))"
    and ss: "sessions (w_db w') = sessions (w_db w) @ [login_session C c r now (u_id u)
        (case client of None \<Rightarrow> ''unknown'' | Some h \<Rightarrow> h) (take 512 (case header of None \<Rightarrow> [] | Some h \<Rightarrow> h))]"
    by (rule verify_login_Inr)
  have "user_by_id (w_db w') i = user_by_id (w_db w) i" if "i \<noteq> u_id u" for i
    using that us user_by_id_set_user [of "logged_in now body u" "w_db w" i]
    by (simp add: user_by_id_def logged_in_def)
  moreover have "u \<in> set (users (w_db w)) \<and> phone_number u = vi_phone_number body"
    using find_SomeD [OF u(1)] .
  ultimately show ?thesis using u ss by (intro exI [of _ u]) (auto simp: login_session_def)
qed

theorem login_sound_witness:
  "\<exists>out w'. demo_login = (Inr out, w') \<and>
     (\<exists>u. u \<in> set (users (w_db demo_world)) \<and>
        (\<exists>s. sessions (w_db w') = sessions (w_db demo_world) @ [s] \<and> s_user_id s = u_id u))"
proof -
  obtain out w' where l: "demo_login = (Inr out, w')" using demo_login_ok by blast
  then show ?thesis using login_sound [OF l [unfolded demo_login_def]] by blast
qed

text \<open>
  A refused login changes no user and no session; the only trace it may leave in the
  database is one audit row that records the failure.
\<close>

theorem login_refused_frame:
  assumes "verify_login R C c r now body client header w = (Inl e, w')"
  shows "users (w_db w') = users (w_db w) \<and> sessions (w_db w') = sessions (w_db w) \<and>
    e \<in> {generic_error, IntegrityError} \<and>
    (audit_logs (w_db w') = audit_logs (w_db w) \<or>
     (\<exists>a. audit_logs (w_db w') = audit_logs (w_db w) @ [a] \<and> action a = audit_value LOGIN_FAILED \<and> \<not> success a))"
  using assms by (rule verify_login_Inl)

theorem login_refused_frame_witness:
  "\<exists>w'. verify_login ref_redis plain_crypto settings_defaults demo_draws 1000000
       (demo_body\<lparr>vi_phone_number := ''+100000000''\<rparr>) None None demo_world = (Inl generic_error, w') \<and>
     users (w_db w') = users (w_db demo_world)"
proof -
  have l: "verify_login ref_redis plain_crypto settings_defaults demo_draws 1000000
      (demo_body\<lparr>vi_phone_number := ''+100000000''\<rparr>) None None demo_world = (Inl generic_error, demo_world)"
    by (simp add: verify_login_def demo_world_def demo_db_def demo_user_def demo_body_def)
  from login_refused_frame [OF l] l show ?thesis by blast
qed

text \<open>
  C5. No enumeration of users in development: the answer to a request for a code depends on
  the limiter only, so two databases, whatever numbers they hold, give the same answer.
\<close>

theorem request_otp_uniform:
  assumes "ENV c = ''development''" and "w_otp w = w_otp w'"
  shows "fst (request_otp R c draw phone client w) = fst (request_otp R c draw phone client w')"
  by (simp add: request_otp_fst [OF assms(1)] assms(2))

theorem request_otp_uniform_witness:
  "fst (request_otp ref_redis settings_defaults (\<lambda>_. 7) ''+201001234567'' None (demo_world\<lparr>w_db := empty_db\<rparr>)) =
   fst (request_otp ref_redis settings_defaults (\<lambda>_. 7) ''+201001234567'' None demo_world)"
  by (rule request_otp_uniform) simp_all

lemma demo_rate_typed: "rate_typed ref_strs ref_members (2 ^ 62) phone Map.empty"
  by (simp add: rate_typed_def ref_defs)

text \<open>
  C6. SMS bombing. The limiter counts in a fixed window of an hour that starts with the first counted
  request. In every sequence of requests for one number, from any addresses, that spans less than an
  hour, at most twice \<open>OTP_MAX_PER_HOUR\<close> are admitted, because one window may end and the next begin on
  the way; if no request for the number is counted at the start, at most \<open>OTP_MAX_PER_HOUR\<close> are.
\<close>

theorem otp_requests_per_hour:
  assumes "redis R strs members ttl" and "rate_typed strs members (2 ^ 62) phone s"
    and "length evs < 2 ^ 62" and "paused evs < 3600 * 1000"
  shows "int (count_list (fst (request_run R phone evs s)) True) \<le> 2 * OTP_MAX_PER_HOUR \<and>
    (strs s (hourly_key phone) = None \<longrightarrow>
      int (count_list (fst (request_run R phone evs s)) True) \<le> OTP_MAX_PER_HOUR)"
proof (intro conjI impI)
  have counted: "0 \<le> count_of (strs s (hourly_key phone))"
    using assms(2) by (auto simp: rate_typed_def counter_below_iff)
  from redis.request_run_two_windows [OF assms(1) counted assms(2)] assms(3,4)
  show "int (count_list (fst (request_run R phone evs s)) True) \<le> 2 * OTP_MAX_PER_HOUR"
    by (simp add: OTP_MAX_PER_HOUR_def)
next
  assume "strs s (hourly_key phone) = None"
  then have "window_inv strs ttl phone 0 (paused evs) s" by (simp add: window_inv_def)
  from redis.request_run_bound [OF assms(1) this assms(2)] assms(3,4)
  show "int (count_list (fst (request_run R phone evs s)) True) \<le> OTP_MAX_PER_HOUR"
    by (simp add: OTP_MAX_PER_HOUR_def)
qed

abbreviation demo_requests :: "request_event list" where
  "demo_requests \<equiv> [Request ''10.0.0.1'', Pause 60000, Request ''10.0.0.2'', Pause 60000, Request ''10.0.0.3'', Pause 60000,
     Request ''10.0.0.1'', Pause 60000, Request ''10.0.0.1'', Pause 60000, Request ''10.0.0.1'', Pause 60000, Request ''10.0.0.1'']"

theorem otp_requests_per_hour_witness:
  "int (count_list (fst (request_run ref_redis ''+201001234567'' demo_requests Map.empty)) True) \<le> 5"
proof -
  have "int (count_list (fst (request_run ref_redis ''+201001234567'' demo_requests Map.empty)) True) \<le> OTP_MAX_PER_HOUR"
    by (rule otp_requests_per_hour [OF ref.redis_axioms demo_rate_typed, THEN conjunct2, THEN mp]) (simp_all add: ref_strs_def)
  then show ?thesis by (simp only: OTP_MAX_PER_HOUR_def)
qed

text \<open>After an admitted request every request for that number within a minute is refused with status 429.\<close>

theorem otp_cooldown:
  assumes "redis R strs members ttl" and "rate_typed strs members b phone s" and "0 < b" "b < incr_limit"
    and "rate_limit_otp R phone ip s = (Inr n, s1)" and "ms < 60 * 1000"
  shows "\<exists>m. fst (rate_limit_otp R phone ip' (r_elapse R ms s1)) = Inl (HTTPException 429 m)"
proof -
  have "isl (fst (rate_limit_otp R phone ip' (r_elapse R ms s1)))"
    using redis.cooldown_refuses [OF assms(1,2,4,3), of ip ms "r_elapse R ms s1" ip'] assms(5,6) by simp
  then obtain e where "fst (rate_limit_otp R phone ip' (r_elapse R ms s1)) = Inl e" by (auto simp: isl_def)
  with redis_values.rate_limit_429 [OF redis.axioms(1) [OF assms(1)]] show ?thesis by blast
qed

theorem otp_cooldown_witness:
  "\<exists>m. fst (rate_limit_otp ref_redis ''+201001234567'' ''10.0.0.2''
     (r_elapse ref_redis 59999 (snd (rate_limit_otp ref_redis ''+201001234567'' ''10.0.0.1'' Map.empty)))) =
     Inl (HTTPException 429 m)"
proof -
  have "rate_limit_otp ref_redis ''+201001234567'' ''10.0.0.1'' Map.empty =
    (Inr 60, snd (rate_limit_otp ref_redis ''+201001234567'' ''10.0.0.1'' Map.empty))"
    by (simp add: rate_limit_otp_def ref_defs key_simps OTP_MAX_PER_HOUR_def OTP_COOLDOWN_SECONDS_def)
  from otp_cooldown [OF ref.redis_axioms demo_rate_typed _ _ this] show ?thesis by simp
qed

definition ticket_free :: "('s \<Rightarrow> string \<Rightarrow> string fset) \<Rightarrow> string \<Rightarrow> 's \<Rightarrow> bool" where
  "ticket_free members tok s \<longleftrightarrow> members s (ticket_key tok) = {||}"

context redis
begin

lemma redeem_fst:
  "ticket_free members tok s \<Longrightarrow> fst (redeem_ticket R tok s) =
    (case strs s (ticket_key tok) of None \<Rightarrow> Inr None
     | Some raw \<Rightarrow> (case uuid_parse raw of None \<Rightarrow> Inl (ValueError ''badly formed hexadecimal UUID string'')
         | Some u \<Rightarrow> Inr (Some u)))"
  by (auto simp: redeem_ticket_def ticket_free_def getdel [symmetric] case_prod_beta prod_eq_iff split: prod.splits option.splits)

lemma redeem_snd:
  "ticket_free members tok s \<Longrightarrow> snd (redeem_ticket R tok s) = snd (r_getdel R (ticket_key tok) s)"
  by (auto simp: redeem_ticket_def split: prod.splits option.splits)

lemma ticket_free_step:
  "ticket_free members tok s \<Longrightarrow> ticket_free members tok (r_elapse R ms s)"
  "ticket_free members tok s \<Longrightarrow> ticket_free members tok (snd (redeem_ticket R tok s))"
  "ticket_free members tok s \<Longrightarrow> ticket_free members tok (snd (create_ws_ticket R tok u s))"
  by (auto simp: ticket_free_def elapse_laws redeem_snd value_laws create_ws_ticket_def split: option.splits)

lemma ticket_after:
  assumes "ticket_free members tok s"
  shows "strs (r_elapse R ms (snd (create_ws_ticket R tok u s))) (ticket_key tok) =
    (if ms < 30000 then Some (uuid_str (u_id u)) else None)"
  using assms
  by (auto simp: ticket_free_def elapse_laws create_ws_ticket_def value_laws ttl_laws WS_TICKET_TTL_SECONDS_def)

lemma ticket_used:
  assumes "ticket_free members tok s"
  shows "strs (snd (redeem_ticket R tok s)) (ticket_key tok) = None"
  using assms by (simp add: redeem_snd) (simp add: ticket_free_def value_laws)

end

text \<open>
  C7. A WebSocket ticket identifies its owner for less than 30 seconds and once: redeemed in
  time it yields the owner's id, redeemed again or late it yields nothing.
\<close>

theorem ws_ticket_once:
  assumes "redis R strs members ttl" and "ticket_free members tok s"
    and "create_ws_ticket R tok user s = (out, s1)" and "redeem_ticket R tok (r_elapse R ms s1) = (res, s2)"
  shows "res = Inr (if ms < 30 * 1000 then Some (u_id user) else None) \<and>
    fst (redeem_ticket R tok s2) = Inr None"
proof -
  have f: "ticket_free members tok (r_elapse R ms s1)"
    using redis.ticket_free_step(1,3) [OF assms(1)] assms(2,3) by (metis snd_conv)
  have a: "strs (r_elapse R ms s1) (ticket_key tok) = (if ms < 30000 then Some (uuid_str (u_id user)) else None)"
    using redis.ticket_after [OF assms(1,2), of ms user] assms(3) by simp
  have f2: "ticket_free members tok s2" and u: "strs s2 (ticket_key tok) = None"
    using redis.ticket_free_step(2) [OF assms(1) f] redis.ticket_used [OF assms(1) f] assms(4) by simp_all
  show ?thesis
    using redis.redeem_fst [OF assms(1) f] redis.redeem_fst [OF assms(1) f2] a u assms(4) by simp
qed

theorem ws_ticket_once_witness:
  "let s1 = snd (create_ws_ticket ref_redis ''tok'' demo_user Map.empty);
       (res, s2) = redeem_ticket ref_redis ''tok'' (r_elapse ref_redis 29999 s1)
   in res = Inr (Some 1) \<and> fst (redeem_ticket ref_redis ''tok'' s2) = Inr None"
proof -
  have "ticket_free ref_members ''tok'' Map.empty" by (simp add: ticket_free_def ref_defs)
  from ws_ticket_once [OF ref.redis_axioms this surjective_pairing surjective_pairing, of 29999 demo_user]
  show ?thesis by (simp add: case_prod_beta Let_def demo_user_def)
qed

text \<open>
  Revoking a session: a caller can only revoke a live session of its own, which then
  leaves the list of active sessions; every other session keeps its state, and any other id
  is answered with 404 and changes nothing.
\<close>

theorem revoke_session_own:
  assumes "integrity (w_db w)" and "revoke_session aid now sid user w = (r, w')"
  shows "case r of
      Inr _ \<Rightarrow> (\<exists>s\<in>set (sessions (w_db w)). s_id s = sid \<and> s_user_id s = u_id user \<and> revoked_at s = None) \<and>
        sessions (w_db w') = map (\<lambda>s. if s_id s = sid then s\<lparr>revoked_at := Some now\<rparr> else s) (sessions (w_db w)) \<and>
        sid \<notin> s_id ` set (list_sessions t user (w_db w'))
    | Inl e \<Rightarrow> w' = w \<and> (e = IntegrityError \<or> e = HTTPException 404 ''session not found'' \<and>
        (\<forall>s\<in>set (sessions (w_db w)). s_id s = sid \<longrightarrow> s_user_id s \<noteq> u_id user \<or> revoked_at s \<noteq> None))"
proof (cases "scalar (\<lambda>s. s_id s = sid \<and> s_user_id s = u_id user \<and> revoked_at s = None) (sessions (w_db w))")
  case None
  with assms(2) show ?thesis by (auto simp: revoke_session_def find_None_iff)
next
  case (Some s)
  note D = find_SomeD [OF Some]
  show ?thesis
  proof (cases r)
    case (Inl e)
    with assms(2) Some D show ?thesis
      by (auto simp: revoke_session_def commit_world_def commit_def Let_def split: if_splits)
  next
    case (Inr x)
    with assms(2) Some D have upd:
      "sessions (w_db w') = map (\<lambda>s. if s_id s = sid then s\<lparr>revoked_at := Some now\<rparr> else s) (sessions (w_db w))"
      by (auto simp: revoke_session_def commit_world_def commit_def Let_def update_where_def split: if_splits)
    have "revoked_at y \<noteq> None" if "y \<in> set (sessions (w_db w'))" "s_id y = sid" for y
      using that unfolding upd set_map by (elim imageE) (simp split: if_splits)
    then have "sid \<notin> s_id ` set (list_sessions t user (w_db w'))"
      unfolding list_sessions_def set_rev set_sort set_filter by blast
    with upd D Inr show ?thesis by (simp, blast)
  qed
qed

theorem revoke_session_own_witness:
  "let d = demo_db\<lparr>sessions := [login_session plain_crypto settings_defaults demo_draws 0 1 [] []]\<rparr>
   in \<exists>w'. revoke_session 5 9 11 demo_user (demo_world\<lparr>w_db := d\<rparr>) = (Inr (), w') \<and>
        11 \<notin> s_id ` set (list_sessions 9 demo_user (w_db w'))"
proof -
  define w where "w = demo_world\<lparr>w_db := demo_db\<lparr>sessions := [login_session plain_crypto settings_defaults demo_draws 0 1 [] []]\<rparr>\<rparr>"
  have i: "integrity (w_db w)"
    by (simp add: w_def demo_db_def empty_db_def demo_user_def login_session_def integrity_defs)
  have "fst (revoke_session 5 9 11 demo_user w) = Inr ()"
    by (simp add: revoke_session_def w_def Let_def demo_draws_def login_session_def demo_user_def)
      (simp add: demo_db_def empty_db_def audit_row_def integrity_defs update_where_def demo_user_def)
  then obtain w' where "revoke_session 5 9 11 demo_user w = (Inr (), w')" by (metis surjective_pairing)
  with revoke_session_own [OF i this, of 9] show ?thesis by (simp add: w_def Let_def)
qed

end
