(* ===== verification/Websocket.thy ===== *)
theory Websocket
  imports Auth Message_Service Ws_Manager Push
begin

text \<open>
  \<^verbatim>\<open>app/api/routes/websocket.py\<close>: the chat socket, from redeeming the ticket to
  unregistering the connection, and the dispatcher of incoming frames. The state of a socket
  is the shared world, the push service and the frames sent back to the client. A frame is
  the parsed JSON value; what the handler puts into message columns must have the column's
  type, otherwise the driver raises.
\<close>

section \<open>Identifiers in frames\<close>

definition uuid_or_none :: "json \<Rightarrow> uuid option" where
  "uuid_or_none v = uuid_parse (py_str v)"

section \<open>Frames\<close>

record 's sock =
  k_world :: "'s world"
  k_push :: push_state
  k_out :: "payload list"

definition send_json :: "payload \<Rightarrow> 's sock \<Rightarrow> 's sock" where
  "send_json p k = k\<lparr>k_out := k_out k @ [p]\<rparr>"

definition on_world :: "('s world \<Rightarrow> 's world) \<Rightarrow> 's sock \<Rightarrow> 's sock" where
  "on_world f k = k\<lparr>k_world := f (k_world k)\<rparr>"

text \<open>The values a frame supplies for text and integer columns.\<close>

definition text_column :: "json \<Rightarrow> string option res" where
  "text_column v = (case v of JNull \<Rightarrow> Inr None | JStr s \<Rightarrow> Inr (Some s) | _ \<Rightarrow> Inl DataError)"

definition int_column :: "json \<Rightarrow> int option res" where
  "int_column v = (case v of
     JNull \<Rightarrow> Inr None
   | JInt n \<Rightarrow> if - (2 ^ 31) \<le> n \<and> n < 2 ^ 31 then Inr (Some n) else Inl DataError
   | JBool b \<Rightarrow> Inr (Some (if b then 1 else 0))
   | _ \<Rightarrow> Inl TypeError)"

definition frame_message :: "uuid \<Rightarrow> uuid \<Rightarrow> string \<Rightarrow> payload \<Rightarrow> message_in res" where
  "frame_message user_id to frame_type frame =
     (case int_column (jget frame ''destruct_after'') of Inl e \<Rightarrow> Inl e
      | Inr da \<Rightarrow> (case text_column (jget frame ''content'') of Inl e \<Rightarrow> Inl e
      | Inr content \<Rightarrow> (case text_column (jget frame ''media_key'') of Inl e \<Rightarrow> Inl e
      | Inr mk \<Rightarrow> (case text_column (jget frame ''media_mime'') of Inl e \<Rightarrow> Inl e
      | Inr mm \<Rightarrow> Inr \<lparr>mi_sender = user_id, mi_recipient = Some to, mi_group = None, mi_type = frame_type,
            mi_content = content, mi_media_key = mk, mi_media_mime = mm, mi_destruct_after = da\<rparr>))))"

text \<open>The id and the two clock readings a stored message takes.\<close>

record frame_draws =
  fd_id :: uuid
  fd_created :: instant
  fd_now :: instant

text \<open>The push to an offline recipient.\<close>

definition offline_push ::
  "'s redis \<Rightarrow> firebase \<Rightarrow> settings \<Rightarrow> uuid \<Rightarrow> uuid \<Rightarrow> string \<Rightarrow> payload \<Rightarrow> ('s sock, unit) handler" where
  "offline_push R F c user_id to frame_type frame k =
     (if is_user_online R to (w_sess (k_world k)) then (Inr (), k)
      else
        case (user_by_id (w_db (k_world k)) to, user_by_id (w_db (k_world k)) user_id) of
          (Some recipient, Some sender) \<Rightarrow>
            (case fcm_token recipient of
               None \<Rightarrow> (Inr (), k)
             | Some token \<Rightarrow>
                 if token = [] then (Inr (), k)
                 else
                   let preview = (case jget frame ''content'' of JStr s \<Rightarrow> (if s = [] then ''['' @ frame_type @ '']'' else s)
                                  | _ \<Rightarrow> ''['' @ frame_type @ '']'');
                       (r, ps) = send_message_push F c token (full_name sender) preview (uuid_str user_id) (k_push k)
                   in (r, k\<lparr>k_push := ps\<rparr>))
        | _ \<Rightarrow> (Inr (), k))"

definition handle_content ::
  "'s redis \<Rightarrow> firebase \<Rightarrow> settings \<Rightarrow> frame_draws \<Rightarrow> uuid \<Rightarrow> string \<Rightarrow> payload \<Rightarrow> ('s sock, unit) handler" where
  "handle_content R F c fd user_id frame_type frame k =
     (case uuid_or_none (jget frame ''to'') of
        None \<Rightarrow> (Inr (), send_json [(''type'', JStr ''error''), (''detail'', JStr (''missing/invalid '' @ [CHR 39] @ ''to'' @ [CHR 39]))] k)
      | Some to \<Rightarrow>
          (case frame_message user_id to frame_type frame of
             Inl e \<Rightarrow> (Inl e, k)
           | Inr b \<Rightarrow>
               (case save_message (fd_id fd) (fd_created fd) (fd_now fd) b (w_db (k_world k)) of
                  (Inl e, d1) \<Rightarrow> (Inl e, on_world (\<lambda>w. w\<lparr>w_db := d1\<rparr>) k)
                | (Inr msg, d1) \<Rightarrow>
                    (case offline_push R F c user_id to frame_type frame (on_world (\<lambda>w. w\<lparr>w_db := d1\<rparr>) k) of
                       (Inl e, k1) \<Rightarrow> (Inl e, k1)
                     | (Inr _, k1) \<Rightarrow>
                         let created = JStr (isoformat (m_created_at msg));
                             k2 = send_json [(''type'', JStr ''ack''), (''client_ref'', jget frame ''client_ref''),
                                    (''message_id'', JStr (uuid_str (m_id msg))), (''created_at'', created)] k1;
                             k3 = on_world (publish to [(''type'', JStr ''message''), (''message_id'', JStr (uuid_str (m_id msg))),
                                    (''message_type'', JStr frame_type), (''from'', JStr (uuid_str user_id)),
                                    (''content'', jget frame ''content''), (''media_key'', jget frame ''media_key''),
                                    (''media_mime'', jget frame ''media_mime''), (''created_at'', created)]) k2
                         in (Inr (), k3)))))"

definition handle_receipt :: "instant \<Rightarrow> uuid \<Rightarrow> string \<Rightarrow> payload \<Rightarrow> ('s sock, unit) handler" where
  "handle_receipt now user_id frame_type frame k =
     (case uuid_or_none (jget frame ''message_id'') of
        None \<Rightarrow> (Inr (), k)
      | Some message_id \<Rightarrow>
          (case (if frame_type = ''message_delivered'' then mark_delivered now message_id user_id (w_db (k_world k))
                 else mark_read now message_id user_id (w_db (k_world k))) of
             (Inl e, d1) \<Rightarrow> (Inl e, on_world (\<lambda>w. w\<lparr>w_db := d1\<rparr>) k)
           | (Inr msg, d1) \<Rightarrow>
               let k1 = on_world (\<lambda>w. w\<lparr>w_db := d1\<rparr>) k
               in (case (case msg of None \<Rightarrow> None | Some m \<Rightarrow> sender_id m) of
                     None \<Rightarrow> (Inr (), k1)
                   | Some sender \<Rightarrow>
                       (Inr (), on_world (publish sender [(''type'', JStr ''receipt''), (''message_id'', JStr (uuid_str message_id)),
                          (''status'', JStr (if frame_type = ''message_read'' then ''read'' else ''delivered''))]) k1))))"

definition handle_unsend :: "instant \<Rightarrow> uuid \<Rightarrow> payload \<Rightarrow> ('s sock, unit) handler" where
  "handle_unsend now user_id frame k =
     (case uuid_or_none (jget frame ''message_id'') of
        None \<Rightarrow> (Inr (), k)
      | Some message_id \<Rightarrow>
          (case unsend_message now message_id user_id (w_db (k_world k)) of
             (Inl (UnsendDenied reason), d1) \<Rightarrow> (Inr (), send_json [(''type'', JStr ''error''), (''detail'', JStr reason)] k)
           | (Inl e, d1) \<Rightarrow> (Inl e, on_world (\<lambda>w. w\<lparr>w_db := d1\<rparr>) k)
           | (Inr msg, d1) \<Rightarrow>
               let event = [(''type'', JStr ''unsend''), (''message_id'', JStr (uuid_str message_id))];
                   k1 = on_world (\<lambda>w. w\<lparr>w_db := d1\<rparr>) k;
                   k2 = (case recipient_id msg of None \<Rightarrow> k1 | Some r \<Rightarrow> on_world (publish r event) k1)
               in (Inr (), on_world (publish user_id event) k2)))"

definition handle_frame ::
  "'s redis \<Rightarrow> firebase \<Rightarrow> settings \<Rightarrow> frame_draws \<Rightarrow> uuid \<Rightarrow> string \<Rightarrow> json \<Rightarrow> ('s sock, unit) handler" where
  "handle_frame R F c fd user_id connection_id v k =
     (case v of
        JObj frame \<Rightarrow>
          (case jget frame ''type'' of
             JStr t \<Rightarrow>
               if t = ''ping'' then
                 (Inr (), send_json [(''type'', JStr ''pong'')]
                    (on_world (\<lambda>w. w\<lparr>w_sess := heartbeat R connection_id (w_sess w)\<rparr>) k))
               else if t = ''presence'' then
                 (Inr (), send_json [(''type'', JStr ''presence''),
                    (''online_users'', JInt (int (online_count R (w_sess (k_world k)))))] k)
               else if t \<in> {''typing_start'', ''typing_stop''} then
                 (case uuid_or_none (jget frame ''to'') of
                    None \<Rightarrow> (Inr (), k)
                  | Some to \<Rightarrow> (Inr (), on_world (publish to [(''type'', JStr t), (''from'', JStr (uuid_str user_id))]) k))
               else if t \<in> {''text'', ''image'', ''file''} then handle_content R F c fd user_id t frame k
               else if t \<in> {''message_delivered'', ''message_read''} then handle_receipt (fd_now fd) user_id t frame k
               else if t = ''unsend'' then handle_unsend (fd_now fd) user_id frame k
               else (Inr (), send_json [(''type'', JStr ''error''), (''detail'', JStr (''unsupported frame type: '' @ t))] k)
           | other \<Rightarrow> (Inr (), send_json [(''type'', JStr ''error''),
               (''detail'', JStr (''unsupported frame type: '' @ py_str other))] k))
      | _ \<Rightarrow> (Inl AttributeError, k))"

section \<open>The socket\<close>

text \<open>
  The loop over the received texts, until the client disconnects (the list ends) or a
  handler raises.
\<close>

fun receive_loop ::
  "'s redis \<Rightarrow> firebase \<Rightarrow> settings \<Rightarrow> uuid \<Rightarrow> string \<Rightarrow> (string \<times> frame_draws) list \<Rightarrow> ('s sock, unit) handler" where
  "receive_loop R F c user_id connection_id [] k = (Inr (), k)"
| "receive_loop R F c user_id connection_id ((raw, fd) # rest) k =
     (case loads raw of
        None \<Rightarrow> receive_loop R F c user_id connection_id rest
          (send_json [(''type'', JStr ''error''), (''detail'', JStr ''invalid JSON frame'')] k)
      | Some v \<Rightarrow>
          (case handle_frame R F c fd user_id connection_id v k of
             (Inl e, k1) \<Rightarrow> (Inl e, k1)
           | (Inr _, k1) \<Rightarrow> receive_loop R F c user_id connection_id rest k1))"

text \<open>
  The whole connection. \<open>None\<close> is the close with code 1008 for a ticket that is not valid or
  not between 16 and 64 characters long;
  the \<^verbatim>\<open>finally\<close> clause unregisters the connection on every other path.
\<close>

definition chat_socket ::
  "'s redis \<Rightarrow> firebase \<Rightarrow> settings \<Rightarrow> instant \<Rightarrow> string \<Rightarrow> string \<Rightarrow> (string \<times> frame_draws) list \<Rightarrow>
     ('s sock, unit option) handler" where
  "chat_socket R F c now connection_id tok received k =
     (if \<not> (16 \<le> length tok \<and> length tok \<le> 64) then (Inr None, k) else
      case redeem_ticket R tok (w_sess (k_world k)) of
        (Inl e, s1) \<Rightarrow> (Inl e, on_world (\<lambda>w. w\<lparr>w_sess := s1\<rparr>) k)
      | (Inr None, s1) \<Rightarrow> (Inr None, on_world (\<lambda>w. w\<lparr>w_sess := s1\<rparr>) k)
      | (Inr (Some user_id), s1) \<Rightarrow>
          let m1 = snd (register R now connection_id user_id () \<lparr>m_local = Map.empty, m_redis = s1\<rparr>);
              k1 = on_world (\<lambda>w. w\<lparr>w_sess := m_redis m1\<rparr>) k;
              k2 = send_json [(''type'', JStr ''welcome''), (''connection_id'', JStr connection_id),
                     (''online_users'', JInt (int (online_count R (w_sess (k_world k1))))),
                     (''server_time'', JStr (isoformat now))] k1;
              (res, k3) = receive_loop R F c user_id connection_id received k2;
              m2 = unregister R user_id connection_id (m1\<lparr>m_redis := w_sess (k_world k3)\<rparr>);
              k4 = on_world (\<lambda>w. w\<lparr>w_sess := m_redis m2\<rparr>) k3
          in (case res of Inl e \<Rightarrow> Inl e | Inr _ \<Rightarrow> Inr (Some ()), k4))"

section \<open>The relay\<close>

text \<open>
  What a subscription delivers, the confirmation of a subscription and published messages,
  and the frames the relay task of a connection sends on. An exception ends the relay.
\<close>

datatype pubsub_item = Subscribed string | Published string string

fun relay_loop :: "uuid \<Rightarrow> pubsub_item list \<Rightarrow> payload list" where
  "relay_loop user_id [] = []"
| "relay_loop user_id (Subscribed channel # items) = relay_loop user_id items"
| "relay_loop user_id (Published channel data # items) =
     (if channel \<notin> {user_channel user_id, BROADCAST_CHANNEL} then relay_loop user_id items
      else (case loads data of Some (JObj frame) \<Rightarrow> frame # relay_loop user_id items | _ \<Rightarrow> []))"

text \<open>A logged publication as the text on the channel.\<close>

definition on_channel :: "string \<times> payload \<Rightarrow> pubsub_item" where
  "on_channel p = Published (fst p) (dumps (JObj (snd p)))"

lemma relay_published:
  "list_all (\<lambda>p. jplain (JObj (snd p))) ps \<Longrightarrow>
   relay_loop u (map on_channel ps) = map snd (filter (\<lambda>p. fst p \<in> {user_channel u, BROADCAST_CHANNEL}) ps)"
  by (induction ps) (auto simp: on_channel_def loads_dumps simp del: dumps.simps jplain.simps)

section \<open>Frames and presence\<close>

lemma on_world_sel [simp]:
  "k_world (on_world f k) = f (k_world k)" "k_push (on_world f k) = k_push k" "k_out (on_world f k) = k_out k"
  "k_world (send_json p k) = k_world k" "k_push (send_json p k) = k_push k" "k_out (send_json p k) = k_out k @ [p]"
  by (simp_all add: on_world_def send_json_def)

lemma offline_push_world: "k_world (snd (offline_push R F c u to t f k)) = k_world k"
  and offline_push_out: "k_out (snd (offline_push R F c u to t f k)) = k_out k"
  by (simp_all add: offline_push_def Let_def case_prod_beta split: option.splits prod.splits)

lemma offline_pushD:
  "offline_push R F c u to t f k = (r, k1) \<Longrightarrow> k_world k1 = k_world k \<and> k_out k1 = k_out k"
  by (metis offline_push_out offline_push_world snd_conv)

text \<open>The registry of connections changes by heartbeats only.\<close>

lemma content_sess: "w_sess (k_world (snd (handle_content R F c fd u t f k))) = w_sess (k_world k)"
  by (simp add: handle_content_def Let_def split: option.split sum.split prod.split) (auto dest!: offline_pushD)

lemma receipt_sess: "w_sess (k_world (snd (handle_receipt now u t f k))) = w_sess (k_world k)"
  by (simp add: handle_receipt_def Let_def split: option.split sum.split prod.split)

lemma unsend_sess: "w_sess (k_world (snd (handle_unsend now u f k))) = w_sess (k_world k)"
  by (simp add: handle_unsend_def Let_def split: option.split sum.split prod.split error.split)

context redis_values
begin

lemma represents_frame:
  assumes "represents strs members P (w_sess (k_world k))"
  shows "represents strs members P (w_sess (k_world (snd (handle_frame R F c fd u con v k))))"
proof (cases v)
  case (JObj frame)
  show ?thesis
  proof (cases "jget frame ''type''")
    case (JStr t)
    with JObj assms represents_heartbeat [OF assms] show ?thesis
      by (simp add: handle_frame_def content_sess receipt_sess unsend_sess split: option.split)
  qed (use JObj assms in \<open>simp_all add: handle_frame_def\<close>)
qed (use assms in \<open>simp_all add: handle_frame_def\<close>)

lemma represents_loop:
  "represents strs members P (w_sess (k_world k)) \<Longrightarrow>
   represents strs members P (w_sess (k_world (snd (receive_loop R F c u con fs k))))"
proof (induction fs arbitrary: k)
  case (Cons f fs)
  obtain raw fd where f: "f = (raw, fd)" by (cases f)
  show ?case
  proof (cases "loads raw")
    case None
    with f Cons show ?thesis by simp
  next
    case (Some v)
    obtain r k1 where h: "handle_frame R F c fd u con v k = (r, k1)" by (cases "handle_frame R F c fd u con v k")
    with represents_frame [OF Cons.prems, of F c fd u con v]
    have "represents strs members P (w_sess (k_world k1))" by simp
    with Cons.IH h f Some show ?thesis by (cases r) simp_all
  qed
qed simp

end

text \<open>The frames a connection adds to the channels carry no sender or the user of the connection.\<close>

definition own_frames :: "uuid \<Rightarrow> 's world \<Rightarrow> 's world \<Rightarrow> bool" where
  "own_frames u w w' \<longleftrightarrow> (\<exists>new. w_pub w' = w_pub w @ new \<and> list_all (\<lambda>p. map_of (snd p) ''from'' \<in> {None, Some (JStr (uuid_str u))}) new)"

lemma own_frames_refl [simp]: "own_frames u w w"
  by (simp add: own_frames_def)

lemma own_frames_update [simp]:
  "own_frames u w (w'\<lparr>w_db := d\<rparr>) = own_frames u w w'" "own_frames u w (w'\<lparr>w_sess := s\<rparr>) = own_frames u w w'"
  by (simp_all add: own_frames_def)

lemma own_frames_publish [simp]:
  "own_frames u w w' \<Longrightarrow> map_of p ''from'' \<in> {None, Some (JStr (uuid_str u))} \<Longrightarrow> own_frames u w (publish v p w')"
  unfolding own_frames_def publish_sel
  by (erule exE, rule_tac x = "new @ [(user_channel v, p)]" in exI, simp)

lemma own_frames_trans: "own_frames u w w' \<Longrightarrow> own_frames u w' w'' \<Longrightarrow> own_frames u w w''"
  unfolding own_frames_def by (elim exE, rule_tac x = "new @ newa" in exI, simp)

lemma content_own: "own_frames u (k_world k) (k_world (snd (handle_content R F c fd u t f k)))"
proof (cases "uuid_or_none (jget f ''to'')")
  case None
  then show ?thesis by (simp add: handle_content_def)
next
  case to: (Some to)
  show ?thesis
  proof (cases "frame_message u to t f")
    case (Inl e)
    with to show ?thesis by (simp add: handle_content_def)
  next
    case b: (Inr b)
    obtain r d1 where s: "save_message (fd_id fd) (fd_created fd) (fd_now fd) b (w_db (k_world k)) = (r, d1)"
      by (cases "save_message (fd_id fd) (fd_created fd) (fd_now fd) b (w_db (k_world k))")
    let ?k = "on_world (\<lambda>w. w\<lparr>w_db := d1\<rparr>) k"
    obtain q k1 where o: "offline_push R F c u to t f ?k = (q, k1)" by (cases "offline_push R F c u to t f ?k")
    have "own_frames u (k_world k) (k_world k1)" using offline_pushD [OF o] by simp
    with to b s o show ?thesis by (cases r; cases q) (simp_all add: handle_content_def Let_def)
  qed
qed

lemma receipt_own: "own_frames u (k_world k) (k_world (snd (handle_receipt now u t f k)))"
  by (simp add: handle_receipt_def Let_def split: option.split sum.split prod.split)

lemma unsend_own: "own_frames u (k_world k) (k_world (snd (handle_unsend now u f k)))"
  by (simp add: handle_unsend_def Let_def split: option.split sum.split prod.split error.split)

lemma frame_own: "own_frames u (k_world k) (k_world (snd (handle_frame R F c fd u con v k)))"
proof (cases v)
  case (JObj frame)
  show ?thesis
  proof (cases "jget frame ''type''")
    case (JStr t)
    with JObj show ?thesis
      by (simp add: handle_frame_def content_own receipt_own unsend_own split: option.split)
  qed (simp_all add: handle_frame_def JObj)
qed (simp_all add: handle_frame_def)

lemma loop_own: "own_frames u (k_world k) (k_world (snd (receive_loop R F c u con fs k)))"
proof (induction fs arbitrary: k)
  case (Cons f fs)
  obtain raw fd where f: "f = (raw, fd)" by (cases f)
  show ?case
  proof (cases "loads raw")
    case None
    with f Cons [of "send_json _ k"] show ?thesis by simp
  next
    case (Some v)
    obtain r k1 where h: "handle_frame R F c fd u con v k = (r, k1)" by (cases "handle_frame R F c fd u con v k")
    have "own_frames u (k_world k) (k_world k1)" using frame_own [of u k R F c fd con v] h by simp
    with own_frames_trans [OF this Cons] h f Some show ?thesis by (cases r) simp_all
  qed
qed simp

lemma save_messageD:
  "save_message i created now b d = (Inr m, d1) \<Longrightarrow> messages d1 = messages d @ [m] \<and> m = new_message i created now b"
  by (auto simp: save_message_def commit_def Let_def split: if_splits)

section \<open>Properties\<close>

text \<open>
  C22. Messages: a content frame that is handled stores exactly one message, from the user of
  the connection to the addressee, with the content of the frame; it acknowledges that message
  to the sender; and the relay of every device of the addressee, and of nobody else, sends one
  message frame with the same id, content and sender.
\<close>

theorem message_delivered_live:
  assumes "handle_frame R F c fd u con (JObj frame) k = (Inr (), k')" and "jget frame ''type'' = JStr t"
    and "t \<in> {''text'', ''image'', ''file''}" and "uuid_or_none (jget frame ''to'') = Some to"
  shows "\<exists>msg ev ack new. messages (w_db (k_world k')) = messages (w_db (k_world k)) @ [msg] \<and> m_id msg = fd_id fd \<and>
    sender_id msg = Some u \<and> recipient_id msg = Some to \<and> text_column (jget frame ''content'') = Inr (content_ciphertext msg) \<and>
    k_out k' = k_out k @ [ack] \<and> jget ack ''type'' = JStr ''ack'' \<and> jget ack ''message_id'' = JStr (uuid_str (fd_id fd)) \<and>
    jget ack ''client_ref'' = jget frame ''client_ref'' \<and>
    w_pub (k_world k') = w_pub (k_world k) @ new \<and>
    (\<forall>v. relay_loop v (map on_channel new) = (if v = to then [ev] else [])) \<and>
    jget ev ''type'' = JStr ''message'' \<and> jget ev ''from'' = JStr (uuid_str u) \<and>
    jget ev ''message_id'' = JStr (uuid_str (fd_id fd)) \<and> jget ev ''content'' = jget frame ''content''"
proof -
  have h: "handle_content R F c fd u t frame k = (Inr (), k')" using assms(1-3) by (auto simp: handle_frame_def)
  obtain b where b: "frame_message u to t frame = Inr b"
    using h assms(4) by (cases "frame_message u to t frame") (simp_all add: handle_content_def)
  obtain r d1 where s: "save_message (fd_id fd) (fd_created fd) (fd_now fd) b (w_db (k_world k)) = (r, d1)"
    by (cases "save_message (fd_id fd) (fd_created fd) (fd_now fd) b (w_db (k_world k))")
  obtain msg where r: "r = Inr msg" using h assms(4) b s by (cases r) (simp_all add: handle_content_def)
  let ?k = "on_world (\<lambda>w. w\<lparr>w_db := d1\<rparr>) k"
  obtain q k1 where o: "offline_push R F c u to t frame ?k = (q, k1)" by (cases "offline_push R F c u to t frame ?k")
  have q: "q = Inr ()" using h assms(4) b s r o by (cases q) (simp_all add: handle_content_def)
  have k1: "k_world k1 = k_world ?k" "k_out k1 = k_out k" using offline_pushD [OF o] by simp_all
  have m: "messages d1 = messages (w_db (k_world k)) @ [msg]" "msg = new_message (fd_id fd) (fd_created fd) (fd_now fd) b"
    using save_messageD s r by blast+
  have cols: "mi_sender b = u" "mi_recipient b = Some to" "text_column (jget frame ''content'') = Inr (mi_content b)"
    "jplain (jget frame ''content'')" "jplain (jget frame ''media_key'')" "jplain (jget frame ''media_mime'')"
    using b by (auto simp: frame_message_def text_column_def split: sum.splits json.splits)
  define ev where "ev = [(''type'', JStr ''message''), (''message_id'', JStr (uuid_str (m_id msg))),
    (''message_type'', JStr t), (''from'', JStr (uuid_str u)), (''content'', jget frame ''content''),
    (''media_key'', jget frame ''media_key''), (''media_mime'', jget frame ''media_mime''),
    (''created_at'', JStr (isoformat (m_created_at msg)))]"
  define ack where "ack = [(''type'', JStr ''ack''), (''client_ref'', jget frame ''client_ref''),
    (''message_id'', JStr (uuid_str (m_id msg))), (''created_at'', JStr (isoformat (m_created_at msg)))]"
  have k': "k' = on_world (publish to ev) (send_json ack k1)"
    using h assms(4) b s r o q by (simp add: handle_content_def Let_def ev_def ack_def)
  have p: "list_all (\<lambda>p. jplain (JObj (snd p))) [(user_channel to, ev)]" using cols(4-6) by (simp add: ev_def)
  have "relay_loop v (map on_channel [(user_channel to, ev)]) = (if v = to then [ev] else [])" for v
    unfolding relay_published [OF p] by (auto simp: user_channel_def BROADCAST_CHANNEL_def)
  moreover have "w_pub (k_world k') = w_pub (k_world k) @ [(user_channel to, ev)]" "w_db (k_world k') = d1" "k_out k' = k_out k @ [ack]"
    by (simp_all add: k' k1)
  moreover have "m_id msg = fd_id fd" "sender_id msg = Some u" "recipient_id msg = Some to" "content_ciphertext msg = mi_content b"
    using cols(1,2) by (simp_all add: m(2) new_message_def)
  moreover have "jget ev ''type'' = JStr ''message''" "jget ev ''from'' = JStr (uuid_str u)"
    "jget ev ''message_id'' = JStr (uuid_str (m_id msg))" "jget ev ''content'' = jget frame ''content''"
    "jget ack ''type'' = JStr ''ack''" "jget ack ''message_id'' = JStr (uuid_str (m_id msg))"
    "jget ack ''client_ref'' = jget frame ''client_ref''"
    by (simp_all add: ev_def ack_def jget_def)
  ultimately show ?thesis
    by (intro exI [of _ msg] exI [of _ ev] exI [of _ ack] exI [of _ "[(user_channel to, ev)]"])
      (simp only: m(1) cols(3) simp_thms)
qed

text \<open>
  Nobody speaks for others: whatever texts a client sends on its connection, well formed or
  not and with whatever outcome, every frame published on its behalf that names a sender names
  the user the ticket belonged to.
\<close>

theorem no_spoofing:
  assumes "receive_loop R F c u con received k = (r, k')"
  shows "\<exists>new. w_pub (k_world k') = w_pub (k_world k) @ new \<and>
    (\<forall>p\<in>set new. map_of (snd p) ''from'' \<in> {None, Some (JStr (uuid_str u))})"
  using loop_own [of u k R F c con received] assms unfolding own_frames_def list_all_iff by simp

text \<open>A session: the connection is registered, the loop runs, and the connection is taken out again.\<close>

lemma represents_session:
  assumes "redis_values R strs members" and "represents strs members P s" and "\<And>v. (v, con) |\<notin>| P"
    and "m1 = snd (register R now con u () \<lparr>m_local = Map.empty, m_redis = s\<rparr>)" and "w_sess (k_world k2) = m_redis m1"
    and "m3 = unregister R u con (m1\<lparr>m_redis := w_sess (k_world (snd (receive_loop R F c u con received k2)))\<rparr>)"
  shows "represents strs members P (m_redis m3)"
proof -
  note rv = assms(1)
  have "represents strs members (finsert (u, con) P) (w_sess (k_world k2))"
    using redis_values.represents_register [OF rv, of P "\<lparr>m_local = Map.empty, m_redis = s\<rparr>" u con now "()"] assms(2)
    by (simp add: assms(4,5))
  then have "represents strs members (finsert (u, con) P) (w_sess (k_world (snd (receive_loop R F c u con received k2))))"
    by (rule redis_values.represents_loop [OF rv])
  then have "represents strs members (finsert (u, con) P |-| {|(u, con)|}) (m_redis m3)"
    unfolding assms(6) by (intro redis_values.represents_unregister [OF rv]) simp
  moreover have "finsert (u, con) P |-| {|(u, con)|} = P" using assms(3) by auto
  ultimately show ?thesis by simp
qed

text \<open>
  C24. Every connection is cleaned up: a connection that ends, by a disconnect, an invalid
  ticket or an exception in the middle of any sequence of frames, leaves the registry exactly
  as it found it, so nobody stays online because of it and nobody else goes offline.
\<close>

theorem socket_cleans_up:
  assumes "redis_values R strs members" and "represents strs members P (w_sess (k_world k))"
    and "members (w_sess (k_world k)) (ticket_key tok) = {||}" and "\<And>v. (v, con) |\<notin>| P"
    and "chat_socket R F c now con tok received k = (res, k')"
  shows "represents strs members P (w_sess (k_world k'))"
proof (cases "16 \<le> length tok \<and> length tok \<le> 64")
  case False
  with assms(2,5) show ?thesis by (auto simp: chat_socket_def)
next
  case True
  note rv = assms(1)
  obtain a s1 where r: "redeem_ticket R tok (w_sess (k_world k)) = (a, s1)" by (cases "redeem_ticket R tok (w_sess (k_world k))")
  have "s1 = snd (r_getdel R (ticket_key tok) (w_sess (k_world k)))"
    using r by (auto simp: redeem_ticket_def split: prod.splits option.splits)
  then have P1: "represents strs members P s1"
    using assms(2,3) redis_values.strs_getdel [OF rv assms(3)] redis_values.members_getdel [OF rv assms(3)]
    by (simp add: represents_def)
  consider (closed) "a = Inr None \<or> (\<exists>e. a = Inl e)" | (live) u where "a = Inr (Some u)"
    by (metis not_None_eq old.sum.exhaust)
  then show ?thesis
  proof cases
    case closed
    with True assms(5) r P1 show ?thesis by (auto simp: chat_socket_def)
  next
    case live
    let ?m1 = "snd (register R now con u () \<lparr>m_local = Map.empty, m_redis = s1\<rparr>)"
    let ?k1 = "on_world (\<lambda>w. w\<lparr>w_sess := m_redis ?m1\<rparr>) k"
    let ?k2 = "send_json [(''type'', JStr ''welcome''), (''connection_id'', JStr con),
       (''online_users'', JInt (int (online_count R (w_sess (k_world ?k1))))), (''server_time'', JStr (isoformat now))] ?k1"
    have "snd (chat_socket R F c now con tok received k) = on_world (\<lambda>w. w\<lparr>w_sess :=
        m_redis (unregister R u con (?m1\<lparr>m_redis := w_sess (k_world (snd (receive_loop R F c u con received ?k2)))\<rparr>))\<rparr>)
        (snd (receive_loop R F c u con received ?k2))"
      using True r live by (simp add: chat_socket_def Let_def case_prod_beta)
    with assms(5) have "w_sess (k_world k') =
        m_redis (unregister R u con (?m1\<lparr>m_redis := w_sess (k_world (snd (receive_loop R F c u con received ?k2)))\<rparr>))"
      by simp
    then show ?thesis
      using represents_session [OF rv P1 assms(4) refl, of ?k2] by simp
  qed
qed

text \<open>A socket on the test double, and the text of a message frame.\<close>

definition demo_sock :: "fake_state sock" where
  "demo_sock = \<lparr>k_world = \<lparr>w_db = chat_users, w_otp = m_redis idle_manager, w_sess = m_redis idle_manager, w_pub = []\<rparr>,
     k_push = \<lparr>p_initialized = False, p_available = False, p_sent = []\<rparr>, k_out = []\<rparr>"

definition demo_frame :: payload where
  "demo_frame = [(''type'', JStr ''text''), (''to'', JStr (uuid_str 2)), (''content'', JStr ''c''), (''destruct_after'', JInt 60)]"

definition demo_fd :: frame_draws where
  "demo_fd = \<lparr>fd_id = 7, fd_created = 0, fd_now = 0\<rparr>"

lemma demo_frame_sel:
  "jget demo_frame ''type'' = JStr ''text''" "uuid_or_none (jget demo_frame ''to'') = Some 2"
  "jget demo_frame ''content'' = JStr ''c''" "frame_message 1 2 ''text'' demo_frame = Inr chat_in"
  by (simp_all add: demo_frame_def jget_def uuid_or_none_def py_str_def frame_message_def int_column_def text_column_def chat_in_def)

lemma demo_handled: "\<exists>k'. handle_frame fake_redis working_firebase settings_defaults demo_fd 1 con (JObj demo_frame) demo_sock = (Inr (), k')"
proof -
  have s: "save_message 7 0 0 chat_in (w_db (k_world demo_sock)) = (Inr (new_message 7 0 0 chat_in), chat_db)"
    using chat_save by (simp add: demo_sock_def)
  have "fst (offline_push fake_redis working_firebase settings_defaults 1 2 ''text'' demo_frame k) = Inr ()" for k :: "fake_state sock"
    by (simp add: offline_push_def send_message_push_def working_firebase_def Let_def split: option.split prod.split bool.split)
  then obtain k1 where "offline_push fake_redis working_firebase settings_defaults 1 2 ''text'' demo_frame
      (on_world (\<lambda>w. w\<lparr>w_db := chat_db\<rparr>) demo_sock) = (Inr (), k1)" by (metis prod.collapse)
  with s show ?thesis by (simp add: handle_frame_def demo_frame_sel handle_content_def demo_fd_def Let_def)
qed

theorem message_delivered_live_witness:
  "\<exists>k' ev new. handle_frame fake_redis working_firebase settings_defaults demo_fd 1 ''c'' (JObj demo_frame) demo_sock = (Inr (), k') \<and>
    w_pub (k_world k') = w_pub (k_world demo_sock) @ new \<and> relay_loop 2 (map on_channel new) = [ev] \<and>
    relay_loop 3 (map on_channel new) = [] \<and> jget ev ''from'' = JStr (uuid_str 1)"
proof -
  obtain k' where h: "handle_frame fake_redis working_firebase settings_defaults demo_fd 1 ''c'' (JObj demo_frame) demo_sock = (Inr (), k')"
    using demo_handled by blast
  have "(3 :: uuid) \<noteq> 2" by simp
  with message_delivered_live [OF h demo_frame_sel(1) _ demo_frame_sel(2)] h show ?thesis by auto
qed

theorem no_spoofing_witness:
  "\<exists>r k' new. receive_loop fake_redis working_firebase settings_defaults 1 ''c'' [(''not json'', demo_fd)] demo_sock = (r, k') \<and>
    w_pub (k_world k') = w_pub (k_world demo_sock) @ new"
  using no_spoofing [OF surjective_pairing, of fake_redis working_firebase settings_defaults 1 "''c''" "[(''not json'', demo_fd)]" demo_sock]
  by (metis surjective_pairing)

theorem socket_cleans_up_witness:
  "represents f_store fake_members {||} (w_sess (k_world (snd
     (chat_socket fake_redis working_firebase settings_defaults 0 ''c'' (replicate 20 CHR ''t'') [(''x'', demo_fd)] demo_sock))))"
proof -
  have "represents f_store fake_members {||} (w_sess (k_world demo_sock))" using idle_represents by (simp add: demo_sock_def)
  moreover have "fake_members (w_sess (k_world demo_sock)) k = {||}" for k by (simp add: demo_sock_def idle_manager_def fake_members_def)
  ultimately show ?thesis using socket_cleans_up [OF fake.redis_values_axioms _ _ _ surjective_pairing] by blast
qed

end
