(* ===== verification/Media.thy ===== *)
theory Media
  imports Storage "HOL-Library.Char_ord" "HOL-Library.List_Lexorder"
begin

text \<open>
  \<^verbatim>\<open>app/api/routes/media.py\<close>: resumable uploads. An upload is a JSON document and a set of
  received chunk numbers in Redis, and one staged object per chunk in the object store.
  Pillow is a parameter; a chunk is a list of bytes. The state document is written by
  \<open>upload_init\<close> only, so its numbers are JSON integers.

  The locale \<open>uploads\<close> combines the Redis laws with the object store; its invariant
  \<open>uploading\<close> says what a run of \<open>upload_chunk\<close> calls leaves, whatever their order.
\<close>

section \<open>Model\<close>

definition CHUNK_SIZE :: int where
  "CHUNK_SIZE = 5 * 1024 * 1024"

definition UPLOAD_STATE_TTL :: nat where
  "UPLOAD_STATE_TTL = 24 * 3600"

definition PRESIGN_VIEW_TTL :: int where
  "PRESIGN_VIEW_TTL = 300"

record upload_init_in =
  ui_filename :: string
  ui_mime_type :: string
  ui_total_size :: int

definition UploadInitIn :: "upload_init_in \<Rightarrow> upload_init_in res" where
  "UploadInitIn b =
     (if length (ui_filename b) > 255 then Inl (ValueError ''filename'')
      else if \<not> (0 < ui_total_size b \<and> ui_total_size b \<le> MAX_UPLOAD_BYTES) then Inl (ValueError ''total_size'')
      else Inr b)"

record upload_init_out =
  uo_upload_id :: string
  uo_chunk_size :: int
  uo_total_chunks :: int
  uo_received_chunks :: "int list"

record upload_status_out =
  us_upload_id :: string
  us_total_chunks :: int
  us_received_chunks :: "int list"
  us_missing_chunks :: "int list"
  us_complete :: bool

record upload_complete_out =
  uc_media_key :: string
  uc_mime_type :: string
  uc_size_bytes :: int
  uc_thumbnail_key :: "string option"

record presigned_out =
  po_url :: string
  po_expires_in :: int

record ocr_task =
  ot_file_bytes :: bytes
  ot_mime_type :: string
  ot_user_id :: string
  ot_media_key :: string

record ('s, 'o) media =
  md_sess :: 's
  md_objects :: 'o
  md_tasks :: "ocr_task list"

definition state_key :: "string \<Rightarrow> string" where
  "state_key upload_id = ''upload:'' @ upload_id"

definition chunks_key :: "string \<Rightarrow> string" where
  "chunks_key upload_id = ''upload:chunks:'' @ upload_id"

definition not_found :: error where
  "not_found = HTTPException 404 ''upload not found or expired''"

definition load_state :: "'s redis \<Rightarrow> string \<Rightarrow> string \<Rightarrow> 's \<Rightarrow> payload res" where
  "load_state R upload_id user_id s =
     (case r_get R (state_key upload_id) s of
        None \<Rightarrow> Inl not_found
      | Some raw \<Rightarrow>
          (case loads raw of
             None \<Rightarrow> Inl (ValueError ''invalid JSON document'')
           | Some (JObj state) \<Rightarrow>
               (case map_of state ''user_id'' of
                  None \<Rightarrow> Inl (KeyError ''user_id'')
                | Some v \<Rightarrow> if v \<noteq> JStr user_id then Inl not_found else Inr state)
           | Some _ \<Rightarrow> Inl TypeError))"

definition state_int :: "payload \<Rightarrow> string \<Rightarrow> int res" where
  "state_int state k = (case map_of state k of None \<Rightarrow> Inl (KeyError k) | Some (JInt n) \<Rightarrow> Inr n | Some _ \<Rightarrow> Inl TypeError)"

definition state_str :: "payload \<Rightarrow> string \<Rightarrow> string res" where
  "state_str state k = (case map_of state k of None \<Rightarrow> Inl (KeyError k) | Some (JStr v) \<Rightarrow> Inr v | Some _ \<Rightarrow> Inl AttributeError)"

definition total_chunks_of :: "int \<Rightarrow> int" where
  "total_chunks_of total_size = (total_size + CHUNK_SIZE - 1) div CHUNK_SIZE"

definition upload_doc :: "upload_init_in \<Rightarrow> user \<Rightarrow> payload" where
  "upload_doc b user = [(''user_id'', JStr (uuid_str (u_id user))), (''filename'', JStr (ui_filename b)),
     (''mime_type'', JStr (ui_mime_type b)), (''total_size'', JInt (ui_total_size b)),
     (''total_chunks'', JInt (total_chunks_of (ui_total_size b)))]"

definition upload_init ::
  "'s redis \<Rightarrow> string \<Rightarrow> upload_init_in \<Rightarrow> user \<Rightarrow> (('s, 'o) media, upload_init_out) handler" where
  "upload_init R upload_id b user st =
     (if ui_mime_type b \<notin> fst ` set ALLOWED_MIME_TYPES
      then (Inl (HTTPException 415 (''MIME type not allowed: '' @ ui_mime_type b)), st)
      else
        (Inr \<lparr>uo_upload_id = upload_id, uo_chunk_size = CHUNK_SIZE,
              uo_total_chunks = total_chunks_of (ui_total_size b), uo_received_chunks = []\<rparr>,
         st\<lparr>md_sess := r_set R (state_key upload_id) (dumps (JObj (upload_doc b user))) (Some UPLOAD_STATE_TTL) (md_sess st)\<rparr>))"

definition upload_chunk ::
  "'s redis \<Rightarrow> 'o minio \<Rightarrow> settings \<Rightarrow> string \<Rightarrow> int \<Rightarrow> bytes \<Rightarrow> user \<Rightarrow> (('s, 'o) media, unit) handler" where
  "upload_chunk R M c upload_id chunk_index data user st =
     (case load_state R upload_id (uuid_str (u_id user)) (md_sess st) of
        Inl e \<Rightarrow> (Inl e, st)
      | Inr state \<Rightarrow>
          (case state_int state ''total_chunks'' of
             Inl e \<Rightarrow> (Inl e, st)
           | Inr total_chunks \<Rightarrow>
               if \<not> (0 \<le> chunk_index \<and> chunk_index < total_chunks) then (Inl (HTTPException 400 ''chunk index out of range''), st)
               else if int (length data) > CHUNK_SIZE then (Inl (HTTPException 413 ''chunk too large''), st)
               else if data = [] then (Inl (HTTPException 400 ''empty chunk''), st)
               else
                 (case put_staging_chunk M c upload_id chunk_index data (md_objects st) of
                    (Inl e, os1) \<Rightarrow> (Inl e, st\<lparr>md_objects := os1\<rparr>)
                  | (Inr _, os1) \<Rightarrow>
                      let s1 = r_sadd R (chunks_key upload_id) (str_int chunk_index) (md_sess st);
                          s2 = r_expire R (chunks_key upload_id) UPLOAD_STATE_TTL s1
                      in (Inr (), st\<lparr>md_sess := s2, md_objects := os1\<rparr>))))"

text \<open>The integers of the received set, in the order Redis lists the members.\<close>

primrec ints_of :: "string list \<Rightarrow> int list res" where
  "ints_of [] = Inr []"
| "ints_of (m # ms) = (case py_int 10 m of
     None \<Rightarrow> Inl (ValueError ''invalid literal for int() with base 10'')
   | Some i \<Rightarrow> (case ints_of ms of Inl e \<Rightarrow> Inl e | Inr is \<Rightarrow> Inr (i # is)))"

definition received_chunks :: "'s redis \<Rightarrow> string \<Rightarrow> 's \<Rightarrow> int list res" where
  "received_chunks R upload_id s = ints_of (sorted_list_of_fset (r_smembers R (chunks_key upload_id) s))"

definition missing_chunks :: "int list \<Rightarrow> int \<Rightarrow> int list" where
  "missing_chunks received total_chunks = filter (\<lambda>i. i \<notin> set received) (py_range total_chunks)"

definition upload_status ::
  "'s redis \<Rightarrow> string \<Rightarrow> user \<Rightarrow> ('s, 'o) media \<Rightarrow> upload_status_out res" where
  "upload_status R upload_id user st =
     (case load_state R upload_id (uuid_str (u_id user)) (md_sess st) of
        Inl e \<Rightarrow> Inl e
      | Inr state \<Rightarrow>
          (case received_chunks R upload_id (md_sess st) of
             Inl e \<Rightarrow> Inl e
           | Inr ints \<Rightarrow>
               (case state_int state ''total_chunks'' of
                  Inl e \<Rightarrow> Inl e
                | Inr total_chunks \<Rightarrow>
                    let received = sort ints; missing = missing_chunks received total_chunks
                    in Inr \<lparr>us_upload_id = upload_id, us_total_chunks = total_chunks, us_received_chunks = received,
                            us_missing_chunks = missing, us_complete = (missing = [])\<rparr>)))"

definition ext_for :: "string \<Rightarrow> string" where
  "ext_for mime = (case map_of ALLOWED_MIME_TYPES mime of None \<Rightarrow> [] | Some ext \<Rightarrow> ext)"

text \<open>
  Pillow: whether it is installed, opening and loading an image, its mode, conversion to a
  mode, saving as JPEG with a quality and the optimize flag, and shrinking to a box.
\<close>

record 'i pillow =
  pl_installed :: bool
  pl_open :: "bytes \<Rightarrow> 'i res"
  pl_mode :: "'i \<Rightarrow> string"
  pl_convert :: "string \<Rightarrow> 'i \<Rightarrow> 'i res"
  pl_save_jpeg :: "nat \<Rightarrow> bool \<Rightarrow> 'i \<Rightarrow> bytes res"
  pl_thumbnail :: "nat \<times> nat \<Rightarrow> 'i \<Rightarrow> 'i res"

definition recompress :: "'i pillow \<Rightarrow> bytes \<Rightarrow> 'i \<Rightarrow> bytes res" where
  "recompress P data img =
     (if length data \<le> 512 * 1024 then Inr data
      else
        (case (if pl_mode P img \<notin> {''RGB'', ''L''} then pl_convert P ''RGB'' img else Inr img) of
           Inl e \<Rightarrow> Inl e
         | Inr rgb \<Rightarrow>
             (case pl_save_jpeg P 85 True rgb of
                Inl e \<Rightarrow> Inl e
              | Inr buf \<Rightarrow> Inr (if length buf < length data then buf else data))))"

definition thumbnail :: "'i pillow \<Rightarrow> 'i \<Rightarrow> bytes res" where
  "thumbnail P img =
     (case pl_thumbnail P (320, 320) img of
        Inl e \<Rightarrow> Inl e
      | Inr small \<Rightarrow>
          (case pl_convert P ''RGB'' small of
             Inl e \<Rightarrow> Inl e
           | Inr rgb \<Rightarrow> pl_save_jpeg P 70 False rgb))"

definition process_image :: "'i pillow \<Rightarrow> bytes \<Rightarrow> string \<Rightarrow> (bytes \<times> bytes option) res" where
  "process_image P data mime =
     (if \<not> pl_installed P then Inr (data, None)
      else
        (case pl_open P data of
           Inl _ \<Rightarrow> Inr (data, None)
         | Inr img \<Rightarrow>
             (case recompress P data img of
                Inl e \<Rightarrow> Inl e
              | Inr out \<Rightarrow> (case thumbnail P img of Inl e \<Rightarrow> Inl e | Inr thumb \<Rightarrow> Inr (out, Some thumb)))))"

text \<open>The content to store and the key of the thumbnail, stored first.\<close>

definition prepare_media ::
  "'i pillow \<Rightarrow> 'o minio \<Rightarrow> settings \<Rightarrow> uuid \<Rightarrow> bytes \<Rightarrow> string \<Rightarrow> ('o, bytes \<times> string option) handler" where
  "prepare_media P M c thumb_id assembled mime os =
     (if starts_with mime ''image/'' then
        (case process_image P assembled mime of
           Inl e \<Rightarrow> (Inl e, os)
         | Inr (out, None) \<Rightarrow> (Inr (out, None), os)
         | Inr (out, Some thumb) \<Rightarrow>
             (case put_object M thumb_id (MINIO_BUCKET_ATTACHMENTS c) thumb ''image/jpeg'' ''_thumb.jpg'' os of
                (Inl e, os1) \<Rightarrow> (Inl e, os1)
              | (Inr key, os1) \<Rightarrow> (Inr (out, Some key), os1)))
      else (Inr (assembled, None), os))"

definition str_int_list :: "int list \<Rightarrow> string" where
  "str_int_list is = ''['' @ join '', '' (map str_int is) @ '']''"

text \<open>Storing the object, dropping the staged chunks and the Redis state, and scheduling OCR.\<close>

definition finish_upload ::
  "'s redis \<Rightarrow> 'o minio \<Rightarrow> settings \<Rightarrow> uuid \<Rightarrow> string \<Rightarrow> int \<Rightarrow> string \<Rightarrow> string \<Rightarrow> bytes \<Rightarrow> string option \<Rightarrow>
     (('s, 'o) media, upload_complete_out) handler" where
  "finish_upload R M c media_id upload_id total_chunks owner mime assembled thumbnail_key st =
     (case put_object M media_id (MINIO_BUCKET_ATTACHMENTS c) assembled mime (ext_for mime) (md_objects st) of
        (Inl e, os1) \<Rightarrow> (Inl e, st\<lparr>md_objects := os1\<rparr>)
      | (Inr media_key, os1) \<Rightarrow>
          (case delete_staging M c upload_id total_chunks os1 of
             (Inl e, os2) \<Rightarrow> (Inl e, st\<lparr>md_objects := os2\<rparr>)
           | (Inr _, os2) \<Rightarrow>
               let s1 = r_delete R (chunks_key upload_id) (r_delete R (state_key upload_id) (md_sess st));
                   task = \<lparr>ot_file_bytes = assembled, ot_mime_type = mime, ot_user_id = owner, ot_media_key = media_key\<rparr>
               in (Inr \<lparr>uc_media_key = media_key, uc_mime_type = mime, uc_size_bytes = int (length assembled),
                        uc_thumbnail_key = thumbnail_key\<rparr>,
                   st\<lparr>md_sess := s1, md_objects := os2, md_tasks := md_tasks st @ [task]\<rparr>)))"

definition upload_complete ::
  "'s redis \<Rightarrow> 'o minio \<Rightarrow> 'i pillow \<Rightarrow> settings \<Rightarrow> uuid \<Rightarrow> uuid \<Rightarrow> string \<Rightarrow> user \<Rightarrow>
     (('s, 'o) media, upload_complete_out) handler" where
  "upload_complete R M P c thumb_id media_id upload_id user st =
     (case load_state R upload_id (uuid_str (u_id user)) (md_sess st) of
        Inl e \<Rightarrow> (Inl e, st)
      | Inr state \<Rightarrow>
          (case received_chunks R upload_id (md_sess st) of
             Inl e \<Rightarrow> (Inl e, st)
           | Inr received \<Rightarrow>
               (case state_int state ''total_chunks'' of
                  Inl e \<Rightarrow> (Inl e, st)
                | Inr total_chunks \<Rightarrow>
                    let missing = missing_chunks received total_chunks
                    in if missing \<noteq> [] then
                         (Inl (HTTPException 409 (''upload incomplete - missing chunks: '' @ str_int_list (take 20 missing))), st)
                       else
                         (case assemble_staging M c upload_id total_chunks (md_objects st) of
                            Inl e \<Rightarrow> (Inl e, st)
                          | Inr assembled \<Rightarrow>
                              (case state_int state ''total_size'' of
                                 Inl e \<Rightarrow> (Inl e, st)
                               | Inr total_size \<Rightarrow>
                                   if int (length assembled) \<noteq> total_size then
                                     (case delete_staging M c upload_id total_chunks (md_objects st) of
                                        (Inl e, os1) \<Rightarrow> (Inl e, st\<lparr>md_objects := os1\<rparr>)
                                      | (Inr _, os1) \<Rightarrow>
                                          (Inl (HTTPException 400 ''size mismatch - re-upload''), st\<lparr>md_objects := os1\<rparr>))
                                   else
                                     (case state_str state ''mime_type'' of
                                        Inl e \<Rightarrow> (Inl e, st)
                                      | Inr mime \<Rightarrow>
                                          (case prepare_media P M c thumb_id assembled mime (md_objects st) of
                                             (Inl e, os1) \<Rightarrow> (Inl e, st\<lparr>md_objects := os1\<rparr>)
                                           | (Inr (content, thumbnail_key), os1) \<Rightarrow>
                                               finish_upload R M c media_id upload_id total_chunks (uuid_str (u_id user))
                                                 mime content thumbnail_key (st\<lparr>md_objects := os1\<rparr>))))))))"

definition presigned_view_url :: "'o minio \<Rightarrow> settings \<Rightarrow> string \<Rightarrow> presigned_out" where
  "presigned_view_url M c media_key =
     \<lparr>po_url = presign_download_ttl M (MINIO_BUCKET_ATTACHMENTS c) media_key PRESIGN_VIEW_TTL,
      po_expires_in = PRESIGN_VIEW_TTL\<rparr>"

section \<open>Chunks\<close>

text \<open>What a client sends: a list of numbered chunks, one request each, until one is refused.\<close>

primrec send_chunks ::
  "'s redis \<Rightarrow> 'o minio \<Rightarrow> settings \<Rightarrow> string \<Rightarrow> user \<Rightarrow> (int \<times> bytes) list \<Rightarrow> (('s, 'o) media, unit) handler" where
  "send_chunks R M c u user [] st = (Inr (), st)"
| "send_chunks R M c u user (p # ps) st =
     (case upload_chunk R M c u (fst p) (snd p) user st of
        (Inl e, st1) \<Rightarrow> (Inl e, st1)
      | (Inr _, st1) \<Rightarrow> send_chunks R M c u user ps st1)"

definition piece :: "bytes \<Rightarrow> int \<Rightarrow> bytes" where
  "piece data i = take (nat CHUNK_SIZE) (drop (nat i * nat CHUNK_SIZE) data)"

lemma CHUNK_SIZE_pos [simp]: "0 < CHUNK_SIZE" "0 < nat CHUNK_SIZE" "0 \<le> CHUNK_SIZE"
  by (simp_all add: CHUNK_SIZE_def)

lemma concat_pieces_take: "concat (map (\<lambda>i. take k (drop (i * k) xs)) [0..<n]) = take (n * k) xs"
proof (induction n)
  case (Suc n)
  have "take (n * k + k) xs = take (n * k) xs @ take k (drop (n * k) xs)" by (rule take_add)
  with Suc show ?case by (simp add: add.commute)
qed simp

text \<open>The number of chunks is the size divided by the chunk size, rounded up.\<close>

lemma ceiling_div:
  fixes t k :: int
  assumes "0 < k"
  shows "t \<le> (t + k - 1) div k * k" and "((t + k - 1) div k - 1) * k < t"
proof -
  have "(t + k - 1) div k * k + (t + k - 1) mod k = t + k - 1" by simp
  moreover have "0 \<le> (t + k - 1) mod k" "(t + k - 1) mod k < k" using assms by simp_all
  ultimately show "t \<le> (t + k - 1) div k * k" "((t + k - 1) div k - 1) * k < t"
    by (simp_all only: left_diff_distrib mult_1)
qed

lemma total_chunks_bounds:
  assumes "0 < t"
  shows "0 < total_chunks_of t" and "t \<le> total_chunks_of t * CHUNK_SIZE" and "(total_chunks_of t - 1) * CHUNK_SIZE < t"
proof -
  show "t \<le> total_chunks_of t * CHUNK_SIZE" "(total_chunks_of t - 1) * CHUNK_SIZE < t"
    unfolding total_chunks_of_def by (rule ceiling_div, simp)+
  show "0 < total_chunks_of t"
    unfolding total_chunks_of_def using assms by (subst pos_imp_zdiv_pos_iff) simp_all
qed

lemma concat_pieces:
  assumes "data \<noteq> []"
  shows "concat (map (piece data) (py_range (total_chunks_of (int (length data))))) = data"
proof -
  let ?n = "total_chunks_of (int (length data))"
  have "int (length data) \<le> ?n * CHUNK_SIZE" "0 < ?n"
    using total_chunks_bounds [of "int (length data)"] assms by simp_all
  then have "length data \<le> nat ?n * nat CHUNK_SIZE"
    by (subst zle_int [symmetric]) simp
  then show ?thesis
    by (simp add: py_range_def piece_def comp_def concat_pieces_take)
qed

lemma piece_bounds:
  assumes "0 \<le> i" and "i < total_chunks_of (int (length data))"
  shows "piece data i \<noteq> []" and "int (length (piece data i)) \<le> CHUNK_SIZE"
proof -
  have d: "0 < int (length data)"
    using assms by (cases "data = []") (simp_all add: total_chunks_of_def CHUNK_SIZE_def)
  have "i * CHUNK_SIZE \<le> (total_chunks_of (int (length data)) - 1) * CHUNK_SIZE"
    using assms(2) by (intro mult_right_mono) (simp_all add: less_imp_le)
  then have "i * CHUNK_SIZE < int (length data)"
    using total_chunks_bounds(3) [OF d] by linarith
  then have "nat i * nat CHUNK_SIZE < length data"
    using assms(1) by (subst of_nat_less_iff [where 'a = int, symmetric]) simp
  then show "piece data i \<noteq> []" by (simp add: piece_def linorder_not_le)
  show "int (length (piece data i)) \<le> CHUNK_SIZE"
    by (simp add: piece_def of_nat_min)
qed

section \<open>An upload in Redis\<close>

lemma media_keys [simp]: "state_key u \<noteq> chunks_key u" "chunks_key u \<noteq> state_key u"
proof -
  have "length (state_key u) \<noteq> length (chunks_key u)" by (simp add: state_key_def chunks_key_def)
  then show "state_key u \<noteq> chunks_key u" "chunks_key u \<noteq> state_key u" by metis+
qed

definition upload_free ::
  "('s \<Rightarrow> string \<Rightarrow> string option) \<Rightarrow> ('s \<Rightarrow> string \<Rightarrow> string fset) \<Rightarrow> string \<Rightarrow> 's \<Rightarrow> bool" where
  "upload_free strs members u s \<longleftrightarrow> members s (state_key u) = {||} \<and> strs s (chunks_key u) = None \<and>
     members s (chunks_key u) = {||}"

definition uploading ::
  "('s \<Rightarrow> string \<Rightarrow> string option) \<Rightarrow> ('s \<Rightarrow> string \<Rightarrow> string fset) \<Rightarrow> string \<Rightarrow> upload_init_in \<Rightarrow> user \<Rightarrow> int set \<Rightarrow> 's \<Rightarrow> bool" where
  "uploading strs members u b owner got s \<longleftrightarrow>
     strs s (state_key u) = Some (dumps (JObj (upload_doc b owner))) \<and> members s (state_key u) = {||} \<and>
     strs s (chunks_key u) = None \<and> fset (members s (chunks_key u)) = str_int ` got"

lemma loads_upload_doc: "loads (dumps (JObj (upload_doc b owner))) = Some (JObj (upload_doc b owner))"
  by (rule loads_dumps) (simp add: upload_doc_def)

lemma upload_doc_sel [simp]:
  "map_of (upload_doc b owner) ''user_id'' = Some (JStr (uuid_str (u_id owner)))"
  "state_int (upload_doc b owner) ''total_chunks'' = Inr (total_chunks_of (ui_total_size b))"
  "state_int (upload_doc b owner) ''total_size'' = Inr (ui_total_size b)"
  "state_str (upload_doc b owner) ''mime_type'' = Inr (ui_mime_type b)"
  by (simp_all add: upload_doc_def state_int_def state_str_def)

lemma ints_of_str_int: "set ms \<subseteq> str_int ` A \<Longrightarrow> ints_of ms = Inr (map (\<lambda>m. the (py_int 10 m)) ms)"
  by (induction ms) auto

lemma inj_on_py_int: "inj_on (\<lambda>m. the (py_int 10 m)) (str_int ` A)"
  by (auto simp: inj_on_def)

context redis_values
begin

lemma uploading_init:
  assumes "upload_free strs members u s"
  shows "uploading strs members u b owner {}
    (r_set R (state_key u) (dumps (JObj (upload_doc b owner))) ex s)"
  using assms by (simp add: upload_free_def uploading_def value_laws)

lemma uploading_add:
  assumes "uploading strs members u b owner got s"
  shows "uploading strs members u b owner (insert i got)
    (r_expire R (chunks_key u) UPLOAD_STATE_TTL (r_sadd R (chunks_key u) (str_int i) s))"
  using assms by (simp add: uploading_def value_laws UPLOAD_STATE_TTL_def)

lemma load_state_uploading:
  assumes "uploading strs members u b owner got s"
  shows "load_state R u (uuid_str v) s = (if v = u_id owner then Inr (upload_doc b owner) else Inl not_found)"
  using assms by (simp add: uploading_def load_state_def value_laws loads_upload_doc del: dumps.simps)

lemma received_uploading:
  assumes "uploading strs members u b owner got s"
  shows "\<exists>is. received_chunks R u s = Inr is \<and> set is = got \<and> distinct is"
proof -
  let ?ms = "sorted_list_of_fset (members s (chunks_key u))"
  have m: "r_smembers R (chunks_key u) s = members s (chunks_key u)" "set ?ms = str_int ` got"
    using assms by (simp_all add: uploading_def value_laws)
  have "ints_of ?ms = Inr (map (\<lambda>m. the (py_int 10 m)) ?ms)"
    by (rule ints_of_str_int [of _ got]) (simp only: m(2) subset_refl)
  moreover have "distinct (map (\<lambda>m. the (py_int 10 m)) ?ms)"
    unfolding distinct_map m(2) by (simp add: inj_on_py_int sorted_list_of_fset.rep_eq)
  ultimately show ?thesis
    using m by (auto simp: received_chunks_def image_image)
qed

text \<open>Whatever is sent, by whom and with which outcome, the upload stays the one of its owner.\<close>

lemma uploading_chunk:
  assumes "uploading strs members u b owner got (md_sess st)"
  shows "\<exists>got'. uploading strs members u b owner got' (md_sess (snd (upload_chunk R M c u i d user st)))"
  using assms uploading_add [OF assms, of i]
  by (auto simp: upload_chunk_def Let_def split: sum.splits prod.splits)

lemma uploading_send:
  assumes "uploading strs members u b owner got (md_sess st)"
  shows "\<exists>got'. uploading strs members u b owner got' (md_sess (snd (send_chunks R M c u user ps st)))"
  using assms
proof (induction ps arbitrary: got st)
  case (Cons p ps)
  obtain got' where *: "uploading strs members u b owner got' (md_sess (snd (upload_chunk R M c u (fst p) (snd p) user st)))"
    using uploading_chunk [OF Cons.prems] by blast
  then show ?case
    using Cons.IH [OF *] by (auto split: prod.splits sum.splits)
qed auto

end

section \<open>Uploads over both stores\<close>

locale uploads = redis_values R strs members + minio_staging M objs buckets c
  for R :: "'s redis"
    and strs :: "'s \<Rightarrow> string \<Rightarrow> string option"
    and members :: "'s \<Rightarrow> string \<Rightarrow> string fset"
    and M :: "'o minio"
    and objs :: "'o \<Rightarrow> string \<Rightarrow> string \<Rightarrow> bytes option"
    and buckets :: "'o \<Rightarrow> string \<Rightarrow> bool"
    and c :: settings
begin

definition valid_chunk :: "upload_init_in \<Rightarrow> int \<times> bytes \<Rightarrow> bool" where
  "valid_chunk b p \<longleftrightarrow> 0 \<le> fst p \<and> fst p < total_chunks_of (ui_total_size b) \<and> snd p \<noteq> [] \<and>
     int (length (snd p)) \<le> CHUNK_SIZE"

lemma upload_chunk_ok:
  assumes "uploading strs members u b owner got (md_sess st)" and "ready_for_uploads (md_objects st)"
    and "valid_chunk b (i, d)"
  shows "upload_chunk R M c u i d owner st = (Inr (), st\<lparr>
    md_sess := r_expire R (chunks_key u) UPLOAD_STATE_TTL (r_sadd R (chunks_key u) (str_int i) (md_sess st)),
    md_objects := snd (put_staging_chunk M c u i d (md_objects st))\<rparr>)"
  using assms load_state_uploading [OF assms(1), of "u_id owner"]
    put_staging_ok(1) [OF assms(2), of u i d]
  by (auto simp: upload_chunk_def valid_chunk_def Let_def split: prod.splits)

lemma send_chunks_ok:
  assumes "uploading strs members u b owner got (md_sess st)" and "ready_for_uploads (md_objects st)"
    and "list_all (valid_chunk b) ps"
  shows "\<exists>st'. send_chunks R M c u owner ps st = (Inr (), st') \<and>
    uploading strs members u b owner (got \<union> fst ` set ps) (md_sess st') \<and>
    md_objects st' = stg.put_all u ps (md_objects st)"
  using assms
proof (induction ps arbitrary: got st)
  case (Cons p ps)
  let ?st = "st\<lparr>
    md_sess := r_expire R (chunks_key u) UPLOAD_STATE_TTL (r_sadd R (chunks_key u) (str_int (fst p)) (md_sess st)),
    md_objects := snd (put_staging_chunk M c u (fst p) (snd p) (md_objects st))\<rparr>"
  have s: "upload_chunk R M c u (fst p) (snd p) owner st = (Inr (), ?st)"
    using upload_chunk_ok [OF Cons.prems(1,2), of "fst p" "snd p"] Cons.prems(3) by simp
  have "uploading strs members u b owner (insert (fst p) got) (md_sess ?st)"
    using uploading_add [OF Cons.prems(1)] by simp
  from Cons.IH [OF this] obtain st' where "send_chunks R M c u owner ps ?st = (Inr (), st')"
    "uploading strs members u b owner (insert (fst p) got \<union> fst ` set ps) (md_sess st')"
    "md_objects st' = stg.put_all u ps (md_objects ?st)"
    using Cons.prems(2,3) put_staging_ok(2) by auto
  then show ?case by (simp add: s stg.put_all_def case_prod_beta Un_insert_left)
qed (simp add: stg.put_all_def)

lemma status_uploading:
  assumes "uploading strs members u b owner got (md_sess st)" and "got \<subseteq> {0..<total_chunks_of (ui_total_size b)}"
  shows "upload_status R u owner st = Inr \<lparr>us_upload_id = u, us_total_chunks = total_chunks_of (ui_total_size b),
    us_received_chunks = sorted_list_of_set got,
    us_missing_chunks = filter (\<lambda>i. i \<notin> got) (py_range (total_chunks_of (ui_total_size b))),
    us_complete = (got = {0..<total_chunks_of (ui_total_size b)})\<rparr>"
proof -
  obtain "is" where r: "received_chunks R u (md_sess st) = Inr is" "set is = got" "distinct is"
    using received_uploading [OF assms(1)] by blast
  have "sort is = sorted_list_of_set got"
    using r by (metis sorted_list_of_set_sort_remdups distinct_remdups_id)
  moreover have "filter (\<lambda>i. i \<notin> got) (py_range n) = [] \<longleftrightarrow> {0..<n} \<subseteq> got" for n
    by (auto simp: filter_empty_conv)
  ultimately show ?thesis
    using load_state_uploading [OF assms(1), of "u_id owner"] r assms(2)
    by (auto simp: upload_status_def missing_chunks_def)
qed

lemma complete_all_received:
  assumes "uploading strs members u b owner {0..<total_chunks_of (ui_total_size b)} (md_sess st)"
    and "assemble_staging M c u (total_chunks_of (ui_total_size b)) (md_objects st) = a"
  shows "upload_complete R M P c tid mid u owner st = (case a of Inl e \<Rightarrow> (Inl e, st)
    | Inr data \<Rightarrow>
        if int (length data) \<noteq> ui_total_size b then
          (case delete_staging M c u (total_chunks_of (ui_total_size b)) (md_objects st) of
             (Inl e, os1) \<Rightarrow> (Inl e, st\<lparr>md_objects := os1\<rparr>)
           | (Inr _, os1) \<Rightarrow> (Inl (HTTPException 400 ''size mismatch - re-upload''), st\<lparr>md_objects := os1\<rparr>))
        else
          (case prepare_media P M c tid data (ui_mime_type b) (md_objects st) of
             (Inl e, os1) \<Rightarrow> (Inl e, st\<lparr>md_objects := os1\<rparr>)
           | (Inr (content, thumbnail_key), os1) \<Rightarrow>
               finish_upload R M c mid u (total_chunks_of (ui_total_size b)) (uuid_str (u_id owner))
                 (ui_mime_type b) content thumbnail_key (st\<lparr>md_objects := os1\<rparr>)))"
proof -
  obtain "is" where r: "received_chunks R u (md_sess st) = Inr is" "set is = {0..<total_chunks_of (ui_total_size b)}"
    using received_uploading [OF assms(1)] by blast
  then have "missing_chunks is (total_chunks_of (ui_total_size b)) = []"
    by (simp add: missing_chunks_def filter_empty_conv)
  then show ?thesis
    using load_state_uploading [OF assms(1), of "u_id owner"] r assms(2)
    by (cases a) (simp_all add: upload_complete_def)
qed

lemma finish_ok:
  assumes "ready_for_uploads (md_objects st)"
  shows "\<exists>st'. finish_upload R M c mid u n who mime data th st =
      (Inr \<lparr>uc_media_key = hex32 mid @ ext_for mime, uc_mime_type = mime, uc_size_bytes = int (length data),
        uc_thumbnail_key = th\<rparr>, st') \<and>
    objs (md_objects st') (MINIO_BUCKET_ATTACHMENTS c) (hex32 mid @ ext_for mime) = Some data \<and>
    (\<forall>i. 0 \<le> i \<and> i < n \<longrightarrow> staged (md_objects st') u i = None) \<and>
    strs (md_sess st') (state_key u) = None \<and> members (md_sess st') (state_key u) = {||} \<and>
    strs (md_sess st') (chunks_key u) = None \<and> members (md_sess st') (chunks_key u) = {||}"
proof -
  let ?os = "snd (mc_put_object M (MINIO_BUCKET_ATTACHMENTS c) (hex32 mid @ ext_for mime) data mime (md_objects st))"
  have r: "ready_for_uploads ?os" using assms by (simp add: ready_for_uploads_def buckets_put)
  have p: "put_object M mid (MINIO_BUCKET_ATTACHMENTS c) data mime (ext_for mime) (md_objects st) =
      (Inr (hex32 mid @ ext_for mime), ?os)"
    using assms by (simp add: ready_for_uploads_def put_object_ok)
  have o: "objs ?os (MINIO_BUCKET_ATTACHMENTS c) (hex32 mid @ ext_for mime) = Some data"
    using assms by (simp add: ready_for_uploads_def objs_put)
  note d = delete_parts_ok [OF r, of u "py_range n"]
  then obtain os2 where os2: "delete_staging M c u n ?os = (Inr (), os2)"
    "objs os2 = (objs ?os)(MINIO_BUCKET_ATTACHMENTS c :=
       (\<lambda>k. if k \<in> staging_key u ` set (py_range n) then None else objs ?os (MINIO_BUCKET_ATTACHMENTS c) k))"
    unfolding delete_staging_def by (metis prod.collapse)
  have k: "hex32 mid @ ext_for mime \<notin> staging_key u ` A" for A by auto
  show ?thesis
    by (simp add: finish_upload_def p os2(1) Let_def)
      (simp add: os2(2) o k staged_def value_laws)
qed

end

section \<open>Properties\<close>

lemma uploadsI: "redis_values R strs members \<Longrightarrow> minio_store M objs buckets \<Longrightarrow> uploads R strs members M objs buckets"
  by (simp add: uploads_def minio_staging_def)

lemma upload_init_Inr:
  assumes "upload_init R u b owner st = (Inr out, st1)"
  shows "st1 = st\<lparr>md_sess := r_set R (state_key u) (dumps (JObj (upload_doc b owner))) (Some UPLOAD_STATE_TTL) (md_sess st)\<rparr>"
    and "uo_total_chunks out = total_chunks_of (ui_total_size b)" and "ui_mime_type b \<in> fst ` set ALLOWED_MIME_TYPES"
  using assms by (auto simp: upload_init_def split: if_splits)

lemma map_of_rev_pieces:
  assumes "i \<in> set is"
  shows "map_of (rev (map (\<lambda>i. (i, f i)) is)) i = Some (f i)"
proof -
  have "map_of (map (\<lambda>i. (i, f i)) (rev is)) i = Some (f i)"
    using assms by (simp add: map_of_map_restrict)
  then show ?thesis by (simp add: rev_map)
qed

context uploads
begin

lemma init_uploading:
  assumes "upload_free strs members u (md_sess st)" and "upload_init R u b owner st = (Inr out, st1)"
  shows "uploading strs members u b owner {} (md_sess st1)" and "md_objects st1 = md_objects st"
  using uploading_init [OF assms(1)] upload_init_Inr(1) [OF assms(2)] by simp_all

lemma absent_state:
  "strs s (state_key u) = None \<Longrightarrow> members s (state_key u) = {||} \<Longrightarrow> load_state R u v s = Inl not_found"
  by (simp add: load_state_def value_laws)

lemma discard_all:
  assumes "ready_for_uploads os"
  shows "\<exists>os1. delete_staging M c u n os = (Inr (), os1) \<and> ready_for_uploads os1 \<and>
    (\<forall>i. 0 \<le> i \<and> i < n \<longrightarrow> staged os1 u i = None)"
  using stg.discard_ok [OF assms, of u n] stg.discard_ready [OF assms, of u n] stg.chunk_discard [OF assms, of _ n u]
  by (metis prod.collapse)

lemma assemble_empty:
  "ready_for_uploads os \<Longrightarrow> 0 < n \<Longrightarrow> staged os u 0 = None \<Longrightarrow> assemble_staging M c u n os = Inl (S3Error ''NoSuchKey'')"
  by (rule stg.assemble_gap [of os 0]) simp_all

lemma stored_pieces:
  assumes "ready_for_uploads os" and "set is = {0..<total_chunks_of (int (length data))}" and "data \<noteq> []"
  shows "assemble_staging M c u (total_chunks_of (int (length data)))
    (stg.put_all u (map (\<lambda>i. (i, piece data i)) is) os) = Inr data"
proof -
  let ?ps = "map (\<lambda>i. (i, piece data i)) is" and ?n = "total_chunks_of (int (length data))"
  have "map (\<lambda>i. the (map_of (rev ?ps) i)) (py_range ?n) = map (piece data) (py_range ?n)"
    using assms(2) by (simp add: map_of_rev_pieces)
  moreover have "fst ` set ?ps = {0..<?n}" using assms(2) by (simp add: image_image)
  ultimately show ?thesis
    using stg.assemble_put_all [OF assms(1), of ?ps ?n u] concat_pieces [OF assms(3)] by (simp only:)
qed

lemma upload_stored:
  assumes "ready_for_uploads (md_objects st1)" and "uploading strs members u b owner {} (md_sess st1)"
    and "ui_total_size b = int (length data)" and "data \<noteq> []" and "\<not> starts_with (ui_mime_type b) ''image/''"
    and "set is = {0..<total_chunks_of (ui_total_size b)}"
  shows "\<exists>st2 st3 fin. send_chunks R M c u owner (map (\<lambda>i. (i, piece data i)) is) st1 = (Inr (), st2) \<and>
    upload_complete R M P c tid mid u owner st2 = (Inr fin, st3) \<and> uc_size_bytes fin = int (length data) \<and>
    objs (md_objects st3) (MINIO_BUCKET_ATTACHMENTS c) (uc_media_key fin) = Some data \<and>
    (\<forall>i\<in>set is. staged (md_objects st3) u i = None) \<and> upload_status R u owner st3 = Inl not_found"
proof -
  let ?n = "total_chunks_of (ui_total_size b)" and ?ps = "map (\<lambda>i. (i, piece data i)) is"
  have "list_all (valid_chunk b) ?ps"
    using assms(3,6) piece_bounds [of _ data] by (simp add: list_all_iff valid_chunk_def)
  from send_chunks_ok [OF assms(2,1) this] obtain st2 where
    s2: "send_chunks R M c u owner ?ps st1 = (Inr (), st2)"
      "uploading strs members u b owner {0..<?n} (md_sess st2)" "md_objects st2 = stg.put_all u ?ps (md_objects st1)"
    using assms(6) by (auto simp: image_image)
  have r: "ready_for_uploads (md_objects st2)"
    using stg.put_all_ready [OF assms(1)] s2(3) by simp
  have a: "assemble_staging M c u ?n (md_objects st2) = Inr data"
    using stored_pieces [OF assms(1) _ assms(4), of "is" u] assms(3,6) s2(3) by simp
  have c: "upload_complete R M P c tid mid u owner st2 =
      finish_upload R M c mid u ?n (uuid_str (u_id owner)) (ui_mime_type b) data None st2"
    using complete_all_received [OF s2(2) a, of P tid mid] assms(3,5) by (simp add: prepare_media_def)
  obtain st3 fin where "finish_upload R M c mid u ?n (uuid_str (u_id owner)) (ui_mime_type b) data None st2 = (Inr fin, st3)"
    "uc_size_bytes fin = int (length data)"
    "objs (md_objects st3) (MINIO_BUCKET_ATTACHMENTS c) (uc_media_key fin) = Some data"
    "\<forall>i. 0 \<le> i \<and> i < ?n \<longrightarrow> staged (md_objects st3) u i = None"
    "strs (md_sess st3) (state_key u) = None" "members (md_sess st3) (state_key u) = {||}"
    using finish_ok [OF r, of mid u ?n "uuid_str (u_id owner)" "ui_mime_type b" data None]
    by (metis upload_complete_out.select_convs(1,3))
  with s2(1) c absent_state show ?thesis
    by (auto simp: assms(6) upload_status_def)
qed

end

interpretation ref_up: uploads ref_redis ref_strs ref_members ref_minio ref_objs ref_buckets settings_defaults
  by unfold_locales

text \<open>A concrete server: the reference stores with the attachments bucket, and a small file.\<close>

definition upload_server :: "(store, object_store) media" where
  "upload_server = \<lparr>md_sess = Map.empty, md_objects = [''attachments'' \<mapsto> Map.empty], md_tasks = []\<rparr>"

definition pdf_upload :: upload_init_in where
  "pdf_upload = \<lparr>ui_filename = ''a.pdf'', ui_mime_type = ''application/pdf'', ui_total_size = 3\<rparr>"

definition uploader :: "uuid \<Rightarrow> user" where
  "uploader i = \<lparr>u_id = i, u_created_at = 0, phone_number = [], full_name = [], username = None,
     department = None, fcm_token = None, hashed_military_id = [], hashed_password = [],
     device_fingerprint = None, token_version = 0, u_status = [], u_role = [], expiry_date = None,
     last_seen_at = None, is_online = False, u_avatar_object_key = None, mfa_enabled = False\<rparr>"

definition no_pillow :: "unit pillow" where
  "no_pillow = \<lparr>pl_installed = False, pl_open = (\<lambda>_. Inl TypeError), pl_mode = (\<lambda>_. []), pl_convert = (\<lambda>_ _. Inl TypeError),
     pl_save_jpeg = (\<lambda>_ _ _. Inl TypeError), pl_thumbnail = (\<lambda>_ _. Inl TypeError)\<rparr>"

lemma atLeastLessThan_one: "{0..<1 :: int} = {0}"
  by auto

lemma upload_server_free: "upload_free ref_strs ref_members u (md_sess upload_server)"
  by (simp add: upload_server_def upload_free_def ref_strs_def ref_members_def)

lemma upload_server_bucket: "ref_buckets (md_objects upload_server) (MINIO_BUCKET_ATTACHMENTS settings_defaults)"
  by (simp add: ref_buckets_def upload_server_def settings_defaults_def)

lemma pdf_upload_init:
  "\<exists>out st1. upload_init ref_redis u pdf_upload user upload_server = (Inr out, st1) \<and> uo_total_chunks out = 1"
  by (simp add: upload_init_def pdf_upload_def ALLOWED_MIME_TYPES_def total_chunks_of_def CHUNK_SIZE_def)

text \<open>
  C25. Resumable uploads of anything but images (a declared type that does not start with \<^verbatim>\<open>image/\<close>; the
  server recompresses images): whoever starts an upload of some data, not empty and of the announced size, sends its
  chunks in any order, some perhaps several times, and completes the upload gets a key under
  which exactly the data is stored; the staged chunks and the state of the upload are gone.
\<close>

theorem upload_roundtrip:
  assumes "redis_values R strs members" and "minio_store M objs buckets"
    and "buckets (md_objects st) (MINIO_BUCKET_ATTACHMENTS c)" and "upload_free strs members u (md_sess st)"
    and "upload_init R u b owner st = (Inr out, st1)" and "ui_total_size b = int (length data)" and "data \<noteq> []"
    and "\<not> starts_with (ui_mime_type b) ''image/''" and "set is = {0..<uo_total_chunks out}"
  shows "\<exists>st2 st3 fin. send_chunks R M c u owner (map (\<lambda>i. (i, piece data i)) is) st1 = (Inr (), st2) \<and>
    upload_complete R M P c tid mid u owner st2 = (Inr fin, st3) \<and> uc_size_bytes fin = int (length data) \<and>
    objs (md_objects st3) (MINIO_BUCKET_ATTACHMENTS c) (uc_media_key fin) = Some data \<and>
    (\<forall>i\<in>set is. objs (md_objects st3) (MINIO_BUCKET_ATTACHMENTS c) (staging_key u i) = None) \<and>
    upload_status R u owner st3 = Inl not_found"
proof -
  note up = uploadsI [OF assms(1,2)]
  note i = uploads.init_uploading [OF up assms(4,5)]
  have "minio_staging.ready_for_uploads buckets c (md_objects st1)"
    using assms(3) i(2) by (simp add: minio_staging.ready_for_uploads_def [OF uploads.axioms(2) [OF up]])
  from uploads.upload_stored [OF up this i(1) assms(6,7,8), of "is" P tid mid]
  show ?thesis
    using assms(9) upload_init_Inr(2) [OF assms(5)]
    by (simp add: minio_staging.staged_def [OF uploads.axioms(2) [OF up]])
qed

theorem upload_roundtrip_witness:
  "\<exists>out st1 st2 st3 fin. upload_init ref_redis ''u'' pdf_upload (uploader 1) upload_server = (Inr out, st1) \<and>
    send_chunks ref_redis ref_minio settings_defaults ''u'' (uploader 1) (map (\<lambda>i. (i, piece [1, 2, 3] i)) [0, 0]) st1 = (Inr (), st2) \<and>
    upload_complete ref_redis ref_minio no_pillow settings_defaults 5 6 ''u'' (uploader 1) st2 = (Inr fin, st3) \<and>
    ref_objs (md_objects st3) ''attachments'' (uc_media_key fin) = Some [1, 2, 3]"
proof -
  obtain out st1 where i: "upload_init ref_redis ''u'' pdf_upload (uploader 1) upload_server = (Inr out, st1)" "uo_total_chunks out = 1"
    using pdf_upload_init by blast
  have "\<not> starts_with (ui_mime_type pdf_upload) ''image/''" "ui_total_size pdf_upload = int (length [1, 2, 3 :: 8 word])"
    by (simp_all add: pdf_upload_def starts_with_def)
  from upload_roundtrip [OF ref.redis_values_axioms ref_minio.minio_store_axioms upload_server_bucket upload_server_free i(1)
      this(2) _ this(1), of "[0, 0]" no_pillow 5 6] i(2)
  have "\<exists>st2 st3 fin. send_chunks ref_redis ref_minio settings_defaults ''u'' (uploader 1) (map (\<lambda>i. (i, piece [1, 2, 3] i)) [0, 0]) st1 = (Inr (), st2) \<and>
    upload_complete ref_redis ref_minio no_pillow settings_defaults 5 6 ''u'' (uploader 1) st2 = (Inr fin, st3) \<and>
    ref_objs (md_objects st3) (MINIO_BUCKET_ATTACHMENTS settings_defaults) (uc_media_key fin) = Some [1, 2, 3]"
    by (simp add: atLeastLessThan_one del: send_chunks.simps list.map(2)) blast
  then show ?thesis using i(1) by (simp add: settings_defaults_def)
qed

text \<open>
  Resuming: after any sequence of accepted chunks the status lists exactly the chunk
  numbers sent, in order and without repetition, and the missing ones, and it reports the
  upload as complete exactly when nothing is missing.
\<close>

theorem upload_status_exact:
  assumes "redis_values R strs members" and "minio_store M objs buckets"
    and "buckets (md_objects st) (MINIO_BUCKET_ATTACHMENTS c)" and "upload_free strs members u (md_sess st)"
    and "upload_init R u b owner st = (Inr out, st1)"
    and "\<forall>(i, d)\<in>set ps. 0 \<le> i \<and> i < uo_total_chunks out \<and> d \<noteq> [] \<and> int (length d) \<le> CHUNK_SIZE"
  shows "\<exists>st2 res. send_chunks R M c u owner ps st1 = (Inr (), st2) \<and> upload_status R u owner st2 = Inr res \<and>
    us_received_chunks res = sorted_list_of_set (fst ` set ps) \<and>
    us_missing_chunks res = filter (\<lambda>i. i \<notin> fst ` set ps) (py_range (uo_total_chunks out)) \<and>
    (us_complete res \<longleftrightarrow> fst ` set ps = {0..<uo_total_chunks out})"
proof -
  note up = uploadsI [OF assms(1,2)]
  note i = uploads.init_uploading [OF up assms(4,5)] and n = upload_init_Inr(2) [OF assms(5)]
  have r: "minio_staging.ready_for_uploads buckets c (md_objects st1)"
    using assms(3) i(2) by (simp add: minio_staging.ready_for_uploads_def [OF uploads.axioms(2) [OF up]])
  have "list_all (uploads.valid_chunk b) ps"
    using assms(6) n by (auto simp: list_all_iff uploads.valid_chunk_def [OF up])
  from uploads.send_chunks_ok [OF up i(1) r this] obtain st2 where
    s2: "send_chunks R M c u owner ps st1 = (Inr (), st2)" "uploading strs members u b owner (fst ` set ps) (md_sess st2)"
    by auto
  have "fst ` set ps \<subseteq> {0..<total_chunks_of (ui_total_size b)}" using assms(6) n by auto
  from uploads.status_uploading [OF up s2(2) this] show ?thesis using s2(1) n by simp
qed

theorem upload_status_exact_witness:
  "\<exists>out st1 st2 res. upload_init ref_redis ''u'' pdf_upload (uploader 1) upload_server = (Inr out, st1) \<and>
    send_chunks ref_redis ref_minio settings_defaults ''u'' (uploader 1) [] st1 = (Inr (), st2) \<and>
    upload_status ref_redis ''u'' (uploader 1) st2 = Inr res \<and> us_missing_chunks res = [0] \<and> \<not> us_complete res"
proof -
  obtain out st1 where i: "upload_init ref_redis ''u'' pdf_upload (uploader 1) upload_server = (Inr out, st1)" "uo_total_chunks out = 1"
    using pdf_upload_init by blast
  have "py_range 1 = [0]" "{0..<1 :: int} \<noteq> {}" by (simp_all add: py_range_def)
  with upload_status_exact [OF ref.redis_values_axioms ref_minio.minio_store_axioms upload_server_bucket upload_server_free i(1), of "[]"] i
  show ?thesis by (simp del: send_chunks.simps) blast
qed

text \<open>
  C26. Uploads of other users: as long as an upload is open, whatever its owner has sent with
  whatever outcome, every other user gets the answer for an unknown upload from every
  endpoint, and nothing changes.
\<close>

theorem upload_isolated:
  assumes "redis_values R strs members" and "upload_free strs members u (md_sess st)"
    and "upload_init R u b owner st = (Inr out, st1)" and "send_chunks R M c u owner ps st1 = (r, st2)"
    and "u_id other \<noteq> u_id owner"
  shows "upload_chunk R M c u i d other st2 = (Inl not_found, st2) \<and>
    upload_status R u other st2 = Inl not_found \<and>
    upload_complete R M P c tid mid u other st2 = (Inl not_found, st2)"
proof -
  have "uploading strs members u b owner {} (md_sess st1)"
    using redis_values.uploading_init [OF assms(1,2)] upload_init_Inr(1) [OF assms(3)] by simp
  then obtain got where "uploading strs members u b owner got (md_sess st2)"
    using redis_values.uploading_send [OF assms(1)] assms(4) by (metis snd_conv)
  from redis_values.load_state_uploading [OF assms(1) this, of "u_id other"] assms(5)
  show ?thesis by (simp add: upload_chunk_def upload_status_def upload_complete_def)
qed

theorem upload_isolated_witness:
  "\<exists>out st1. upload_init ref_redis ''u'' pdf_upload (uploader 1) upload_server = (Inr out, st1) \<and>
    upload_status ref_redis ''u'' (uploader 2) st1 = Inl not_found"
proof -
  obtain out st1 where i: "upload_init ref_redis ''u'' pdf_upload (uploader 1) upload_server = (Inr out, st1)"
    using pdf_upload_init by blast
  have "send_chunks ref_redis ref_minio settings_defaults ''u'' (uploader 1) [] st1 = (Inr (), st1)" by simp
  moreover have "u_id (uploader 2) \<noteq> u_id (uploader 1)" by (simp add: uploader_def)
  ultimately show ?thesis
    using upload_isolated [OF ref.redis_values_axioms upload_server_free i, of ref_minio settings_defaults "[]" "Inr ()" st1 "uploader 2"]
      i by blast
qed

text \<open>
  A size mismatch strands the upload: when all chunks are there but their total size is
  not the announced one, completing answers 400 and drops the staged chunks, but the set of
  received chunks stays. The status then still reports a complete upload, and completing again
  fails in the object store.
\<close>

theorem size_mismatch_strands:
  assumes "redis_values R strs members" and "minio_store M objs buckets"
    and "buckets (md_objects st) (MINIO_BUCKET_ATTACHMENTS c)" and "0 < ui_total_size b"
    and "uploading strs members u b owner {0..<total_chunks_of (ui_total_size b)} (md_sess st)"
    and "assemble_staging M c u (total_chunks_of (ui_total_size b)) (md_objects st) = Inr data"
    and "int (length data) \<noteq> ui_total_size b"
  shows "\<exists>st1 res. upload_complete R M P c tid mid u owner st = (Inl (HTTPException 400 ''size mismatch - re-upload''), st1) \<and>
    upload_status R u owner st1 = Inr res \<and> us_complete res \<and>
    upload_complete R M P c tid mid u owner st1 = (Inl (S3Error ''NoSuchKey''), st1)"
proof -
  let ?n = "total_chunks_of (ui_total_size b)"
  note up = uploadsI [OF assms(1,2)] and mst = uploads.axioms(2) [OF uploadsI [OF assms(1,2)]]
  have r: "minio_staging.ready_for_uploads buckets c (md_objects st)"
    using assms(3) by (simp add: minio_staging.ready_for_uploads_def [OF mst])
  obtain os1 where d: "delete_staging M c u ?n (md_objects st) = (Inr (), os1)"
    "minio_staging.ready_for_uploads buckets c os1"
    "\<And>i. 0 \<le> i \<Longrightarrow> i < ?n \<Longrightarrow> minio_staging.staged objs c os1 u i = None"
    using uploads.discard_all [OF up r] by blast
  let ?st = "st\<lparr>md_objects := os1\<rparr>"
  have a: "upload_complete R M P c tid mid u owner st = (Inl (HTTPException 400 ''size mismatch - re-upload''), ?st)"
    using uploads.complete_all_received [OF up assms(5,6)] assms(7) d(1) by simp
  have s: "uploading strs members u b owner {0..<?n} (md_sess ?st)" using assms(5) by simp
  have g: "assemble_staging M c u ?n (md_objects ?st) = Inl (S3Error ''NoSuchKey'')"
    using uploads.assemble_empty [OF up d(2), of ?n u] d(3) total_chunks_bounds(1) [OF assms(4)] by simp
  show ?thesis
    using a uploads.status_uploading [OF up s] uploads.complete_all_received [OF up s g] by simp
qed

theorem size_mismatch_strands_witness:
  "\<exists>st st1 res. upload_complete ref_redis ref_minio no_pillow settings_defaults 5 6 ''u'' (uploader 1) st =
      (Inl (HTTPException 400 ''size mismatch - re-upload''), st1) \<and>
    upload_status ref_redis ''u'' (uploader 1) st1 = Inr res \<and> us_complete res \<and>
    upload_complete ref_redis ref_minio no_pillow settings_defaults 5 6 ''u'' (uploader 1) st1 = (Inl (S3Error ''NoSuchKey''), st1)"
proof -
  let ?ps = "[(0, [7])] :: (int \<times> bytes) list"
  obtain out st1 where i: "upload_init ref_redis ''u'' pdf_upload (uploader 1) upload_server = (Inr out, st1)"
    using pdf_upload_init by blast
  note up = ref_up.init_uploading [OF upload_server_free i]
  have r: "ref_stg.ready_for_uploads (md_objects st1)"
    using upload_server_bucket up(2) by (simp add: ref_stg.ready_for_uploads_def)
  have n: "total_chunks_of (ui_total_size pdf_upload) = 1" "ui_total_size pdf_upload = 3"
    by (simp_all add: pdf_upload_def total_chunks_of_def CHUNK_SIZE_def)
  have "list_all (ref_up.valid_chunk pdf_upload) ?ps"
    using n(1) by (simp add: ref_up.valid_chunk_def CHUNK_SIZE_def)
  from ref_up.send_chunks_ok [OF up(1) r this] obtain st2 :: "(store, object_store) media" where
    s: "uploading ref_strs ref_members ''u'' pdf_upload (uploader 1) {0} (md_sess st2)"
      "md_objects st2 = ref_stg.stg.put_all ''u'' ?ps (md_objects st1)"
    by auto
  have a: "assemble_staging ref_minio settings_defaults ''u'' 1 (md_objects st2) = Inr [7]"
    using ref_stg.stg.assemble_put_all [OF r, of ?ps 1 "''u''"] s(2) by (simp add: py_range_def atLeastLessThan_one)
  have "ref_stg.ready_for_uploads (md_objects st2)"
    using ref_stg.stg.put_all_ready [OF r] s(2) by simp
  then have "ref_buckets (md_objects st2) (MINIO_BUCKET_ATTACHMENTS settings_defaults)"
    by (simp add: ref_stg.ready_for_uploads_def)
  from size_mismatch_strands [OF ref.redis_values_axioms ref_minio.minio_store_axioms, OF this,
      of pdf_upload "''u''" "uploader 1" "[7]" no_pillow 5 6] s(1) a
  show ?thesis by (simp add: n(2) n(1) [unfolded n(2)] atLeastLessThan_one) blast
qed

end
