(* ===== verification/Ocr.thy ===== *)
theory Ocr
  imports Media Push Ws_Manager
begin

text \<open>
  The keyword alerts: \<^verbatim>\<open>app/ocr.py\<close> (text extraction and normalisation), \<^verbatim>\<open>app/redis.py\<close>
  (keyword sets, alert channel and flags), \<^verbatim>\<open>app/push.py\<close> (alert pushes), the routes of
  \<^verbatim>\<open>app/api/routes/ocr.py\<close> and the background task \<^verbatim>\<open>_process_ocr\<close> of
  \<^verbatim>\<open>app/api/routes/media.py\<close>. Tesseract, Pillow, PyPDF2, python-docx and openpyxl are a
  parameter, the record \<open>ocr_engine\<close>, whose functions read the content of the file. Creating, writing
  and removing the temporary file may fail: the record \<open>temp_files\<close>.

  \<^verbatim>\<open>_process_ocr\<close> evaluates two names its module does not bind, so its model takes the names
  the module binds as an argument: \<open>MEDIA_GLOBALS\<close> are the names of the module as it is.
\<close>

section \<open>Text\<close>

definition word_char :: "char \<Rightarrow> bool" where
  "word_char c = (let n = (of_char c :: nat) in (97 \<le> n \<and> n \<le> 122) \<or> (48 \<le> n \<and> n \<le> 57))"

text \<open>\<^verbatim>\<open>re.sub(r'\s+', ' ', s)\<close>: a run of white space becomes one space.\<close>

fun collapse :: "bool \<Rightarrow> string \<Rightarrow> string" where
  "collapse b [] = []"
| "collapse b (c # cs) =
     (if is_space c then (if b then collapse True cs else CHR '' '' # collapse True cs) else c # collapse False cs)"

definition normalize_text :: "string \<Rightarrow> string" where
  "normalize_text text =
     (let t1 = lower text;
          t2 = map (\<lambda>c. if word_char c \<or> is_space c then c else CHR '' '') t1
      in strip (collapse False t2))"

text \<open>\<^verbatim>\<open>contains_keywords\<close> compares whole words. No code calls it: the background task looks for substrings.\<close>

definition contains_keywords :: "string \<Rightarrow> string fset \<Rightarrow> bool" where
  "contains_keywords text keywords = (\<exists>w\<in>set (split_ws (normalize_text text)). w |\<in>| keywords)"

record ocr_engine =
  oe_image :: "bytes \<Rightarrow> string res"
  oe_pdf :: "bytes \<Rightarrow> string list res"
  oe_docx :: "bytes \<Rightarrow> string list res"
  oe_xlsx :: "bytes \<Rightarrow> string option list list list res"
  oe_text :: "bytes \<Rightarrow> string res"

definition or_empty :: "string res \<Rightarrow> string" where
  "or_empty r = (case r of Inl _ \<Rightarrow> [] | Inr t \<Rightarrow> t)"

definition lines :: "string list res \<Rightarrow> string res" where
  "lines r = (case r of Inl e \<Rightarrow> Inl e | Inr ls \<Rightarrow> Inr (join [CHR 10] ls))"

definition row_text :: "string option list \<Rightarrow> string" where
  "row_text row = join '' '' (map the (filter (\<lambda>x. x \<noteq> None) row))"

definition extract_text :: "ocr_engine \<Rightarrow> bytes \<Rightarrow> string \<Rightarrow> string" where
  "extract_text E data mime_type = or_empty
     (if starts_with mime_type ''image/'' then oe_image E data
      else if mime_type = ''application/pdf'' then lines (oe_pdf E data)
      else if mime_type \<in> {''application/vnd.openxmlformats-officedocument.wordprocessingml.document'', ''application/msword''}
        then lines (oe_docx E data)
      else if mime_type \<in> {''application/vnd.openxmlformats-officedocument.spreadsheetml.sheet'', ''application/vnd.ms-excel''}
        then lines (case oe_xlsx E data of Inl e \<Rightarrow> Inl e
               | Inr sheets \<Rightarrow> Inr (filter (\<lambda>t. t \<noteq> []) (concat (map (map row_text) sheets))))
      else if starts_with mime_type ''text/'' then oe_text E data
      else Inr [])"

section \<open>Keywords and alerts in Redis\<close>

text \<open>Redis, what was published, and the temporary files that exist.\<close>

record 's alerts =
  al_redis :: 's
  al_pub :: "(string \<times> string) list"
  al_tmp :: "string list"

definition keywords_key :: "string \<Rightarrow> string" where
  "keywords_key user_id = ''user:'' @ user_id @ '':ocr_keywords''"

definition get_user_keywords :: "'s redis \<Rightarrow> string \<Rightarrow> 's \<Rightarrow> string fset" where
  "get_user_keywords R user_id s = r_smembers R (keywords_key user_id) s"

definition set_user_keywords :: "'s redis \<Rightarrow> string \<Rightarrow> string fset \<Rightarrow> 's \<Rightarrow> bool \<times> 's" where
  "set_user_keywords R user_id keywords s =
     (True, fold (r_sadd R (keywords_key user_id)) (sorted_list_of_fset keywords) (r_delete R (keywords_key user_id) s))"

definition load_user_keywords :: "'s redis \<Rightarrow> string \<Rightarrow> 's \<Rightarrow> string fset" where
  "load_user_keywords R user_id s = get_user_keywords R user_id s"

definition alert_message :: "string \<Rightarrow> string \<Rightarrow> string \<Rightarrow> payload" where
  "alert_message file_id user_id keyword =
     [(''file_id'', JStr file_id), (''user_id'', JStr user_id), (''keyword'', JStr keyword)]"

definition publish_ocr_alert :: "string \<Rightarrow> string \<Rightarrow> string \<Rightarrow> 's alerts \<Rightarrow> bool \<times> 's alerts" where
  "publish_ocr_alert file_id user_id keyword st =
     (True, st\<lparr>al_pub := al_pub st @ [(''ocr:alerts'', dumps (JObj (alert_message file_id user_id keyword)))]\<rparr>)"

definition set_alert_flag :: "'s redis \<Rightarrow> string \<Rightarrow> nat \<Rightarrow> 's alerts \<Rightarrow> bool \<times> 's alerts" where
  "set_alert_flag R file_id ttl st =
     (True, st\<lparr>al_redis := r_set R (''ocr:alert:'' @ file_id) ''1'' (Some ttl) (al_redis st)\<rparr>)"

section \<open>The background task\<close>

text \<open>
  The names \<^verbatim>\<open>routes/media.py\<close> binds: its imports and its definitions. The built-in names
  the task uses are not listed.
\<close>

definition MEDIA_GLOBALS :: "string list" where
  "MEDIA_GLOBALS = [''io'', ''json'', ''secrets'', ''tempfile'', ''os'', ''timedelta'', ''APIRouter'', ''Depends'',
     ''HTTPException'', ''Request'', ''status'', ''BackgroundTasks'', ''BaseModel'', ''Field'', ''get_current_user'',
     ''settings'', ''redis_sessions'', ''User'', ''ALLOWED_MIME_TYPES'', ''MAX_UPLOAD_BYTES'', ''StorageService'',
     ''extract_text'', ''load_user_keywords'', ''contains_keywords'', ''publish_ocr_alert'', ''set_alert_flag'',
     ''router'', ''CHUNK_SIZE'', ''UPLOAD_STATE_TTL'', ''PRESIGN_VIEW_TTL'', ''_storage'', ''UploadInitIn'',
     ''UploadInitOut'', ''UploadStatusOut'', ''UploadCompleteOut'', ''PresignedOut'', ''_state_key'', ''_chunks_key'',
     ''_load_state'', ''upload_init'', ''upload_chunk'', ''upload_status'', ''upload_complete'', ''presigned_view_url'',
     ''_process_image'', ''_ext_for'', ''_process_ocr'']"

text \<open>The first keyword that occurs in the text, in the order in which Python iterates over the set.\<close>

definition matched_keyword :: "(string fset \<Rightarrow> string list) \<Rightarrow> string fset \<Rightarrow> string \<Rightarrow> string option" where
  "matched_keyword enum keywords normalized = find (\<lambda>kw. contains kw normalized) (enum keywords)"

text \<open>
  The body of the \<^verbatim>\<open>try\<close> block; \<open>enum\<close> is the order in which Python iterates over the
  keyword set.
\<close>

definition ocr_body ::
  "string list \<Rightarrow> ocr_engine \<Rightarrow> 's redis \<Rightarrow> (string fset \<Rightarrow> string list) \<Rightarrow> ocr_task \<Rightarrow> ('s alerts, unit) handler" where
  "ocr_body globals E R enum t st =
     (let text = extract_text E (ot_file_bytes t) (ot_mime_type t)
      in if text = [] then (Inr (), st)
         else
           let keywords = load_user_keywords R (ot_user_id t) (al_redis st)
           in if keywords = {||} then (Inr (), st)
              else with_name globals ''normalize_text'' (\<lambda>st.
                let normalized = normalize_text text
                in (case matched_keyword enum keywords normalized of
                      None \<Rightarrow> (Inr (), st)
                    | Some kw \<Rightarrow>
                        if kw = [] then (Inr (), st)
                        else
                          let st1 = snd (publish_ocr_alert (ot_media_key t) (ot_user_id t) kw st);
                              st2 = snd (set_alert_flag R (ot_media_key t) 300 st1)
                          in (Inr (), st2))) st)"

text \<open>
  The calls on the temporary file: opening one with a suffix yields its path, writing may fail, and so may
  removing it. A file that was opened and could not be written stays.
\<close>

record temp_files =
  tf_open :: "string \<Rightarrow> string res"
  tf_write :: "string \<Rightarrow> bytes \<Rightarrow> bool"
  tf_unlink :: "string \<Rightarrow> bool"

definition ocr_suffix :: "string \<Rightarrow> string" where
  "ocr_suffix mime_type =
     (let ext = ext_for mime_type
      in if ext \<noteq> [] then ext
         else if mime_type = ''text/plain'' then ''.txt''
         else if mime_type = ''text/csv'' then ''.csv''
         else if starts_with mime_type ''image/'' then ''.bin''
         else ''.bin'')"

text \<open>Both handlers of exceptions log with the module's logger; the \<^verbatim>\<open>finally\<close> block removes the file.\<close>

definition log_error :: "string list \<Rightarrow> ('s alerts, unit) handler" where
  "log_error globals = with_name globals ''logger'' (\<lambda>st. (Inr (), st))"

definition process_ocr ::
  "string list \<Rightarrow> ocr_engine \<Rightarrow> temp_files \<Rightarrow> 's redis \<Rightarrow> (string fset \<Rightarrow> string list) \<Rightarrow> ocr_task \<Rightarrow> ('s alerts, unit) handler" where
  "process_ocr globals E T R enum t st =
     (case tf_open T (ocr_suffix (ot_mime_type t)) of
        Inl _ \<Rightarrow> log_error globals st
      | Inr path \<Rightarrow>
          let st1 = st\<lparr>al_tmp := path # al_tmp st\<rparr>
          in if \<not> tf_write T path (ot_file_bytes t) then log_error globals st1
             else
               let (r, st2) = (case ocr_body globals E R enum t st1 of
                      (Inr _, st2) \<Rightarrow> (Inr (), st2)
                    | (Inl _, st2) \<Rightarrow> log_error globals st2)
               in (r, if path \<in> set (al_tmp st2) \<and> tf_unlink T path then st2\<lparr>al_tmp := remove1 path (al_tmp st2)\<rparr> else st2))"

section \<open>The keyword routes\<close>

text \<open>
  The routes await the result of functions that are not coroutines: the function has run when
  the \<^verbatim>\<open>await\<close> raises.
\<close>

definition get_ocr_keywords :: "'s redis \<Rightarrow> user \<Rightarrow> ('s, string list) handler" where
  "get_ocr_keywords R current_user s =
     (let keywords = get_user_keywords R (uuid_str (u_id current_user)) s in (Inl TypeError, s))"

definition normalized_keywords :: "string list \<Rightarrow> string list" where
  "normalized_keywords keywords = map (\<lambda>k. lower (strip k)) (filter (\<lambda>k. strip k \<noteq> []) keywords)"

definition set_ocr_keywords :: "'s redis \<Rightarrow> string list \<Rightarrow> user \<Rightarrow> ('s, string list) handler" where
  "set_ocr_keywords R keywords current_user s =
     (let (ok, s1) = set_user_keywords R (uuid_str (u_id current_user)) (fset_of_list (normalized_keywords keywords)) s
      in (Inl TypeError, s1))"

definition delete_ocr_keywords :: "'s redis \<Rightarrow> user \<Rightarrow> ('s, unit) handler" where
  "delete_ocr_keywords R current_user s =
     (let (ok, s1) = set_user_keywords R (uuid_str (u_id current_user)) {||} s in (Inl TypeError, s1))"

section \<open>Alert pushes\<close>

text \<open>
  \<^verbatim>\<open>app/push.py\<close>: the SDK is initialised from three environment variables; the module global
  is \<open>p_available\<close>. Reading the credentials, the argument \<open>certificate\<close>, is outside the \<^verbatim>\<open>try\<close> block and may raise. A data message carries no notification.
\<close>

definition initialize_firebase ::
  "(string \<Rightarrow> string option) \<Rightarrow> (string \<times> string \<times> string \<Rightarrow> unit res) \<Rightarrow> (string \<times> string \<times> string \<Rightarrow> bool) \<Rightarrow>
     (push_state, bool) handler" where
  "initialize_firebase env certificate init_app st =
     (if p_available st then (Inr True, st)
      else
        (case (env ''FIREBASE_PROJECT_ID'', env ''FIREBASE_CLIENT_EMAIL'', env ''FIREBASE_PRIVATE_KEY'') of
           (Some proj, Some client_email, Some private_key) \<Rightarrow>
             if proj = [] \<or> client_email = [] \<or> private_key = [] then (Inr False, st)
             else
               let cred = (proj, replace [CHR 92, CHR ''n''] [CHR 10] private_key, client_email)
               in (case certificate cred of
                     Inl e \<Rightarrow> (Inl e, st)
                   | Inr _ \<Rightarrow> if init_app cred then (Inr True, st\<lparr>p_available := True\<rparr>) else (Inr False, st))
         | _ \<Rightarrow> (Inr False, st)))"

definition get_fcm_token :: "uuid \<Rightarrow> db \<Rightarrow> string option" where
  "get_fcm_token user_id d = (case user_by_id d user_id of None \<Rightarrow> None | Some u \<Rightarrow> fcm_token u)"

definition send_ocr_push ::
  "(string \<Rightarrow> string option) \<Rightarrow> (string \<times> string \<times> string \<Rightarrow> unit res) \<Rightarrow> (string \<times> string \<times> string \<Rightarrow> bool) \<Rightarrow>
     firebase \<Rightarrow> db \<Rightarrow> uuid \<Rightarrow> string \<Rightarrow> string \<Rightarrow> (push_state, unit) handler" where
  "send_ocr_push env certificate init_app F d user_id file_id keyword st =
     (case initialize_firebase env certificate init_app st of
        (Inl e, st1) \<Rightarrow> (Inl e, st1)
      | (Inr False, st1) \<Rightarrow> (Inr (), st1)
      | (Inr True, st1) \<Rightarrow>
          (case get_fcm_token user_id d of
             None \<Rightarrow> (Inr (), st1)
           | Some token \<Rightarrow>
               if token = [] then (Inr (), st1)
               else
                 let msg = \<lparr>fcm_tokens = [token], fcm_title = [], fcm_body = [],
                            fcm_data = [(''type'', ''ocr_alert''), (''file_id'', file_id), (''keyword'', keyword)],
                            fcm_priority = []\<rparr>
                 in (Inr (), if fb_send F msg then st1\<lparr>p_sent := p_sent st1 @ [msg]\<rparr> else st1)))"

section \<open>Normalised text\<close>

lemma word_char_cases [simp]: "\<not> word_char CHR '' ''" "is_space CHR '' ''"
  by (simp_all add: word_char_def is_space_def)

lemma word_not_space: "word_char c \<Longrightarrow> \<not> is_space c"
  by (auto simp: word_char_def is_space_def Let_def)

lemma lower_word: "word_char c \<Longrightarrow> lower_char c = c"
  by (auto simp: word_char_def lower_char_def Let_def)

lemma lower_blank [simp]: "lower_char CHR '' '' = CHR '' ''"
  by (simp add: lower_char_def)

lemma collapse_set: "set (collapse b s) \<subseteq> {c \<in> set s. \<not> is_space c} \<union> {CHR '' ''}"
  by (induction b s rule: collapse.induct) auto

definition single_spaced :: "string \<Rightarrow> bool" where
  "single_spaced s = successively (\<lambda>a b. \<not> (is_space a \<and> is_space b)) s"

lemma single_spaced_Nil [simp]: "single_spaced []"
  by (simp add: single_spaced_def)

lemma single_spaced_Cons [simp]: "single_spaced (c # s) \<longleftrightarrow> single_spaced s \<and> (s = [] \<or> \<not> is_space c \<or> \<not> is_space (hd s))"
  by (cases s) (auto simp: single_spaced_def)

lemma collapse_single:
  "single_spaced (collapse b s) \<and> (b \<longrightarrow> collapse b s = [] \<or> \<not> is_space (hd (collapse b s)))"
  by (induction b s rule: collapse.induct) auto

lemma collapse_id:
  "\<lbrakk>single_spaced s; \<forall>c\<in>set s. is_space c \<longrightarrow> c = CHR '' ''; b \<longrightarrow> s = [] \<or> \<not> is_space (hd s)\<rbrakk> \<Longrightarrow> collapse b s = s"
  by (induction b s rule: collapse.induct) auto

lemma single_spaced_dropWhile: "single_spaced s \<Longrightarrow> single_spaced (dropWhile P s)"
  by (induction s) auto

lemma single_spaced_rev: "single_spaced (rev s) = single_spaced s"
  unfolding single_spaced_def successively_rev by (simp add: conj_commute)

lemma single_spaced_strip: "single_spaced s \<Longrightarrow> single_spaced (strip s)"
  unfolding strip_def strip_by_def single_spaced_rev
  by (rule single_spaced_dropWhile) (simp only: single_spaced_rev single_spaced_dropWhile)

lemma set_strip: "set (strip s) \<subseteq> set s"
  by (auto simp: strip_def strip_by_def dest!: set_dropWhileD)

lemma strip_ends: "strip s = [] \<or> (\<not> is_space (hd (strip s)) \<and> \<not> is_space (last (strip s)))"
proof (cases "strip s = []")
  case False
  let ?d = "dropWhile is_space s"
  have l: "\<not> is_space (last (strip s))"
    using False hd_dropWhile [of is_space "rev ?d"] by (auto simp: strip_def strip_by_def last_rev)
  obtain u where u: "?d = strip s @ u"
    by (metis rev_append rev_rev_ident strip_by_def strip_def takeWhile_dropWhile_id)
  with False have "?d \<noteq> []" "hd ?d = hd (strip s)" by simp_all
  with hd_dropWhile [of is_space s] l show ?thesis by simp
qed simp

text \<open>The shape every normalised text has.\<close>

definition tidy :: "string \<Rightarrow> bool" where
  "tidy s \<longleftrightarrow> (\<forall>c\<in>set s. word_char c \<or> c = CHR '' '') \<and> single_spaced s \<and>
     (s = [] \<or> \<not> is_space (hd s) \<and> \<not> is_space (last s))"

lemma tidy_normalize: "tidy (normalize_text t)"
proof -
  let ?t = "map (\<lambda>c. if word_char c \<or> is_space c then c else CHR '' '') (lower t)"
  have "\<forall>c\<in>set (collapse False ?t). word_char c \<or> c = CHR '' ''"
    using collapse_set [of False ?t] by (auto split: if_splits)
  then have "\<forall>c\<in>set (normalize_text t). word_char c \<or> c = CHR '' ''"
    using set_strip by (fastforce simp: normalize_text_def Let_def)
  moreover have "single_spaced (normalize_text t)"
    unfolding normalize_text_def Let_def by (rule single_spaced_strip) (simp add: collapse_single)
  ultimately show ?thesis
    using strip_ends by (simp add: tidy_def normalize_text_def Let_def)
qed

lemma normalize_tidy: "tidy s \<Longrightarrow> normalize_text s = s"
proof -
  assume t: "tidy s"
  then have "lower s = s" by (auto simp: tidy_def lower_def lower_word intro!: map_idI)
  moreover have "map (\<lambda>c. if word_char c \<or> is_space c then c else CHR '' '') s = s"
    using t by (auto simp: tidy_def intro!: map_idI)
  moreover have "collapse False s = s"
    by (rule collapse_id) (use t in \<open>auto simp: tidy_def dest: word_not_space\<close>)
  moreover have "strip s = s" unfolding strip_def by (rule strip_by_id) (use t in \<open>auto simp: tidy_def\<close>)
  ultimately show ?thesis by (simp add: normalize_text_def)
qed

lemma words_plain: "w \<in> set (split_ws (normalize_text t)) \<Longrightarrow> list_all word_char w"
proof -
  assume "w \<in> set (split_ws (normalize_text t))"
  then have "set w \<subseteq> {c \<in> set (normalize_text t). \<not> is_space c}" by (simp add: split_ws_words)
  moreover have "\<forall>c\<in>set (normalize_text t). word_char c \<or> c = CHR '' ''" using tidy_normalize [of t] unfolding tidy_def by blast
  ultimately show ?thesis unfolding list_all_iff using word_char_cases(2) by blast
qed

section \<open>Properties\<close>

lemma lower_space [simp]: "is_space (lower_char c) = is_space c"
  by (auto simp: is_space_def lower_char_def Let_def)

text \<open>What the keyword route stores begins and ends with no space.\<close>

lemma normalized_keyword_ends:
  assumes "kw \<in> set (normalized_keywords kws)"
  shows "kw \<noteq> []" "\<not> is_space (hd kw)" "\<not> is_space (last kw)"
proof -
  obtain k where k: "kw = lower (strip k)" "strip k \<noteq> []" using assms by (auto simp: normalized_keywords_def)
  with strip_ends [of k] show "kw \<noteq> []" "\<not> is_space (hd kw)" "\<not> is_space (last kw)"
    by (simp_all add: lower_def hd_map last_map)
qed

lemma single_spaced_append: "single_spaced (xs @ ys) \<Longrightarrow> single_spaced xs \<and> single_spaced ys"
  by (auto simp: single_spaced_def successively_append_iff)

lemma tidy_infix:
  assumes "tidy s" and "contains kw s" and "kw = [] \<or> \<not> is_space (hd kw) \<and> \<not> is_space (last kw)"
  shows "tidy kw"
proof -
  obtain u v where s: "s = u @ kw @ v" using assms(2) by (auto simp: contains_iff)
  have "single_spaced kw" using assms(1) s single_spaced_append [of u "kw @ v"] single_spaced_append [of kw v] by (simp add: tidy_def)
  with assms(1,3) s show ?thesis by (auto simp: tidy_def)
qed

text \<open>
  C27. Normalisation: the result has only lower case letters, digits and single inner spaces,
  and normalising again changes nothing. So a keyword that the keyword route stored and that is not its own normal form,
  as one with a hyphen, an accent or two spaces in a row, is never the match that the background task finds, whatever
  the text and the other keywords; any other stored keyword, also one with an inner space, is found in itself.
\<close>

theorem normalize_text_canonical:
  assumes "\<And>S. set (enum S) = fset S" and "kw \<in> set (normalized_keywords kws)"
  shows "tidy (normalize_text t) \<and> normalize_text (normalize_text t) = normalize_text t \<and>
    (normalize_text kw \<noteq> kw \<longrightarrow> matched_keyword enum K (normalize_text t) \<noteq> Some kw) \<and>
    (normalize_text kw = kw \<longrightarrow> matched_keyword enum {|kw|} (normalize_text kw) = Some kw)"
proof (intro conjI impI notI)
  show "tidy (normalize_text t)" by (rule tidy_normalize)
  show "normalize_text (normalize_text t) = normalize_text t" by (rule normalize_tidy [OF tidy_normalize])
next
  assume no: "normalize_text kw \<noteq> kw" and m: "matched_keyword enum K (normalize_text t) = Some kw"
  have "contains kw (normalize_text t)" using find_SomeD [OF m [unfolded matched_keyword_def]] by simp
  then have "tidy kw" using tidy_infix [OF tidy_normalize] normalized_keyword_ends [OF assms(2)] by blast
  with no show False using normalize_tidy by blast
next
  assume n: "normalize_text kw = kw"
  have "contains kw kw" unfolding contains_iff by (metis append.left_neutral append.right_neutral)
  moreover have "set (enum {|kw|}) = {kw}" using assms(1) by simp
  ultimately have "find (\<lambda>x. contains x kw) (enum {|kw|}) \<noteq> None" by (simp add: find_None_iff)
  then obtain x where x: "find (\<lambda>x. contains x kw) (enum {|kw|}) = Some x" by blast
  with find_SomeD [OF x] \<open>set (enum {|kw|}) = {kw}\<close> show "matched_keyword enum {|kw|} (normalize_text kw) = Some kw"
    by (simp add: matched_keyword_def n)
qed

theorem normalize_text_canonical_witness:
  "matched_keyword sorted_list_of_fset {|''top-secret''|} (normalize_text ''the Top-Secret plan'') \<noteq> Some ''top-secret'' \<and>
   matched_keyword sorted_list_of_fset {|''top secret''|} (normalize_text ''top secret'') = Some ''top secret''"
proof -
  have "normalized_keywords ['' Top-Secret'', ''top secret''] = [''top-secret'', ''top secret'']" by code_simp
  then have stored: "''top-secret'' \<in> set (normalized_keywords ['' Top-Secret'', ''top secret''])"
    "''top secret'' \<in> set (normalized_keywords ['' Top-Secret'', ''top secret''])" by simp_all
  have "normalize_text ''top-secret'' \<noteq> ''top-secret''" "normalize_text ''top secret'' = ''top secret''" by code_simp+
  with normalize_text_canonical [OF _ stored(1), of sorted_list_of_fset "''the Top-Secret plan''" "{|''top-secret''|}"]
    normalize_text_canonical [OF _ stored(2), of sorted_list_of_fset] show ?thesis by simp
qed

context redis_values
begin

lemma sadd_all:
  "strs s k = None \<Longrightarrow> strs (fold (r_sadd R k) ms s) = strs s \<and>
     members (fold (r_sadd R k) ms s) = (members s)(k := members s k |\<union>| fset_of_list ms)"
  by (induction ms arbitrary: s) (auto simp: strs_sadd members_sadd fun_eq_iff)

lemma set_keywords:
  "members (snd (set_user_keywords R u K s)) = (members s)(keywords_key u := K)"
  "strs (snd (set_user_keywords R u K s)) = (strs s)(keywords_key u := None)"
  using sadd_all [of "r_delete R (keywords_key u) s" "keywords_key u" "sorted_list_of_fset K"]
  by (simp_all add: set_user_keywords_def value_laws)

lemma get_keywords: "strs s (keywords_key u) = None \<Longrightarrow> get_user_keywords R u s = members s (keywords_key u)"
  by (simp add: get_user_keywords_def value_laws)

end

lemma keywords_key_inject [simp]: "keywords_key u = keywords_key v \<longleftrightarrow> u = v"
  by (simp add: keywords_key_def)

text \<open>
  Storing keywords: the keyword route replaces the user's set by the given keywords,
  stripped, in lower case and without the empty ones, and touches no other user's set, although
  the request itself is answered with an error.
\<close>

theorem keywords_stored:
  assumes "redis_values R strs members" and "set_ocr_keywords R kws user s = (r, s')"
    and "\<And>v. strs s (keywords_key v) = None"
  shows "r = Inl TypeError \<and>
    get_user_keywords R (uuid_str (u_id user)) s' = fset_of_list (normalized_keywords kws) \<and>
    (v \<noteq> uuid_str (u_id user) \<longrightarrow> get_user_keywords R v s' = get_user_keywords R v s)"
proof -
  note rv = assms(1)
  have s: "r = Inl TypeError"
    "s' = snd (set_user_keywords R (uuid_str (u_id user)) (fset_of_list (normalized_keywords kws)) s)"
    using assms(2) by (auto simp: set_ocr_keywords_def split: prod.splits)
  then show ?thesis
    using assms(3) by (simp add: redis_values.get_keywords [OF rv] redis_values.set_keywords [OF rv])
qed

theorem keywords_stored_witness:
  "get_user_keywords fake_redis (uuid_str 1) (snd (set_ocr_keywords fake_redis ['' Secret '', ''  ''] (uploader 1)
     \<lparr>f_store = Map.empty, f_sets = Map.empty\<rparr>)) = {|''secret''|}"
proof -
  have "normalized_keywords ['' Secret '', ''  ''] = [''secret'']" by code_simp
  with keywords_stored [OF fake.redis_values_axioms surjective_pairing, of "\<lparr>f_store = Map.empty, f_sets = Map.empty\<rparr>"
      "['' Secret '', ''  '']" "uploader 1"]
  show ?thesis by (simp add: uploader_def)
qed

text \<open>The temporary file of a task is there and holds the upload.\<close>

definition temp_written :: "temp_files \<Rightarrow> ocr_task \<Rightarrow> bool" where
  "temp_written T t \<longleftrightarrow>
     (case tf_open T (ocr_suffix (ot_mime_type t)) of Inl _ \<Rightarrow> False | Inr path \<Rightarrow> tf_write T path (ot_file_bytes t))"

lemma ocr_body_as_it_is:
  "ocr_body MEDIA_GLOBALS E R enum t st =
     (if extract_text E (ot_file_bytes t) (ot_mime_type t) = [] \<or> load_user_keywords R (ot_user_id t) (al_redis st) = {||}
      then Inr () else Inl (NameError ''normalize_text''), st)"
proof -
  have "''normalize_text'' \<notin> set MEDIA_GLOBALS" by (simp add: MEDIA_GLOBALS_def)
  then show ?thesis by (simp add: ocr_body_def with_name_def Let_def)
qed

lemma ocr_body_bound:
  assumes "''normalize_text'' \<in> set globals" and "\<And>S. set (enum S) = fset S"
    and "[] |\<notin>| load_user_keywords R (ot_user_id t) (al_redis st)"
  shows "\<exists>st'. ocr_body globals E R enum t st = (Inr (), st') \<and> al_tmp st' = al_tmp st \<and>
    (al_pub st' \<noteq> al_pub st \<longleftrightarrow> (let text = extract_text E (ot_file_bytes t) (ot_mime_type t)
       in text \<noteq> [] \<and> (\<exists>kw. kw |\<in>| load_user_keywords R (ot_user_id t) (al_redis st) \<and> contains kw (normalize_text text))))"
proof -
  let ?K = "load_user_keywords R (ot_user_id t) (al_redis st)"
  let ?n = "normalize_text (extract_text E (ot_file_bytes t) (ot_mime_type t))"
  show ?thesis
  proof (cases "matched_keyword enum ?K ?n")
    case None
    then have "\<not> (\<exists>kw. kw |\<in>| ?K \<and> contains kw ?n)" using assms(2) by (auto simp: matched_keyword_def find_None_iff)
    with None assms(1) show ?thesis by (simp add: ocr_body_def with_name_def Let_def)
  next
    case (Some kw)
    then have kw: "kw |\<in>| ?K" "contains kw ?n"
      using find_SomeD [OF Some [unfolded matched_keyword_def]] assms(2) [of ?K] by simp_all
    with assms(3) have "kw \<noteq> []" by auto
    with Some kw assms(1) show ?thesis
      by (auto simp: ocr_body_def with_name_def Let_def publish_ocr_alert_def set_alert_flag_def)
  qed
qed

text \<open>
  C28. The background task never raises an alert. In the module as it is it returns normally if no text is extracted or
  the user has no keywords, and ends in a \<open>NameError\<close> otherwise, also when the temporary file cannot be written;
  in every case Redis and the alert channel are as before. With the two missing names bound it always
  returns, and for a keyword set without the empty keyword, which the keyword route never stores, an alert is published
  exactly when the temporary file is written and a keyword occurs in the normalised text. In both versions
  a file that was written is removed again, if removing works.
\<close>

theorem ocr_task_alerts:
  assumes "\<And>S. set (enum S) = fset S" and "[] |\<notin>| load_user_keywords R (ot_user_id t) (al_redis st)"
    and "text = extract_text E (ot_file_bytes t) (ot_mime_type t)"
    and "process_ocr MEDIA_GLOBALS E T R enum t st = (r, st1)"
    and "process_ocr (''normalize_text'' # ''logger'' # MEDIA_GLOBALS) E T R enum t st = (r', st2)"
  shows "r = (if temp_written T t \<and> (text = [] \<or> load_user_keywords R (ot_user_id t) (al_redis st) = {||})
           then Inr () else Inl (NameError ''logger'')) \<and>
    al_redis st1 = al_redis st \<and> al_pub st1 = al_pub st \<and> r' = Inr () \<and>
    (al_pub st2 \<noteq> al_pub st \<longleftrightarrow> temp_written T t \<and> text \<noteq> [] \<and>
       (\<exists>kw. kw |\<in>| load_user_keywords R (ot_user_id t) (al_redis st) \<and> contains kw (normalize_text text))) \<and>
    (temp_written T t \<and> (\<forall>p. tf_unlink T p) \<longrightarrow> al_tmp st1 = al_tmp st \<and> al_tmp st2 = al_tmp st)"
proof (cases "tf_open T (ocr_suffix (ot_mime_type t))")
  case (Inl e)
  have "''logger'' \<notin> set MEDIA_GLOBALS" by (simp add: MEDIA_GLOBALS_def)
  with Inl assms(4,5) show ?thesis by (auto simp: process_ocr_def log_error_def with_name_def temp_written_def)
next
  case (Inr path)
  let ?st = "st\<lparr>al_tmp := path # al_tmp st\<rparr>"
  have logger: "''logger'' \<notin> set MEDIA_GLOBALS" by (simp add: MEDIA_GLOBALS_def)
  obtain st' where b: "ocr_body (''normalize_text'' # ''logger'' # MEDIA_GLOBALS) E R enum t ?st = (Inr (), st')"
    "al_tmp st' = path # al_tmp st"
    "al_pub st' \<noteq> al_pub st \<longleftrightarrow> text \<noteq> [] \<and>
       (\<exists>kw. kw |\<in>| load_user_keywords R (ot_user_id t) (al_redis st) \<and> contains kw (normalize_text text))"
    using ocr_body_bound [of "''normalize_text'' # ''logger'' # MEDIA_GLOBALS" enum R t ?st E] assms(1-3) by (auto simp: Let_def)
  show ?thesis
  proof (cases "tf_write T path (ot_file_bytes t)")
    case False
    with Inr assms(4,5) logger show ?thesis
      by (auto simp: process_ocr_def log_error_def with_name_def temp_written_def Let_def)
  next
    case True
    have w: "temp_written T t" using Inr True by (simp add: temp_written_def)
    have 1: "r = (if text = [] \<or> load_user_keywords R (ot_user_id t) (al_redis st) = {||} then Inr () else Inl (NameError ''logger''))"
      "st1 = (if tf_unlink T path then st else ?st)"
      using assms(3,4) Inr True logger
      by (auto simp: process_ocr_def log_error_def with_name_def ocr_body_as_it_is Let_def split: if_splits)
    have 2: "r' = Inr ()" "st2 = (if tf_unlink T path then st'\<lparr>al_tmp := al_tmp st\<rparr> else st')"
      using assms(5) Inr True b(1,2) by (auto simp: process_ocr_def Let_def)
    show ?thesis using w 1 2 b(3) by simp
  qed
qed

definition text_engine :: ocr_engine where
  "text_engine = \<lparr>oe_image = (\<lambda>_. Inr []), oe_pdf = (\<lambda>_. Inr []), oe_docx = (\<lambda>_. Inr []), oe_xlsx = (\<lambda>_. Inr []),
     oe_text = (\<lambda>_. Inr ''My Secret'')\<rparr>"

definition alert_state :: "fake_state alerts" where
  "alert_state = \<lparr>al_redis = \<lparr>f_store = Map.empty, f_sets = [keywords_key ''1'' \<mapsto> {|''secret''|}]\<rparr>, al_pub = [], al_tmp = []\<rparr>"

definition text_task :: ocr_task where
  "text_task = \<lparr>ot_file_bytes = [], ot_mime_type = ''text/plain'', ot_user_id = ''1'', ot_media_key = ''k''\<rparr>"

definition working_disk :: temp_files where
  "working_disk = \<lparr>tf_open = (\<lambda>ext. Inr (''/tmp/x'' @ ext)), tf_write = (\<lambda>_ _. True), tf_unlink = (\<lambda>_. True)\<rparr>"

theorem ocr_task_alerts_witness:
  "process_ocr MEDIA_GLOBALS text_engine working_disk fake_redis sorted_list_of_fset text_task alert_state =
     (Inl (NameError ''logger''), alert_state) \<and>
   al_pub (snd (process_ocr (''normalize_text'' # ''logger'' # MEDIA_GLOBALS) text_engine working_disk fake_redis sorted_list_of_fset
     text_task alert_state)) \<noteq> []"
proof -
  let ?run = "\<lambda>globals. process_ocr globals text_engine working_disk fake_redis sorted_list_of_fset text_task alert_state"
  have k: "load_user_keywords fake_redis (ot_user_id text_task) (al_redis alert_state) = {|''secret''|}"
    by (simp add: load_user_keywords_def get_user_keywords_def alert_state_def text_task_def fake_redis_def fake_members_def)
  have x: "''My Secret'' = extract_text text_engine (ot_file_bytes text_task) (ot_mime_type text_task)"
    by (simp add: extract_text_def text_engine_def text_task_def or_empty_def starts_with_def)
  have w: "temp_written working_disk text_task" by (simp add: temp_written_def working_disk_def)
  have n: "contains ''secret'' (normalize_text ''My Secret'')" by code_simp
  obtain r st1 where 1: "?run MEDIA_GLOBALS = (r, st1)" by fastforce
  obtain r' st2 where 2: "?run (''normalize_text'' # ''logger'' # MEDIA_GLOBALS) = (r', st2)" by fastforce
  have "[] |\<notin>| load_user_keywords fake_redis (ot_user_id text_task) (al_redis alert_state)" by (simp add: k)
  note a = ocr_task_alerts [OF _ this x 1 2]
  have u: "\<forall>p. tf_unlink working_disk p" by (simp add: working_disk_def)
  have "r = Inl (NameError ''logger'')" "al_pub st2 \<noteq> []" "st1 = alert_state"
    using a w k n u by (simp_all add: alerts.equality) (simp add: alert_state_def)+
  with 1 2 show ?thesis by simp
qed

text \<open>
  An alert reaches the user: what is published on the alert channel makes the listener send
  the alert to exactly the connections of that user that this process holds.
\<close>

theorem alert_reaches_devices:
  assumes "redis_values R strs members" and "represents strs members P (m_redis m)"
    and "file_id \<noteq> []" and "keyword \<noteq> []"
    and "publish_ocr_alert file_id (uuid_str u) keyword st = (ok, st')"
  shows "\<exists>text. al_pub st' = al_pub st @ [(''ocr:alerts'', text)] \<and>
    ocr_alert R text m = Some (ffilter (\<lambda>c. m_local m c \<noteq> None) (conns_of u P),
      [(''type'', JStr ''ocr_alert''), (''file_id'', JStr file_id), (''keyword'', JStr keyword)])"
proof -
  let ?m = "alert_message file_id (uuid_str u) keyword"
  have "loads (dumps (JObj ?m)) = Some (JObj ?m)" by (rule loads_dumps) (simp add: alert_message_def)
  moreover have "uuid_str u \<noteq> []" by (metis length_uuid_str list.size(3) zero_neq_numeral)
  moreover have "r_smembers R (user_key u) (m_redis m) = conns_of u P"
    using assms(2) redis_values.smembers [OF assms(1)] by (simp add: represents_def)
  ultimately show ?thesis
    using assms(3-5)
    by (auto simp: publish_ocr_alert_def ocr_alert_def alert_message_def jget_def py_str_def user_key_def simp del: dumps.simps)
qed

theorem alert_reaches_devices_witness:
  "\<exists>text. al_pub (snd (publish_ocr_alert ''f'' (uuid_str 1) ''k'' alert_state)) = [(''ocr:alerts'', text)] \<and>
    ocr_alert fake_redis text idle_manager =
      Some ({||}, [(''type'', JStr ''ocr_alert''), (''file_id'', JStr ''f''), (''keyword'', JStr ''k'')])"
proof -
  have e: "ffilter Q (conns_of 1 {||}) = {||}" for Q by (rule fset_eqI) simp
  from alert_reaches_devices [OF fake.redis_values_axioms idle_represents _ _ surjective_pairing, of "''f''" "''k''" 1 alert_state]
  show ?thesis by (simp only: e) (simp add: alert_state_def)
qed

end
