(* ===== verification/Chats.thy ===== *)
theory Chats
  imports Ws_Manager Message_Service
begin

text \<open>
  \<^verbatim>\<open>app/api/routes/chats.py\<close>: the conversation list and the message history. A query with
  \<^verbatim>\<open>ORDER BY\<close> is a stable sort of the matching rows; PostgreSQL leaves the order of equal
  keys open, so the theorems about the order assume distinct creation times. A negative
  \<^verbatim>\<open>LIMIT\<close> is an error of the database.
\<close>

section \<open>Model\<close>

record conversation_out =
  co_peer_id :: uuid
  co_peer_name :: string
  co_peer_avatar_url :: "string option"
  co_is_online :: bool
  co_last_message_preview :: "string option"
  co_last_message_at :: "instant option"
  co_unread_count :: nat

record message_out =
  mo_id :: uuid
  mo_sender_id :: "uuid option"
  mo_recipient_id :: "uuid option"
  mo_message_type :: string
  mo_content_ciphertext :: "string option"
  mo_status :: string
  mo_created_at :: instant
  mo_deleted_for_everyone :: bool

definition MessageOut :: "message \<Rightarrow> message_out" where
  "MessageOut m = \<lparr>mo_id = m_id m, mo_sender_id = sender_id m, mo_recipient_id = recipient_id m,
     mo_message_type = message_type m, mo_content_ciphertext = content_ciphertext m, mo_status = m_status m,
     mo_created_at = m_created_at m, mo_deleted_for_everyone = deleted_for_everyone m\<rparr>"

text \<open>\<^verbatim>\<open>ORDER BY created_at DESC\<close>.\<close>

definition newest_first :: "message list \<Rightarrow> message list" where
  "newest_first ms = sort_key (\<lambda>m. - m_created_at m) ms"

text \<open>\<^verbatim>\<open>coalesce(nullif(sender_id, user.id), recipient_id)\<close>.\<close>

definition peer_expr :: "uuid \<Rightarrow> message \<Rightarrow> uuid option" where
  "peer_expr me m = (case sender_id m of Some s \<Rightarrow> if s = me then recipient_id m else Some s | None \<Rightarrow> recipient_id m)"

definition dm_row :: "uuid \<Rightarrow> message \<Rightarrow> bool" where
  "dm_row me m \<longleftrightarrow> (sender_id m = Some me \<or> recipient_id m = Some me) \<and> m_group_id m = None \<and> \<not> is_destructed m"

definition between :: "uuid \<Rightarrow> uuid \<Rightarrow> message \<Rightarrow> bool" where
  "between me peer m \<longleftrightarrow>
     (sender_id m = Some me \<and> recipient_id m = Some peer) \<or> (sender_id m = Some peer \<and> recipient_id m = Some me)"

text \<open>The subquery \<^verbatim>\<open>latest\<close>: the time of the last message of each peer.\<close>

definition latest :: "uuid \<Rightarrow> message list \<Rightarrow> uuid \<Rightarrow> instant option" where
  "latest me ms peer =
     (case filter (\<lambda>m. dm_row me m \<and> peer_expr me m = Some peer) ms of
        [] \<Rightarrow> None | m # rest \<Rightarrow> Some (fold max (map m_created_at rest) (m_created_at m)))"

definition conversation_rows :: "uuid \<Rightarrow> db \<Rightarrow> (user \<times> instant) list" where
  "conversation_rows me d =
     sort_key (\<lambda>r. - snd r)
       (concat (map (\<lambda>u. case latest me (messages d) (u_id u) of None \<Rightarrow> [] | Some t \<Rightarrow> [(u, t)]) (users d)))"

definition unread_count :: "uuid \<Rightarrow> uuid \<Rightarrow> message list \<Rightarrow> nat" where
  "unread_count me peer ms = length (filter (\<lambda>m. sender_id m = Some peer \<and> recipient_id m = Some me \<and>
     m_status m \<noteq> ''read'' \<and> \<not> is_destructed m) ms)"

definition preview_of :: "message option \<Rightarrow> string option" where
  "preview_of last_msg =
     (case last_msg of
        None \<Rightarrow> None
      | Some m \<Rightarrow>
          if deleted_for_everyone m then None
          else Some (take 20 (case content_ciphertext m of
                 None \<Rightarrow> ''['' @ message_type m @ '']''
               | Some t \<Rightarrow> if t = [] then ''['' @ message_type m @ '']'' else t)))"

definition list_conversations :: "'s redis \<Rightarrow> user \<Rightarrow> 's world \<Rightarrow> conversation_out list" where
  "list_conversations R user w =
     map (\<lambda>(peer, last_at).
         let last_msg = (case newest_first (filter (\<lambda>m. between (u_id user) (u_id peer) m \<and> \<not> is_destructed m) (messages (w_db w))) of
               [] \<Rightarrow> None | m # _ \<Rightarrow> Some m)
         in \<lparr>co_peer_id = u_id peer, co_peer_name = full_name peer, co_peer_avatar_url = None,
             co_is_online = is_user_online R (u_id peer) (w_sess w), co_last_message_preview = preview_of last_msg,
             co_last_message_at = Some last_at,
             co_unread_count = unread_count (u_id user) (u_id peer) (messages (w_db w))\<rparr>)
       (conversation_rows (u_id user) (w_db w))"

definition message_history :: "uuid \<Rightarrow> instant option \<Rightarrow> int \<Rightarrow> user \<Rightarrow> db \<Rightarrow> message_out list res" where
  "message_history peer_id before limit user d =
     (if limit > 100 then Inl (ValueError ''limit'')
      else
        (case user_by_id d peer_id of
           None \<Rightarrow> Inl (HTTPException 404 ''peer not found'')
         | Some peer \<Rightarrow>
             if limit < 0 then Inl DataError
             else
               let rows = filter (\<lambda>m. between (u_id user) peer_id m \<and> \<not> is_destructed m \<and>
                     (case before of None \<Rightarrow> True | Some t \<Rightarrow> m_created_at m < t)) (messages d);
                   messages = take (nat limit) (newest_first rows)
               in Inr (map MessageOut (rev messages))))"

section \<open>Pages\<close>

text \<open>The conversation as a whole, oldest first, and the last \<open>n\<close> elements of a list.\<close>

definition conversation :: "uuid \<Rightarrow> uuid \<Rightarrow> db \<Rightarrow> message list" where
  "conversation me peer d = sort_key m_created_at (filter (\<lambda>m. between me peer m \<and> \<not> is_destructed m) (messages d))"

definition earlier :: "instant option \<Rightarrow> message \<Rightarrow> bool" where
  "earlier before m \<longleftrightarrow> (case before of None \<Rightarrow> True | Some t \<Rightarrow> m_created_at m < t)"

text \<open>A page is the end of the conversation before the given time.\<close>

lemma unique_conversation: "unique_on m_created_at (messages d) \<Longrightarrow> unique_on m_created_at (conversation me peer d)"
proof -
  assume "unique_on m_created_at (messages d)"
  then have "distinct (map m_created_at (filter (\<lambda>m. between me peer m \<and> \<not> is_destructed m) (messages d)))"
    unfolding unique_on_def by (rule distinct_map_filter)
  then show ?thesis by (simp add: unique_on_def conversation_def distinct_map)
qed

lemma message_history_eq:
  assumes "unique_on m_created_at (conversation (u_id user) peer d)" and "0 \<le> limit" and "limit \<le> 100" and "user_by_id d peer = Some p"
  shows "message_history peer before limit user d =
    Inr (map MessageOut (tail_of (nat limit) (filter (earlier before) (conversation (u_id user) peer d))))"
proof -
  let ?B = "\<lambda>m. between (u_id user) peer m \<and> \<not> is_destructed m"
  have r: "filter (\<lambda>m. ?B m \<and> earlier before m) (messages d) = filter (earlier before) (filter ?B (messages d))"
    by (simp add: conj_commute)
  have "distinct (map m_created_at (filter (earlier before) (filter ?B (messages d))))"
    using assms(1) by - (rule distinct_map_filter, simp add: unique_on_def conversation_def distinct_map)
  then have "rev (take (nat limit) (newest_first (filter (earlier before) (filter ?B (messages d))))) =
      tail_of (nat limit) (sort_key m_created_at (filter (earlier before) (filter ?B (messages d))))"
    unfolding rev_take_rev newest_first_def by (simp only: sort_key_rev)
  also have "sort_key m_created_at (filter (earlier before) (filter ?B (messages d))) =
      filter (earlier before) (conversation (u_id user) peer d)"
    by (simp add: conversation_def filter_sort)
  finally show ?thesis
    using assms(2-4) r by (simp add: message_history_def earlier_def [abs_def] Let_def conj_assoc)
qed

text \<open>A client that scrolls back, page by page, each page ending before the first message of the last one.\<close>

fun scroll_back :: "nat \<Rightarrow> int \<Rightarrow> uuid \<Rightarrow> instant option \<Rightarrow> user \<Rightarrow> db \<Rightarrow> message_out list" where
  "scroll_back 0 limit peer before user d = []"
| "scroll_back (Suc n) limit peer before user d =
     (case message_history peer before limit user d of
        Inr (m # ms) \<Rightarrow> scroll_back n limit peer (Some (mo_created_at m)) user d @ m # ms
      | _ \<Rightarrow> [])"

lemma filter_below_nth:
  fixes f :: "'a \<Rightarrow> int"
  assumes "sorted_wrt (\<lambda>x y. f x < f y) P" and "k < length P"
  shows "filter (\<lambda>x. f x < f (P ! k)) P = take k P"
proof -
  have "f x < f (P ! k)" if "x \<in> set (take k P)" for x
    using that assms(2) sorted_wrt_nth_less [OF assms(1)] by (auto simp: in_set_conv_nth)
  moreover have "\<not> f x < f (P ! k)" if "x \<in> set (drop k P)" for x
  proof -
    from that obtain j where j: "j < length P - k" "x = P ! (k + j)" by (auto simp: in_set_conv_nth)
    then have "k + j < length P" by simp
    then show ?thesis using j(2) sorted_wrt_nth_less [OF assms(1), of k "k + j"] by (cases j) auto
  qed
  ultimately have "filter (\<lambda>x. f x < f (P ! k)) (take k P @ drop k P) = take k P"
    unfolding filter_append by (simp add: filter_id_conv)
  then show ?thesis by simp
qed

lemma conversation_strict:
  assumes "unique_on m_created_at (conversation me peer d)"
  shows "sorted_wrt (\<lambda>x y. m_created_at x < m_created_at y) (conversation me peer d)"
proof -
  have "distinct (map m_created_at (conversation me peer d))" using assms by (simp add: unique_on_def)
  moreover have "sorted (map m_created_at (conversation me peer d))" by (simp add: conversation_def)
  ultimately have "sorted_wrt (<) (map m_created_at (conversation me peer d))" by (simp add: strict_sorted_iff)
  then show ?thesis by (simp add: sorted_wrt_map)
qed

lemma scroll_back_prefix:
  assumes "unique_on m_created_at (conversation (u_id user) peer d)" and "0 < limit" "limit \<le> 100" and "user_by_id d peer = Some p"
    and "length (filter (earlier before) (conversation (u_id user) peer d)) \<le> n"
  shows "scroll_back (Suc n) limit peer before user d =
    map MessageOut (filter (earlier before) (conversation (u_id user) peer d))"
  using assms(5)
proof (induction n arbitrary: before)
  case 0
  then show ?case using message_history_eq [OF assms(1) _ assms(3,4), of before] assms(2) by (simp add: tail_of_def)
next
  case (Suc n)
  let ?P = "filter (earlier before) (conversation (u_id user) peer d)" and ?k = "\<lambda>P. length P - nat limit"
  note h = message_history_eq [OF assms(1) _ assms(3,4), of before]
  show ?case
  proof (cases "?P = []")
    case True
    then show ?thesis using h assms(2) by (simp add: tail_of_def)
  next
    case False
    let ?i = "length ?P - nat limit"
    have i: "?i < length ?P" using False assms(2) by simp
    have t: "tail_of (nat limit) ?P = ?P ! ?i # drop (Suc ?i) ?P"
      unfolding tail_of_def by (rule Cons_nth_drop_Suc [OF i, symmetric])
    have s: "sorted_wrt (\<lambda>x y. m_created_at x < m_created_at y) ?P"
      by (rule sorted_wrt_filter) (rule conversation_strict [OF assms(1)])
    have "earlier before (?P ! ?i)" using nth_mem [OF i] by simp
    then have "filter (earlier (Some (m_created_at (?P ! ?i)))) (conversation (u_id user) peer d) =
        filter (\<lambda>m. m_created_at m < m_created_at (?P ! ?i)) ?P"
      by (auto simp: earlier_def intro!: filter_cong split: option.splits)
    then have f: "filter (earlier (Some (m_created_at (?P ! ?i)))) (conversation (u_id user) peer d) = take ?i ?P"
      using filter_below_nth [OF s i] by simp
    have "length (take ?i ?P) \<le> n" using Suc.prems i assms(2) by simp
    with Suc.IH [of "Some (m_created_at (?P ! ?i))"]
    have "scroll_back (Suc n) limit peer (Some (m_created_at (?P ! ?i))) user d = map MessageOut (take ?i ?P)"
      unfolding f by blast
    moreover have "message_history peer before limit user d = Inr (MessageOut (?P ! ?i) # map MessageOut (drop (Suc ?i) ?P))"
      using h assms(2) t by simp
    moreover have "mo_created_at (MessageOut m) = m_created_at m" for m by (simp add: MessageOut_def)
    moreover have "map MessageOut ?P = map MessageOut (take ?i ?P) @ MessageOut (?P ! ?i) # map MessageOut (drop (Suc ?i) ?P)"
      using arg_cong [OF id_take_nth_drop [OF i], of "map MessageOut"] by simp
    ultimately show ?thesis by (simp only: scroll_back.simps(2) [of "Suc n"] sum.case list.case)
  qed
qed

section \<open>Properties\<close>

text \<open>
  C29. The history of a conversation in which no two messages carry the same creation time: a client that scrolls back
  page by page, with any page size from 1 to 100, sees every message of the conversation that has not
  self-destructed, each once and in chronological order. (Where two messages share a time the cursor, which asks for strictly
  earlier ones, can lose one of them at the edge of a page.)
\<close>

theorem history_complete:
  assumes "unique_on m_created_at (conversation (u_id user) peer d)" and "0 < limit" "limit \<le> 100"
    and "user_by_id d peer = Some p" and "length (messages d) < n"
  shows "scroll_back n limit peer None user d = map MessageOut (conversation (u_id user) peer d)"
proof -
  obtain k where k: "n = Suc k" using assms(5) by (cases n) auto
  have "length (conversation (u_id user) peer d) \<le> k"
    using assms(5) k by (auto simp: conversation_def intro!: order_trans [OF length_filter_le])
  then show ?thesis
    using scroll_back_prefix [OF assms(1-4), of None k] k by (simp add: earlier_def)
qed

theorem history_complete_witness: "scroll_back 2 1 2 None (chat_user 1 ''+1'') chat_db = [MessageOut (new_message 7 0 0 chat_in)]"
proof -
  have u: "u_id (chat_user 1 ''+1'') = 1" "user_by_id chat_db 2 = Some (chat_user 2 ''+2'')"
    "messages chat_db = [new_message 7 0 0 chat_in]"
    by (simp_all add: chat_user_def user_by_id_def chat_db_def chat_users_def)
  have "conversation 1 2 chat_db = [new_message 7 0 0 chat_in]"
    by (simp add: conversation_def u(3)) (simp add: between_def new_message_def chat_in_def)
  with history_complete [where user = "chat_user 1 ''+1''" and peer = 2 and d = chat_db and limit = 1 and n = 2] u show ?thesis by (simp add: unique_on_def)
qed

lemma latest_None: "latest me ms peer = None \<longleftrightarrow> (\<forall>m\<in>set ms. dm_row me m \<longrightarrow> peer_expr me m \<noteq> Some peer)"
  by (auto simp: latest_def filter_empty_conv split: list.splits dest: filter_eq_ConsD)

lemma fold_max_Max: "fold max xs (x :: int) = Max (insert x (set xs))"
  using Max.set_eq_fold [of x xs] by simp

lemma latest_Some:
  "latest me ms peer = Some t \<longleftrightarrow>
     {m \<in> set ms. dm_row me m \<and> peer_expr me m = Some peer} \<noteq> {} \<and>
     t = Max (m_created_at ` {m \<in> set ms. dm_row me m \<and> peer_expr me m = Some peer})"
proof -
  have s: "{m \<in> set ms. dm_row me m \<and> peer_expr me m = Some peer} = set (filter (\<lambda>m. dm_row me m \<and> peer_expr me m = Some peer) ms)"
    by simp
  show ?thesis
    unfolding latest_def s
    by (cases "filter (\<lambda>m. dm_row me m \<and> peer_expr me m = Some peer) ms") (auto simp: fold_max_Max)
qed

lemma set_conversation_rows:
  "set (conversation_rows me d) = {(u, t). u \<in> set (users d) \<and> latest me (messages d) (u_id u) = Some t}"
  unfolding conversation_rows_def by (auto split: option.splits)

lemma distinct_conversation_rows:
  assumes "unique_on u_id (users d)"
  shows "distinct (map (\<lambda>r. u_id (fst r)) (conversation_rows me d))"
proof -
  let ?row = "\<lambda>u. case latest me (messages d) (u_id u) of None \<Rightarrow> [] | Some t \<Rightarrow> [(u, t)]"
  have e: "map (\<lambda>r. u_id (fst r)) (concat (map ?row us)) = map u_id (filter (\<lambda>u. latest me (messages d) (u_id u) \<noteq> None) us)" for us
    by (induction us) (auto split: option.splits)
  have "distinct (map (\<lambda>r. u_id (fst r)) (concat (map ?row (users d))))"
    unfolding e using assms unfolding unique_on_def by (rule distinct_map_filter)
  then show ?thesis unfolding conversation_rows_def by (simp add: distinct_map)
qed

text \<open>
  C30. The conversation list: it has one entry for each user with whom the caller has exchanged
  a direct message that has not self-destructed, and no other; the entries are ordered by
  their last message, newest first, and the time shown is that of the last message.
\<close>

theorem conversations_exact:
  assumes "unique_on u_id (users (w_db w))"
  shows "co_peer_id ` set (list_conversations R user w) = {u_id u |u m. u \<in> set (users (w_db w)) \<and> m \<in> set (messages (w_db w)) \<and>
      dm_row (u_id user) m \<and> peer_expr (u_id user) m = Some (u_id u)} \<and>
    distinct (map co_peer_id (list_conversations R user w)) \<and>
    sorted (map (\<lambda>c. - the (co_last_message_at c)) (list_conversations R user w)) \<and>
    (\<forall>c\<in>set (list_conversations R user w). co_last_message_at c = Some (Max (m_created_at `
      {m \<in> set (messages (w_db w)). dm_row (u_id user) m \<and> peer_expr (u_id user) m = Some (co_peer_id c)})))"
proof -
  let ?rows = "conversation_rows (u_id user) (w_db w)" and ?out = "list_conversations R user w"
  have m: "map co_peer_id ?out = map (\<lambda>r. u_id (fst r)) ?rows" "map (\<lambda>c. - the (co_last_message_at c)) ?out = map (\<lambda>r. - snd r) ?rows"
    by (simp_all add: list_conversations_def case_prod_beta Let_def)
  have l: "co_peer_id ` set ?out = (\<lambda>r. u_id (fst r)) ` set ?rows" using arg_cong [OF m(1), of set] by simp
  have "sorted (map (\<lambda>r. - snd r) ?rows)" by (simp add: conversation_rows_def)
  moreover have "(\<lambda>r. u_id (fst r)) ` set ?rows = {u_id u |u m. u \<in> set (users (w_db w)) \<and> m \<in> set (messages (w_db w)) \<and>
      dm_row (u_id user) m \<and> peer_expr (u_id user) m = Some (u_id u)}"
    unfolding set_conversation_rows latest_Some by (rule set_eqI) (simp add: image_iff, blast)
  moreover have "co_last_message_at c = Some (Max (m_created_at `
      {m \<in> set (messages (w_db w)). dm_row (u_id user) m \<and> peer_expr (u_id user) m = Some (co_peer_id c)}))" if c: "c \<in> set ?out" for c
  proof -
    from c obtain u t where r: "(u, t) \<in> set ?rows" "co_peer_id c = u_id u" "co_last_message_at c = Some t"
      by (auto simp: list_conversations_def Let_def)
    from r(1) have "latest (u_id user) (messages (w_db w)) (u_id u) = Some t" unfolding set_conversation_rows by blast
    with r(2,3) show ?thesis unfolding latest_Some by simp
  qed
  ultimately show ?thesis using l m distinct_conversation_rows [OF assms] by simp
qed

theorem conversations_exact_witness:
  "co_peer_id ` set (list_conversations fake_redis (chat_user 1 ''+1'')
     \<lparr>w_db = chat_db, w_otp = m_redis idle_manager, w_sess = m_redis idle_manager, w_pub = []\<rparr>) = {2}"
proof -
  have "unique_on u_id (users chat_db)" using chat_integrity(2) by (simp add: integrity_def users_ok_def)
  moreover have "users chat_db = [chat_user 1 ''+1'', chat_user 2 ''+2'']" "messages chat_db = [new_message 7 0 0 chat_in]"
    by (simp_all add: chat_db_def chat_users_def)
  moreover have uid: "u_id (chat_user i p) = i" for i p by (simp add: chat_user_def)
  moreover have "{u_id u |u. (u = chat_user 1 ''+1'' \<or> u = chat_user 2 ''+2'') \<and> u_id u = 2} = {2}"
    using uid by (intro set_eqI) (simp, metis)
  moreover have "dm_row 1 (new_message 7 0 0 chat_in)" "peer_expr 1 (new_message 7 0 0 chat_in) = Some 2"
    by (simp_all add: dm_row_def peer_expr_def new_message_def chat_in_def)
  ultimately show ?thesis
    using conversations_exact [of "\<lparr>w_db = chat_db, w_otp = m_redis idle_manager, w_sess = m_redis idle_manager, w_pub = []\<rparr>"
        fake_redis "chat_user 1 ''+1''"] by simp
qed

end
