(* ===== verification/Receipts.thy ===== *)
theory Receipts
  imports Message_Service Ws_Manager
begin

text \<open>
  \<^verbatim>\<open>app/api/routes/receipts.py\<close> and the broadcasts of \<^verbatim>\<open>app/services/ws_manager.py\<close> it calls.
  Both modules evaluate the name \<^verbatim>\<open>select\<close> without binding it, so every operation takes the
  names its modules bind: \<open>RECEIPTS_GLOBALS\<close> and \<open>WS_GLOBALS\<close> are the modules as they are.
  A published payload goes to the log of the world, as in \<open>publish\<close>.
\<close>

section \<open>Model\<close>

definition RECEIPTS_GLOBALS :: "string list" where
  "RECEIPTS_GLOBALS = [''UUID'', ''APIRouter'', ''Depends'', ''HTTPException'', ''Path'', ''status'', ''BaseModel'',
     ''get_current_user'', ''redis_pubsub'', ''User'', ''GroupMember'', ''message_service'', ''connection_manager'',
     ''router'', ''TypingUpdate'', ''_user_channel'', ''_verify_chat_participant'', ''mark_message_delivered'',
     ''mark_message_read'', ''update_typing'']"

definition WS_GLOBALS :: "string list" where
  "WS_GLOBALS = [''asyncio'', ''json'', ''logging'', ''secrets'', ''datetime'', ''timezone'', ''UUID'', ''WebSocket'',
     ''Redis'', ''redis_client'', ''logger'', ''ConnectionManager'', ''connection_manager'']"

text \<open>The channel of an f-string over a nullable id.\<close>

definition channel_of :: "uuid option \<Rightarrow> string" where
  "channel_of u = ''chan:user:'' @ (case u of None \<Rightarrow> ''None'' | Some i \<Rightarrow> uuid_str i)"

definition publish_to :: "uuid option list \<Rightarrow> payload \<Rightarrow> 's world \<Rightarrow> 's world" where
  "publish_to pids p w = w\<lparr>w_pub := w_pub w @ map (\<lambda>u. (channel_of u, p)) pids\<rparr>"

definition group_exists :: "db \<Rightarrow> uuid \<Rightarrow> bool" where
  "group_exists d g = (scalar (\<lambda>x. g_id x = g) (groups d) \<noteq> None)"

definition is_member :: "db \<Rightarrow> uuid \<Rightarrow> uuid \<Rightarrow> bool" where
  "is_member d g u = (scalar (\<lambda>m. gm_group_id m = g \<and> gm_user_id m = u) (group_members d) \<noteq> None)"

definition direct_chat :: "db \<Rightarrow> uuid \<Rightarrow> uuid \<Rightarrow> bool" where
  "direct_chat d me other = (scalar (\<lambda>m. ((sender_id m = Some me \<and> recipient_id m = Some other) \<or>
     (sender_id m = Some other \<and> recipient_id m = Some me)) \<and> m_group_id m = None) (messages d) \<noteq> None)"

definition broadcast_typing :: "string list \<Rightarrow> uuid \<Rightarrow> uuid \<Rightarrow> bool \<Rightarrow> ('s world, unit) handler" where
  "broadcast_typing ws chat_id user_id is_typing =
     with_name ws ''select'' (\<lambda>w.
       let d = w_db w;
           p = [(''type'', JStr (if is_typing then ''typing_start'' else ''typing_stop'')), (''from'', JStr (uuid_str user_id))]
       in if group_exists d chat_id then
            (Inr (), publish_to (map (\<lambda>m. Some (gm_user_id m))
               (scalars (\<lambda>m. gm_group_id m = chat_id \<and> gm_user_id m \<noteq> user_id) (group_members d))) p w)
          else if \<not> direct_chat d user_id chat_id then (Inr (), w)
          else (Inr (), publish_to [Some chat_id] p w))"

definition broadcast_delivered :: "uuid \<Rightarrow> uuid option \<Rightarrow> ('s world, unit) handler" where
  "broadcast_delivered message_id sender w =
     (Inr (), publish_to [sender] [(''type'', JStr ''delivered''), (''message_id'', JStr (uuid_str message_id))] w)"

definition broadcast_read :: "string list \<Rightarrow> uuid \<Rightarrow> uuid \<Rightarrow> uuid \<Rightarrow> ('s world, unit) handler" where
  "broadcast_read ws chat_id message_id reader_id =
     with_name ws ''select'' (\<lambda>w.
       let d = w_db w; p = [(''type'', JStr ''read''), (''message_id'', JStr (uuid_str message_id))]
       in if group_exists d chat_id then
            (Inr (), publish_to (map (\<lambda>m. Some (gm_user_id m))
               (scalars (\<lambda>m. gm_group_id m = chat_id) (group_members d))) p w)
          else
            (case message_by_id d message_id of
               None \<Rightarrow> (Inr (), w)
             | Some msg \<Rightarrow>
                 (Inr (), publish_to [if recipient_id msg = Some reader_id then sender_id msg else recipient_id msg] p w)))"

text \<open>Whether the caller is the recipient of a direct message or a member of its group.\<close>

definition is_recipient :: "db \<Rightarrow> message \<Rightarrow> uuid \<Rightarrow> bool" where
  "is_recipient d msg user_id =
     (case m_group_id msg of None \<Rightarrow> recipient_id msg = Some user_id | Some g \<Rightarrow> is_member d g user_id)"

definition verify_chat_participant :: "string list \<Rightarrow> uuid \<Rightarrow> uuid \<Rightarrow> (db, uuid \<times> uuid option \<times> uuid option) handler" where
  "verify_chat_participant rg message_id user_id =
     with_name rg ''select'' (\<lambda>d.
       (case message_by_id d message_id of
          None \<Rightarrow> (Inl (HTTPException 404 ''Message not found''), d)
        | Some msg \<Rightarrow>
            if \<not> is_participant d msg user_id then (Inl (HTTPException 403 ''Not a participant of this chat''), d)
            else (Inr (m_id msg, sender_id msg, if m_group_id msg = None then recipient_id msg else None), d)))"

definition not_recipient :: error where
  "not_recipient = HTTPException 403 ''You are not the recipient of this message''"

definition mark_message_delivered ::
  "string list \<Rightarrow> instant \<Rightarrow> uuid \<Rightarrow> uuid \<Rightarrow> user \<Rightarrow> ('s world, unit) handler" where
  "mark_message_delivered rg now chat_id message_id current_user =
     with_name rg ''select'' (\<lambda>w.
       (case scalar (\<lambda>m. m_id m = message_id \<and>
               ((recipient_id m = Some (u_id current_user) \<and> m_group_id m = None) \<or>
                (m_group_id m = Some chat_id \<and> recipient_id m = None))) (messages (w_db w)) of
          None \<Rightarrow> (Inl (HTTPException 404 ''Message not found or not in this chat''), w)
        | Some msg \<Rightarrow>
            if \<not> is_recipient (w_db w) msg (u_id current_user) then (Inl not_recipient, w)
            else
              (case mark_delivered now message_id (u_id current_user) (w_db w) of
                 (Inl e, d1) \<Rightarrow> (Inl e, w\<lparr>w_db := d1\<rparr>)
               | (Inr None, d1) \<Rightarrow> (Inl (HTTPException 304 ''Already delivered or read''), w\<lparr>w_db := d1\<rparr>)
               | (Inr (Some updated), d1) \<Rightarrow> broadcast_delivered message_id (sender_id updated) (w\<lparr>w_db := d1\<rparr>))))"

definition mark_message_read ::
  "string list \<Rightarrow> string list \<Rightarrow> instant \<Rightarrow> uuid \<Rightarrow> uuid \<Rightarrow> user \<Rightarrow> ('s world, unit) handler" where
  "mark_message_read rg ws now chat_id message_id current_user =
     with_name rg ''select'' (\<lambda>w.
       (case message_by_id (w_db w) message_id of
          None \<Rightarrow> (Inl (HTTPException 404 ''Message not found''), w)
        | Some msg \<Rightarrow>
            if \<not> is_recipient (w_db w) msg (u_id current_user) then (Inl not_recipient, w)
            else
              (case mark_read now message_id (u_id current_user) (w_db w) of
                 (Inl e, d1) \<Rightarrow> (Inl e, w\<lparr>w_db := d1\<rparr>)
               | (Inr None, d1) \<Rightarrow> (Inl (HTTPException 304 ''Already read''), w\<lparr>w_db := d1\<rparr>)
               | (Inr (Some updated), d1) \<Rightarrow>
                   broadcast_read ws chat_id message_id (u_id current_user) (w\<lparr>w_db := d1\<rparr>))))"

definition update_typing ::
  "string list \<Rightarrow> string list \<Rightarrow> uuid \<Rightarrow> bool \<Rightarrow> user \<Rightarrow> ('s world, unit) handler" where
  "update_typing rg ws chat_id typing current_user =
     with_name rg ''select'' (\<lambda>w.
       if group_exists (w_db w) chat_id then
         if \<not> is_member (w_db w) chat_id (u_id current_user)
         then (Inl (HTTPException 403 ''Not a member of this group''), w)
         else broadcast_typing ws chat_id (u_id current_user) typing w
       else if \<not> direct_chat (w_db w) (u_id current_user) chat_id
         then (Inl (HTTPException 403 ''No direct chat with this user''), w)
       else broadcast_typing ws chat_id (u_id current_user) typing w)"

section \<open>Properties\<close>

lemma with_name_in [simp]: "n \<in> set gs \<Longrightarrow> with_name gs n h s = h s"
  and with_name_out [simp]: "n \<notin> set gs \<Longrightarrow> with_name gs n h s = (Inl (NameError n), s)"
  by (simp_all add: with_name_def)

lemma select_unbound [simp]: "''select'' \<notin> set RECEIPTS_GLOBALS" "''select'' \<notin> set WS_GLOBALS"
  by (simp_all add: RECEIPTS_GLOBALS_def WS_GLOBALS_def)

lemma recipient_participates: "is_recipient d m u \<Longrightarrow> is_participant d m u"
  by (auto simp: is_recipient_def is_participant_def is_member_def split: option.splits)

lemma mark_read_recipient:
  assumes "integrity d" and "message_by_id d i = Some m" and "is_participant d m u"
  shows "\<exists>m' d1. mark_read now i u d = (Inr (Some m'), d1) \<and> m_status m' = message_status_value READ \<and>
    message_by_id d1 i = Some m' \<and> sender_id m' = sender_id m \<and> recipient_id m' = recipient_id m \<and>
    groups d1 = groups d \<and> group_members d1 = group_members d"
proof (cases "m_status m = message_status_value READ")
  case True
  then show ?thesis using assms by (simp add: mark_read_eq [OF assms(1)])
next
  case False
  have "m_id m = i" using message_by_idD [OF assms(2)] by simp
  then have "message_by_id (set_message (read_message now m) d) i = Some (read_message now m)"
    using message_by_id_set_message [of "read_message now m" d] assms(2) by simp
  with False show ?thesis using assms by (simp add: mark_read_eq [OF assms(1)] set_message_def)
qed

text \<open>
  C31. Read receipts over HTTP. In the modules as they are the route raises a \<open>NameError\<close> for
  everybody and changes nothing. With \<^verbatim>\<open>select\<close> imported in both, only the recipient or a member of
  the message's group gets through, anybody else changes nothing; the message is then read, and the read event is published.
  Where it goes depends on the path, not on the message: if the path names a group, to the members of that group, which
  need not be the group of the message; otherwise to the sender, when the caller is the recipient, and to the
  recipient field when not, which for a message of a group is no user at all.
\<close>

theorem receipt_read_route:
  assumes "integrity (w_db w)" and "''select'' \<in> set rg" and "''select'' \<in> set ws"
  shows "mark_message_read RECEIPTS_GLOBALS ws' now chat i user w = (Inl (NameError ''select''), w) \<and>
    (case mark_message_read rg ws now chat i user w of
       (Inr _, w') \<Rightarrow> \<exists>m m'. message_by_id (w_db w) i = Some m \<and> is_recipient (w_db w) m (u_id user) \<and>
         message_by_id (w_db w') i = Some m' \<and> m_status m' = message_status_value READ \<and>
         w_pub w' = w_pub w @ map (\<lambda>u. (channel_of u, [(''type'', JStr ''read''), (''message_id'', JStr (uuid_str i))]))
           (if group_exists (w_db w) chat
            then map (\<lambda>g. Some (gm_user_id g)) (filter (\<lambda>g. gm_group_id g = chat) (group_members (w_db w)))
            else [if recipient_id m = Some (u_id user) then sender_id m else recipient_id m])
     | (Inl e, w') \<Rightarrow> w' = w \<and> (case message_by_id (w_db w) i of
         None \<Rightarrow> e = HTTPException 404 ''Message not found''
       | Some m \<Rightarrow> \<not> is_recipient (w_db w) m (u_id user) \<and> e = not_recipient))"
proof (cases "message_by_id (w_db w) i")
  case None
  with assms(2) show ?thesis by (simp add: mark_message_read_def)
next
  case (Some m)
  show ?thesis
  proof (cases "is_recipient (w_db w) m (u_id user)")
    case False
    with Some assms(2) show ?thesis by (simp add: mark_message_read_def)
  next
    case True
    from mark_read_recipient [OF assms(1) Some recipient_participates [OF True], of now]
    obtain m' d1 where "mark_read now i (u_id user) (w_db w) = (Inr (Some m'), d1)" "m_status m' = message_status_value READ"
      "message_by_id d1 i = Some m'" "sender_id m' = sender_id m" "recipient_id m' = recipient_id m"
      "groups d1 = groups (w_db w)" "group_members d1 = group_members (w_db w)" by blast
    with True Some assms(2,3) show ?thesis
      by (simp add: mark_message_read_def broadcast_read_def publish_to_def group_exists_def Let_def)
  qed
qed

theorem receipt_read_route_witness:
  "\<exists>w'. mark_message_read [''select''] [''select''] 5 1 7 (chat_user 2 ''+2'')
     \<lparr>w_db = chat_db, w_otp = (), w_sess = (), w_pub = []\<rparr> = (Inr (), w') \<and>
     w_pub w' = [(channel_of (Some 1), [(''type'', JStr ''read''), (''message_id'', JStr (uuid_str 7))])]"
proof -
  let ?w = "\<lparr>w_db = chat_db, w_otp = (), w_sess = (), w_pub = []\<rparr>"
  have m: "message_by_id chat_db 7 = Some (new_message 7 0 0 chat_in)" by (simp add: message_by_id_def chat_db_def new_message_def)
  have r: "is_recipient chat_db (new_message 7 0 0 chat_in) (u_id (chat_user 2 ''+2''))" "\<not> group_exists chat_db 1"
    "recipient_id (new_message 7 0 0 chat_in) = Some (u_id (chat_user 2 ''+2''))" "sender_id (new_message 7 0 0 chat_in) = Some 1"
    by (simp_all add: is_recipient_def new_message_def chat_in_def chat_user_def group_exists_def chat_db_def chat_users_def empty_db_def)
  from receipt_read_route [of ?w "[''select'']" "[''select'']" "[]" 5 1 7 "chat_user 2 ''+2''"] chat_integrity(2) m r
  show ?thesis by (auto split: prod.splits sum.splits)
qed

text \<open>
  Typing indicators over HTTP, with \<^verbatim>\<open>select\<close> imported in both modules: an outsider gets a
  403 and nothing is published; otherwise the indicator goes to exactly the other members of
  the group, or to the other user of the direct chat, and never to the author of a group indicator.
\<close>

theorem typing_scope:
  assumes "''select'' \<in> set rg" and "''select'' \<in> set ws" and "update_typing rg ws chat typing user w = (r, w')"
    and "p = [(''type'', JStr (if typing then ''typing_start'' else ''typing_stop'')), (''from'', JStr (uuid_str (u_id user)))]"
  shows "w_db w' = w_db w \<and>
    (if group_exists (w_db w) chat then
       (if is_member (w_db w) chat (u_id user)
        then r = Inr () \<and> (\<forall>u. (user_channel u, p) \<in> set (drop (length (w_pub w)) (w_pub w')) \<longleftrightarrow>
          u \<noteq> u_id user \<and> is_member (w_db w) chat u)
        else (\<exists>m. r = Inl (HTTPException 403 m)) \<and> w' = w)
     else if direct_chat (w_db w) (u_id user) chat then r = Inr () \<and> w_pub w' = w_pub w @ [(user_channel chat, p)]
     else (\<exists>m. r = Inl (HTTPException 403 m)) \<and> w' = w)"
proof -
  have c: "channel_of (Some u) = user_channel u" for u by (simp add: channel_of_def user_channel_def)
  have "(user_channel u, p) \<in> set (map (\<lambda>u. (channel_of u, p)) (map (\<lambda>m. Some (gm_user_id m))
      (filter (\<lambda>m. gm_group_id m = chat \<and> gm_user_id m \<noteq> u_id user) (group_members (w_db w))))) \<longleftrightarrow>
      u \<noteq> u_id user \<and> is_member (w_db w) chat u" for u
    by (auto simp: c is_member_def find_None_iff)
  note others = this
  have u: "update_typing rg ws chat typing user w =
      (if group_exists (w_db w) chat then
         if is_member (w_db w) chat (u_id user)
         then (Inr (), publish_to (map (\<lambda>m. Some (gm_user_id m))
           (filter (\<lambda>m. gm_group_id m = chat \<and> gm_user_id m \<noteq> u_id user) (group_members (w_db w)))) p w)
         else (Inl (HTTPException 403 ''Not a member of this group''), w)
       else if direct_chat (w_db w) (u_id user) chat then (Inr (), publish_to [Some chat] p w)
       else (Inl (HTTPException 403 ''No direct chat with this user''), w))"
    using assms(1,2) unfolding assms(4) by (simp add: update_typing_def broadcast_typing_def)
  have sel: "w_db (publish_to us p w) = w_db w" "w_pub (publish_to us p w) = w_pub w @ map (\<lambda>u. (channel_of u, p)) us" for us
    by (simp_all add: publish_to_def)
  show ?thesis
  proof (cases "group_exists (w_db w) chat")
    case True
    then show ?thesis using assms(3) u sel others by (cases "is_member (w_db w) chat (u_id user)") auto
  next
    case False
    then show ?thesis using assms(3) u sel c by (cases "direct_chat (w_db w) (u_id user) chat") auto
  qed
qed

theorem typing_scope_witness:
  "w_pub (snd (update_typing [''select''] [''select''] 2 True (chat_user 1 ''+1'')
     \<lparr>w_db = chat_db, w_otp = (), w_sess = (), w_pub = []\<rparr>)) =
   [(user_channel 2, [(''type'', JStr ''typing_start''), (''from'', JStr (uuid_str 1))])]"
proof -
  have "\<not> group_exists chat_db 2" "direct_chat chat_db (u_id (chat_user 1 ''+1'')) 2" "u_id (chat_user 1 ''+1'') = 1"
    by (simp_all add: group_exists_def direct_chat_def chat_db_def chat_users_def empty_db_def chat_user_def new_message_def chat_in_def)
  with typing_scope [OF _ _ surjective_pairing refl, of "[''select'']" "[''select'']" 2 True "chat_user 1 ''+1''"
      "\<lparr>w_db = chat_db, w_otp = (), w_sess = (), w_pub = []\<rparr>"]
  show ?thesis by simp
qed

end
