(* ===== verification/Redis_Hash.thy ===== *)
theory Redis_Hash
  imports Json Uuid "HOL-Library.AList"
begin

text \<open>
  The Redis commands of the key-distribution services, which keep documents as strings and
  key collections as hashes. As in \<open>Redis\<close> the server is a parameter, a record of commands
  over an abstract state, and what the code relies on are the laws of a locale over
  observations: the string under a key (\<open>strs\<close>), the fields of the hash under a key
  (\<open>hashes\<close>) and the remaining time to live in milliseconds (\<open>ttl\<close>). A command on a key of
  another type is an error in Redis, so the law of a string command assumes that the key
  holds no hash, and the other way round. The reference store is an instance.
\<close>

record 's hash_redis =
  h_get :: "string \<Rightarrow> 's \<Rightarrow> string option"
  h_set :: "string \<Rightarrow> string \<Rightarrow> 's \<Rightarrow> 's"
  h_delete :: "string \<Rightarrow> 's \<Rightarrow> 's"
  h_hset :: "string \<Rightarrow> string \<Rightarrow> string \<Rightarrow> 's \<Rightarrow> 's"
  h_hget :: "string \<Rightarrow> string \<Rightarrow> 's \<Rightarrow> string option"
  h_hgetall :: "string \<Rightarrow> 's \<Rightarrow> (string \<times> string) list"
  h_hdel :: "string \<Rightarrow> string \<Rightarrow> 's \<Rightarrow> 's"
  h_hexists :: "string \<Rightarrow> string \<Rightarrow> 's \<Rightarrow> bool"
  h_expire :: "string \<Rightarrow> nat \<Rightarrow> 's \<Rightarrow> 's"
  h_elapse :: "nat \<Rightarrow> 's \<Rightarrow> 's"

locale redis_hashes =
  fixes H :: "'s hash_redis"
    and strs :: "'s \<Rightarrow> string \<Rightarrow> string option"
    and hashes :: "'s \<Rightarrow> string \<Rightarrow> string \<Rightarrow> string option"
    and ttl :: "'s \<Rightarrow> string \<Rightarrow> nat option"
  assumes get: "hashes s k = Map.empty \<Longrightarrow> h_get H k s = strs s k"
    and strs_set: "hashes s k = Map.empty \<Longrightarrow> strs (h_set H k v s) = (strs s)(k := Some v)"
    and hashes_set: "hashes s k = Map.empty \<Longrightarrow> hashes (h_set H k v s) = hashes s"
    and ttl_set: "hashes s k = Map.empty \<Longrightarrow> ttl (h_set H k v s) = (ttl s)(k := None)"
    and strs_delete: "strs (h_delete H k s) = (strs s)(k := None)"
    and hashes_delete: "hashes (h_delete H k s) = (hashes s)(k := Map.empty)"
    and ttl_delete: "ttl (h_delete H k s) = (ttl s)(k := None)"
    and strs_hset: "strs s k = None \<Longrightarrow> strs (h_hset H k f v s) = strs s"
    and hashes_hset: "strs s k = None \<Longrightarrow> hashes (h_hset H k f v s) = (hashes s)(k := (hashes s k)(f \<mapsto> v))"
    and ttl_hset: "strs s k = None \<Longrightarrow> ttl (h_hset H k f v s) = ttl s"
    and hget: "strs s k = None \<Longrightarrow> h_hget H k f s = hashes s k f"
    and hgetall: "strs s k = None \<Longrightarrow> map_of (h_hgetall H k s) = hashes s k"
    and hgetall_distinct: "distinct (map fst (h_hgetall H k s))"
    and strs_hdel: "strs s k = None \<Longrightarrow> strs (h_hdel H k f s) = strs s"
    and hashes_hdel: "strs s k = None \<Longrightarrow> hashes (h_hdel H k f s) = (hashes s)(k := (hashes s k)(f := None))"
    and ttl_hdel: "strs s k = None \<Longrightarrow> ttl (h_hdel H k f s) =
      (ttl s)(k := if (hashes s k)(f := None) = Map.empty then None else ttl s k)"
    and hexists: "strs s k = None \<Longrightarrow> h_hexists H k f s \<longleftrightarrow> hashes s k f \<noteq> None"
    and strs_expire: "0 < n \<Longrightarrow> strs (h_expire H k n s) = strs s"
    and hashes_expire: "0 < n \<Longrightarrow> hashes (h_expire H k n s) = hashes s"
    and ttl_expire: "0 < n \<Longrightarrow> ttl (h_expire H k n s) =
      (ttl s)(k := if strs s k = None \<and> hashes s k = Map.empty then None else Some (n * 1000))"
    and ttl_absent: "strs s k = None \<Longrightarrow> hashes s k = Map.empty \<Longrightarrow> ttl s k = None"
    and strs_elapse: "strs (h_elapse H n s) k =
      (case ttl s k of None \<Rightarrow> strs s k | Some t \<Rightarrow> if t \<le> n then None else strs s k)"
    and hashes_elapse: "hashes (h_elapse H n s) k =
      (case ttl s k of None \<Rightarrow> hashes s k | Some t \<Rightarrow> if t \<le> n then Map.empty else hashes s k)"
    and ttl_elapse: "ttl (h_elapse H n s) k =
      (case ttl s k of None \<Rightarrow> None | Some t \<Rightarrow> if t \<le> n then None else Some (t - n))"
begin

lemmas string_laws = get strs_set hashes_set strs_delete hashes_delete
lemmas hash_laws = strs_hset hashes_hset hget hgetall strs_hdel hashes_hdel hexists strs_expire hashes_expire
lemmas hash_ttl_laws = ttl_set ttl_delete ttl_hset ttl_hdel ttl_expire

text \<open>A deserialised listing of a hash: every field once, with the value it holds.\<close>

lemma in_hgetall: "strs s k = None \<Longrightarrow> (f, v) \<in> set (h_hgetall H k s) \<longleftrightarrow> hashes s k f = Some v"
  by (simp add: hgetall [symmetric] hgetall_distinct)

lemma hgetall_Nil: "strs s k = None \<Longrightarrow> h_hgetall H k s = [] \<longleftrightarrow> hashes s k = Map.empty"
  by (simp add: hgetall [symmetric])

end

section \<open>A reference store\<close>

datatype hval = HStr string | HHash "(string \<times> string) list"

type_synonym hstore = "string \<Rightarrow> (hval \<times> nat option) option"

definition ref_hstr :: "hstore \<Rightarrow> string \<Rightarrow> string option" where
  "ref_hstr s k = (case s k of Some (HStr v, _) \<Rightarrow> Some v | _ \<Rightarrow> None)"

definition ref_hash :: "hstore \<Rightarrow> string \<Rightarrow> (string \<times> string) list" where
  "ref_hash s k = (case s k of Some (HHash h, _) \<Rightarrow> AList.clearjunk h | _ \<Rightarrow> [])"

definition ref_fields :: "hstore \<Rightarrow> string \<Rightarrow> string \<Rightarrow> string option" where
  "ref_fields s k = map_of (ref_hash s k)"

definition ref_httl :: "hstore \<Rightarrow> string \<Rightarrow> nat option" where
  "ref_httl s k = (case s k of Some (HStr _, t) \<Rightarrow> t
     | Some (HHash h, t) \<Rightarrow> (if h = [] then None else t) | None \<Rightarrow> None)"

definition ref_put :: "string \<Rightarrow> (string \<times> string) list \<Rightarrow> hstore \<Rightarrow> hstore" where
  "ref_put k h s = s(k := (if h = [] then None else Some (HHash h, ref_httl s k)))"

definition ref_hashes :: "hstore hash_redis" where
  "ref_hashes = \<lparr>
     h_get = (\<lambda>k s. ref_hstr s k),
     h_set = (\<lambda>k v s. s(k \<mapsto> (HStr v, None))),
     h_delete = (\<lambda>k s. s(k := None)),
     h_hset = (\<lambda>k f v s. ref_put k (AList.update f v (ref_hash s k)) s),
     h_hget = (\<lambda>k f s. ref_fields s k f),
     h_hgetall = (\<lambda>k s. ref_hash s k),
     h_hdel = (\<lambda>k f s. ref_put k (AList.delete f (ref_hash s k)) s),
     h_hexists = (\<lambda>k f s. ref_fields s k f \<noteq> None),
     h_expire = (\<lambda>k n s. case s k of None \<Rightarrow> s | Some (v, _) \<Rightarrow> s(k \<mapsto> (v, Some (n * 1000)))),
     h_elapse = (\<lambda>n s k. case s k of Some (v, Some t) \<Rightarrow> if t \<le> n then None else Some (v, Some (t - n))
                     | x \<Rightarrow> x) \<rparr>"

lemmas ref_hash_defs = ref_hashes_def ref_hstr_def ref_fields_def ref_hash_def ref_httl_def

lemma clearjunk_Nil [simp]: "AList.clearjunk h = [] \<longleftrightarrow> h = []"
  by (cases h) auto

lemma ref_put_views:
  "ref_hstr s k = None \<Longrightarrow> ref_hstr (ref_put k h s) = ref_hstr s"
  "ref_hstr s k = None \<Longrightarrow> ref_fields (ref_put k h s) = (ref_fields s)(k := map_of h)"
  "ref_hstr s k = None \<Longrightarrow> ref_httl (ref_put k h s) = (ref_httl s)(k := if h = [] then None else ref_httl s k)"
  by (auto simp: ref_put_def ref_hash_defs fun_eq_iff map_of_clearjunk split: option.splits hval.splits)

lemma ref_httl_absent: "ref_hstr s k = None \<Longrightarrow> ref_fields s k = Map.empty \<Longrightarrow> ref_httl s k = None"
  by (auto simp: ref_hash_defs map_of_clearjunk split: option.splits hval.splits)

lemma distinct_ref_hash: "distinct (map fst (ref_hash s k))"
  by (simp add: ref_hash_def distinct_clearjunk split: option.splits hval.splits)

lemma map_of_empty_iff [simp]: "map_of h = Map.empty \<longleftrightarrow> h = []"
  by (cases h) (auto simp: fun_eq_iff split: if_splits)

lemma ref_expire_views:
  "ref_hstr (h_expire ref_hashes k n s) = ref_hstr s"
  "ref_fields (h_expire ref_hashes k n s) = ref_fields s"
  "ref_httl (h_expire ref_hashes k n s) =
     (ref_httl s)(k := if ref_hstr s k = None \<and> ref_fields s k = Map.empty then None else Some (n * 1000))"
  by (auto simp: ref_hash_defs fun_eq_iff [of "ref_hstr _"] fun_eq_iff [of "ref_fields _"] fun_eq_iff [of "ref_httl _"]
      map_of_clearjunk split: option.splits hval.splits)

lemma ref_elapse_views:
  "ref_hstr (h_elapse ref_hashes n s) k =
     (case ref_httl s k of None \<Rightarrow> ref_hstr s k | Some t \<Rightarrow> if t \<le> n then None else ref_hstr s k)"
  "ref_fields (h_elapse ref_hashes n s) k =
     (case ref_httl s k of None \<Rightarrow> ref_fields s k | Some t \<Rightarrow> if t \<le> n then Map.empty else ref_fields s k)"
  "ref_httl (h_elapse ref_hashes n s) k =
     (case ref_httl s k of None \<Rightarrow> None | Some t \<Rightarrow> if t \<le> n then None else Some (t - n))"
  by (auto simp: ref_hash_defs split: option.splits hval.splits)

lemma ref_string_views:
  "ref_hstr (h_set ref_hashes k v s) = (ref_hstr s)(k := Some v)"
  "ref_fields s k = Map.empty \<Longrightarrow> ref_fields (h_set ref_hashes k v s) = ref_fields s"
  "ref_httl (h_set ref_hashes k v s) = (ref_httl s)(k := None)"
  "ref_hstr (h_delete ref_hashes k s) = (ref_hstr s)(k := None)"
  "ref_fields (h_delete ref_hashes k s) = (ref_fields s)(k := Map.empty)"
  "ref_httl (h_delete ref_hashes k s) = (ref_httl s)(k := None)"
  by (auto simp: ref_hash_defs fun_eq_iff split: option.splits hval.splits)

lemma ref_delete_nil:
  "AList.delete f (ref_hash s k) = [] \<longleftrightarrow> (ref_fields s k)(f := None) = Map.empty"
  by (simp add: ref_fields_def delete_conv' [symmetric])

interpretation rh: redis_hashes ref_hashes ref_hstr ref_fields ref_httl
  by unfold_locales
    (simp_all add: ref_expire_views ref_elapse_views ref_string_views ref_httl_absent distinct_ref_hash
       ref_delete_nil ref_put_views update_conv' delete_conv' update_nonempty,
     simp_all add: ref_hashes_def ref_put_views update_conv' delete_conv' update_nonempty ref_fields_def
       distinct_ref_hash ref_delete_nil)

end
