(* ===== verification/Encryption.thy ===== *)
theory Encryption
  imports Redis_Hash Models
begin

text \<open>
  \<^verbatim>\<open>app/services/encryption_service.py\<close> and \<^verbatim>\<open>app/api/routes/keys.py\<close>: the server side of the
  secret chats. Identity keys, signed pre-keys and sessions are JSON documents under one
  Redis string each, the one-time pre-keys of a user are the fields of one Redis hash. The
  cryptographic operations of the source are mocks with constant results, kept as they are.
  As shipped, neither module can be imported (see the findings of the manifest); the
  definitions are the functions they contain.
\<close>

section \<open>Model\<close>

definition identity_key :: "uuid \<Rightarrow> string" where
  "identity_key u = ''signal:identity:'' @ uuid_str u"

definition prekeys_key :: "uuid \<Rightarrow> string" where
  "prekeys_key u = ''signal:prekeys:'' @ uuid_str u"

definition signed_prekey_key :: "uuid \<Rightarrow> int \<Rightarrow> string" where
  "signed_prekey_key u i = ''signal:signed_prekey:'' @ uuid_str u @ '':'' @ str_int i"

definition signal_session_key :: "uuid \<Rightarrow> uuid \<Rightarrow> string" where
  "signal_session_key u r = ''signal:session:'' @ uuid_str u @ '':'' @ uuid_str r"

text \<open>\<^verbatim>\<open>if data: return json.loads(data)\<close>, and \<^verbatim>\<open>None\<close> otherwise.\<close>

definition load_doc :: "string option \<Rightarrow> json option res" where
  "load_doc data =
     (case data of
        None \<Rightarrow> Inr None
      | Some d \<Rightarrow> if d = [] then Inr None
          else (case loads d of None \<Rightarrow> Inl (ValueError ''invalid JSON document'') | Some v \<Rightarrow> Inr (Some v)))"

definition store_identity_key :: "'s hash_redis \<Rightarrow> uuid \<Rightarrow> payload \<Rightarrow> 's \<Rightarrow> 's" where
  "store_identity_key H u k = h_set H (identity_key u) (dumps (JObj k))"

definition get_identity_key :: "'s hash_redis \<Rightarrow> uuid \<Rightarrow> 's \<Rightarrow> json option res" where
  "get_identity_key H u s = load_doc (h_get H (identity_key u) s)"

definition store_pre_key :: "'s hash_redis \<Rightarrow> uuid \<Rightarrow> int \<Rightarrow> payload \<Rightarrow> 's \<Rightarrow> 's" where
  "store_pre_key H u key_id key_pair = h_hset H (prekeys_key u) (str_int key_id) (dumps (JObj key_pair))"

text \<open>The argument \<open>limit\<close> has no effect in the source either.\<close>

definition get_pre_keys :: "'s hash_redis \<Rightarrow> uuid \<Rightarrow> nat \<Rightarrow> 's \<Rightarrow> (int \<times> json) list res" where
  "get_pre_keys H u limit s =
     (let raw = h_hgetall H (prekeys_key u) s
      in if raw = [] then Inr []
         else map_res (\<lambda>(key_id_str, key_pair_json).
           (case py_int 10 key_id_str of
              None \<Rightarrow> Inl (ValueError ''invalid literal for int() with base 10'')
            | Some key_id \<Rightarrow>
                (case loads key_pair_json of
                   None \<Rightarrow> Inl (ValueError ''invalid JSON document'')
                 | Some key_pair \<Rightarrow> Inr (key_id, key_pair)))) raw)"

definition remove_pre_key :: "'s hash_redis \<Rightarrow> uuid \<Rightarrow> int \<Rightarrow> 's \<Rightarrow> 's" where
  "remove_pre_key H u key_id = h_hdel H (prekeys_key u) (str_int key_id)"

definition store_signed_pre_key :: "'s hash_redis \<Rightarrow> uuid \<Rightarrow> int \<Rightarrow> payload \<Rightarrow> string \<Rightarrow> 's \<Rightarrow> 's" where
  "store_signed_pre_key H u key_id key_pair signature =
     h_set H (signed_prekey_key u key_id)
       (dumps (JObj [(''key_pair'', JObj key_pair), (''signature'', JStr signature)]))"

definition get_signed_pre_key :: "'s hash_redis \<Rightarrow> uuid \<Rightarrow> int \<Rightarrow> 's \<Rightarrow> json option res" where
  "get_signed_pre_key H u key_id s = load_doc (h_get H (signed_prekey_key u key_id) s)"

definition remove_signed_pre_key :: "'s hash_redis \<Rightarrow> uuid \<Rightarrow> int \<Rightarrow> 's \<Rightarrow> 's" where
  "remove_signed_pre_key H u key_id = h_delete H (signed_prekey_key u key_id)"

definition store_session :: "'s hash_redis \<Rightarrow> uuid \<Rightarrow> uuid \<Rightarrow> payload \<Rightarrow> 's \<Rightarrow> 's" where
  "store_session H u r session_state = h_set H (signal_session_key u r) (dumps (JObj session_state))"

definition load_session :: "'s hash_redis \<Rightarrow> uuid \<Rightarrow> uuid \<Rightarrow> 's \<Rightarrow> json option res" where
  "load_session H u r s = load_doc (h_get H (signal_session_key u r) s)"

definition delete_session :: "'s hash_redis \<Rightarrow> uuid \<Rightarrow> uuid \<Rightarrow> 's \<Rightarrow> 's" where
  "delete_session H u r = h_delete H (signal_session_key u r)"

subsection \<open>The mocks\<close>

definition generate_identity_key_pair :: payload where
  "generate_identity_key_pair =
     [(''public'', JStr ''mock_identity_public''), (''private'', JStr ''mock_identity_private'')]"

definition generate_pre_key_pair :: payload where
  "generate_pre_key_pair =
     [(''public'', JStr ''mock_prekey_public''), (''private'', JStr ''mock_prekey_private'')]"

definition generate_signed_pre_key_pair :: "payload \<times> string" where
  "generate_signed_pre_key_pair =
     ([(''public'', JStr ''mock_signed_prekey_public''), (''private'', JStr ''mock_signed_prekey_private'')],
      ''mock_signature'')"

definition compute_x3dh ::
  "string \<Rightarrow> string \<Rightarrow> string \<Rightarrow> string \<Rightarrow> string \<Rightarrow> string \<Rightarrow> string \<Rightarrow> string" where
  "compute_x3dh identity_key_pub signed_pre_key_pub signed_pre_key_priv one_time_pre_key_pub
     remote_identity_pub remote_signed_pre_key_pub remote_one_time_pre_key_pub = ''mock_shared_secret''"

definition derive_ratchet_keys :: "string \<Rightarrow> payload" where
  "derive_ratchet_keys secret =
     [(''root_key'', JStr ''mock_root_key''), (''send_chain_key'', JStr ''mock_send_chain_key''),
      (''receive_chain_key'', JStr ''mock_receive_chain_key'')]"

definition encrypt_message :: "payload \<Rightarrow> string \<Rightarrow> payload" where
  "encrypt_message session_state plaintext =
     [(''ciphertext'', JStr ''mock_ciphertext''),
      (''header'', JObj [(''sender_key_id'', JInt 1), (''receiver_key_id'', JInt 1), (''counter'', JInt 1),
         (''previous_counter'', JInt 0)])]"

definition decrypt_message :: "payload \<Rightarrow> payload \<Rightarrow> string" where
  "decrypt_message session_state ciphertext_dict = ''mock_plaintext''"

subsection \<open>The key routes\<close>

record pre_key_response =
  pk_key_id :: int
  pk_public_key :: string

definition public_of :: "json \<Rightarrow> string res" where
  "public_of key_pair =
     (case key_pair of
        JObj p \<Rightarrow> (case map_of p ''public'' of
            None \<Rightarrow> Inl (KeyError ''public'')
          | Some (JStr k) \<Rightarrow> Inr k
          | Some _ \<Rightarrow> Inl (ValueError ''public_key''))
      | _ \<Rightarrow> Inl TypeError)"

definition get_prekeys :: "'s hash_redis \<Rightarrow> uuid \<Rightarrow> ('s, pre_key_response list) handler" where
  "get_prekeys H user_id s =
     (case get_pre_keys H user_id 100 s of
        Inl e \<Rightarrow> (Inl e, s)
      | Inr prekeys \<Rightarrow>
          if prekeys = [] then (Inl (HTTPException 404 ''No prekeys found for user''), s)
          else (map_res (\<lambda>(key_id, key_pair).
                  (case public_of key_pair of Inl e \<Rightarrow> Inl e
                   | Inr k \<Rightarrow> Inr \<lparr>pk_key_id = key_id, pk_public_key = k\<rparr>)) prekeys, s))"

definition register_identity_key :: "'s hash_redis \<Rightarrow> user \<Rightarrow> string \<Rightarrow> ('s, payload) handler" where
  "register_identity_key H current_user public_key s =
     (Inr [(''status'', JStr ''identity key registered'')],
      store_identity_key H (u_id current_user) generate_identity_key_pair s)"

definition upload_prekey :: "'s hash_redis \<Rightarrow> user \<Rightarrow> int \<Rightarrow> string \<Rightarrow> ('s, payload) handler" where
  "upload_prekey H current_user key_id public_key s =
     (Inr [(''status'', JStr ''prekey uploaded'')],
      store_pre_key H (u_id current_user) key_id generate_pre_key_pair s)"

definition upload_signed_prekey :: "'s hash_redis \<Rightarrow> user \<Rightarrow> int \<Rightarrow> string \<Rightarrow> string \<Rightarrow> ('s, payload) handler" where
  "upload_signed_prekey H current_user key_id public_key client_signature s =
     (Inr [(''status'', JStr ''signed prekey uploaded'')],
      store_signed_pre_key H (u_id current_user) key_id generate_pre_key_pair ''mock_signature_from_client'' s)"

section \<open>The keys of the documents\<close>

lemma append_same_length: "length a = length b \<Longrightarrow> a @ x = b @ y \<longleftrightarrow> a = b \<and> x = y"
  by simp

lemma signal_keys [key_simps]:
  "identity_key u = identity_key v \<longleftrightarrow> u = v"
  "prekeys_key u = prekeys_key v \<longleftrightarrow> u = v"
  "signed_prekey_key u i = signed_prekey_key v j \<longleftrightarrow> u = v \<and> i = j"
  "signal_session_key u r = signal_session_key v q \<longleftrightarrow> u = v \<and> r = q"
  "identity_key u \<noteq> prekeys_key v" "prekeys_key u \<noteq> identity_key v"
  "identity_key u \<noteq> signed_prekey_key v j" "signed_prekey_key v j \<noteq> identity_key u"
  "identity_key u \<noteq> signal_session_key v r" "signal_session_key v r \<noteq> identity_key u"
  "prekeys_key u \<noteq> signed_prekey_key v j" "signed_prekey_key v j \<noteq> prekeys_key u"
  "prekeys_key u \<noteq> signal_session_key v r" "signal_session_key v r \<noteq> prekeys_key u"
  "signed_prekey_key u i \<noteq> signal_session_key v r" "signal_session_key v r \<noteq> signed_prekey_key u i"
  by (simp_all add: identity_key_def prekeys_key_def signed_prekey_key_def signal_session_key_def)

section \<open>What the routes leave in Redis\<close>

text \<open>No document key holds a hash and no collection key a string: what the service keeps to.\<close>

definition signal_typed ::
  "('s \<Rightarrow> string \<Rightarrow> string option) \<Rightarrow> ('s \<Rightarrow> string \<Rightarrow> string \<Rightarrow> string option) \<Rightarrow> 's \<Rightarrow> bool" where
  "signal_typed strs hashes s \<longleftrightarrow>
     (\<forall>u. strs s (prekeys_key u) = None \<and> hashes s (identity_key u) = Map.empty \<and>
       (\<forall>i. hashes s (signed_prekey_key u i) = Map.empty) \<and> (\<forall>r. hashes s (signal_session_key u r) = Map.empty))"

text \<open>The requests of the key routes, and sessions stored and read by the service.\<close>

datatype key_call =
    RegisterIdentity user string
  | UploadPrekey user int string
  | UploadSignedPrekey user int string string
  | FetchPrekeys uuid
  | StoreSession uuid uuid payload
  | LoadSession uuid uuid

primrec serve :: "'s hash_redis \<Rightarrow> key_call \<Rightarrow> 's \<Rightarrow> 's" where
  "serve H (RegisterIdentity cu k) s = snd (register_identity_key H cu k s)"
| "serve H (UploadPrekey cu i k) s = snd (upload_prekey H cu i k s)"
| "serve H (UploadSignedPrekey cu i k sig) s = snd (upload_signed_prekey H cu i k sig s)"
| "serve H (FetchPrekeys u) s = snd (get_prekeys H u s)"
| "serve H (StoreSession u r st) s = store_session H u r st s"
| "serve H (LoadSession u r) s = s"

definition uploaded :: "uuid \<Rightarrow> key_call list \<Rightarrow> int set" where
  "uploaded u calls = {i. \<exists>cu k. UploadPrekey cu i k \<in> set calls \<and> u_id cu = u}"

lemma uploaded_simps [simp]:
  "uploaded u [] = {}"
  "uploaded u (c # cs) = (case c of UploadPrekey cu i k \<Rightarrow> if u_id cu = u then insert i (uploaded u cs) else uploaded u cs
     | _ \<Rightarrow> uploaded u cs)"
  by (auto simp: uploaded_def split: key_call.splits)

lemma get_prekeys_state [simp]: "snd (get_prekeys H u s) = s"
  by (simp add: get_prekeys_def split: sum.splits)

lemma jplain_mock: "jplain (JObj generate_pre_key_pair)"
  by (simp add: generate_pre_key_pair_def)

lemma public_of_mock [simp]: "public_of (JObj generate_pre_key_pair) = Inr ''mock_prekey_public''"
  by (simp add: public_of_def generate_pre_key_pair_def)

lemma dumps_nonempty: "jplain v \<Longrightarrow> dumps v \<noteq> []"
  by (simp add: dumps_start)

lemma load_doc_dumps [simp]: "jplain v \<Longrightarrow> load_doc (Some (dumps v)) = Inr (Some v)"
  by (simp add: load_doc_def dumps_nonempty loads_dumps del: dumps.simps)

lemma jplain_signed:
  "jplain (JObj k) \<Longrightarrow> jplain (JObj [(''key_pair'', JObj k), (''signature'', JStr g)])"
  by simp

lemma load_doc_None [simp]: "load_doc None = Inr None"
  by (simp add: load_doc_def)

lemmas service_defs =
  store_identity_key_def get_identity_key_def store_pre_key_def remove_pre_key_def store_signed_pre_key_def
  get_signed_pre_key_def remove_signed_pre_key_def store_session_def load_session_def delete_session_def

context redis_hashes
begin

lemma serve_typed: "signal_typed strs hashes s \<Longrightarrow> signal_typed strs hashes (serve H c s)"
  by (cases c)
    (simp_all add: signal_typed_def service_defs register_identity_key_def upload_prekey_def
      upload_signed_prekey_def string_laws hash_laws key_simps)

lemma serve_prekeys:
  "signal_typed strs hashes s \<Longrightarrow> hashes (serve H c s) (prekeys_key u) =
     (case c of UploadPrekey cu i k \<Rightarrow>
        if u_id cu = u then (hashes s (prekeys_key u))(str_int i \<mapsto> dumps (JObj generate_pre_key_pair))
        else hashes s (prekeys_key u)
      | _ \<Rightarrow> hashes s (prekeys_key u))"
  by (cases c)
    (simp_all add: signal_typed_def service_defs register_identity_key_def upload_prekey_def
      upload_signed_prekey_def string_laws hash_laws key_simps del: dumps.simps)

lemma serve_all:
  "signal_typed strs hashes s \<Longrightarrow>
     signal_typed strs hashes (fold (serve H) calls s) \<and>
     hashes (fold (serve H) calls s) (prekeys_key u) =
       (\<lambda>f. if f \<in> str_int ` uploaded u calls then Some (dumps (JObj generate_pre_key_pair)) else hashes s (prekeys_key u) f)"
proof (induction calls arbitrary: s)
  case (Cons c calls)
  show ?case
    using Cons.IH [OF serve_typed [OF Cons.prems, of c]] serve_prekeys [OF Cons.prems, of c u]
    by (cases c) (simp_all add: fun_eq_iff del: dumps.simps)
qed simp

lemma get_prekeys_listing:
  assumes "strs s (prekeys_key u) = None"
    and "hashes s (prekeys_key u) = (\<lambda>f. if f \<in> str_int ` ids then Some (dumps (JObj generate_pre_key_pair)) else None)"
    and "ids \<noteq> {}"
  shows "\<exists>ks. fst (get_prekeys H u s) = Inr ks \<and> distinct (map pk_key_id ks) \<and>
    set ks = (\<lambda>i. \<lparr>pk_key_id = i, pk_public_key = ''mock_prekey_public''\<rparr>) ` ids"
proof -
  let ?raw = "h_hgetall H (prekeys_key u) s"
  let ?id = "\<lambda>(f, v). the (py_int 10 f)"
  have in_raw: "(f, v) \<in> set ?raw \<longleftrightarrow> f \<in> str_int ` ids \<and> v = dumps (JObj generate_pre_key_pair)" for f v
    using assms(1,2) by (auto simp: in_hgetall simp del: dumps.simps split: if_splits)
  have raw: "set ?raw = (\<lambda>i. (str_int i, dumps (JObj generate_pre_key_pair))) ` ids"
    using in_raw by (auto simp del: dumps.simps)
  have list: "get_pre_keys H u 100 s = Inr (map (\<lambda>x. (?id x, JObj generate_pre_key_pair)) ?raw)"
    unfolding get_pre_keys_def Let_def
    using raw assms(3)
    by (auto simp del: dumps.simps simp: loads_dumps [OF jplain_mock] intro!: map_res_Inr)
  let ?row = "\<lambda>i. \<lparr>pk_key_id = i, pk_public_key = ''mock_prekey_public''\<rparr>"
  have "map_res (\<lambda>(i, v). case public_of v of Inl e \<Rightarrow> Inl e | Inr k \<Rightarrow> Inr \<lparr>pk_key_id = i, pk_public_key = k\<rparr>)
      (map (\<lambda>x. (?id x, JObj generate_pre_key_pair)) ?raw) =
      Inr (map (\<lambda>x. ?row (fst x)) (map (\<lambda>x. (?id x, JObj generate_pre_key_pair)) ?raw))"
    by (rule map_res_Inr) auto
  then have get: "fst (get_prekeys H u s) = Inr (map (?row \<circ> ?id) ?raw)"
    using raw assms(3) by (auto simp add: get_prekeys_def list comp_def simp del: dumps.simps)
  have "inj_on ?id (set ?raw)" unfolding raw by (auto simp: inj_on_def)
  moreover have "distinct ?raw" using hgetall_distinct [of "prekeys_key u" s] by (simp add: distinct_map)
  ultimately have "distinct (map ?id ?raw)" by (simp add: distinct_map)
  then show ?thesis
    by (intro exI [of _ "map (?row \<circ> ?id) ?raw"]) (simp add: get comp_def raw image_image)
qed

lemma session_documents:
  assumes "signal_typed strs hashes s" and "jplain (JObj st)"
  shows "load_session H u r (store_session H u r st s) = Inr (Some (JObj st))"
    and "load_session H u r (delete_session H u r (store_session H u r st s)) = Inr None"
    and "(v, q) \<noteq> (u, r) \<Longrightarrow> load_session H v q (store_session H u r st s) = load_session H v q s"
    and "(v, q) \<noteq> (u, r) \<Longrightarrow> load_session H v q (delete_session H u r s) = load_session H v q s"
  using assms by (auto simp: signal_typed_def service_defs string_laws key_simps simp del: dumps.simps jplain.simps)

lemma key_documents:
  assumes "signal_typed strs hashes s"
  shows "jplain (JObj k) \<Longrightarrow> get_identity_key H u (store_identity_key H u k s) = Inr (Some (JObj k))"
    and "jplain (JObj k) \<Longrightarrow> get_signed_pre_key H u i (store_signed_pre_key H u i k g s) =
      Inr (Some (JObj [(''key_pair'', JObj k), (''signature'', JStr g)]))"
    and "get_signed_pre_key H u i (remove_signed_pre_key H u i s) = Inr None"
  using assms
  by (simp_all add: signal_typed_def service_defs string_laws key_simps jplain_signed del: dumps.simps jplain.simps)

end

text \<open>
  The types of the values the service keeps: objects under the identity and session keys, a key pair with a signature
  under the signed pre-key keys, and a hash from numerals to key pairs with a public key under the pre-key key.
\<close>

definition object_doc :: "string option \<Rightarrow> bool" where
  "object_doc data \<longleftrightarrow> (case data of None \<Rightarrow> True | Some v \<Rightarrow> v \<noteq> [] \<and> (\<exists>p. loads v = Some (JObj p)))"

definition signed_object :: "json \<Rightarrow> bool" where
  "signed_object v \<longleftrightarrow>
     (\<exists>p k g. v = JObj p \<and> map_of p ''key_pair'' = Some (JObj k) \<and> map_of p ''signature'' = Some (JStr g))"

definition signed_doc :: "string option \<Rightarrow> bool" where
  "signed_doc data \<longleftrightarrow>
     (case data of None \<Rightarrow> True | Some v \<Rightarrow> v \<noteq> [] \<and> (case loads v of None \<Rightarrow> False | Some x \<Rightarrow> signed_object x))"

definition prekey_entry :: "string \<Rightarrow> string \<Rightarrow> bool" where
  "prekey_entry f v \<longleftrightarrow> (\<exists>i p k. f = str_int i \<and> loads v = Some (JObj p) \<and> map_of p ''public'' = Some (JStr k))"

definition key_store ::
  "('s \<Rightarrow> string \<Rightarrow> string option) \<Rightarrow> ('s \<Rightarrow> string \<Rightarrow> string \<Rightarrow> string option) \<Rightarrow> 's \<Rightarrow> bool" where
  "key_store strs hashes s \<longleftrightarrow> signal_typed strs hashes s \<and>
     (\<forall>u. object_doc (strs s (identity_key u)) \<and> (\<forall>r. object_doc (strs s (signal_session_key u r))) \<and>
       (\<forall>i. signed_doc (strs s (signed_prekey_key u i))) \<and>
       (\<forall>f v. hashes s (prekeys_key u) f = Some v \<longrightarrow> prekey_entry f v))"

lemma object_doc_dumps: "jplain (JObj p) \<Longrightarrow> object_doc (Some (dumps (JObj p)))"
  by (simp add: object_doc_def dumps_nonempty loads_dumps del: dumps.simps jplain.simps)

lemma prekey_entry_mock: "prekey_entry (str_int i) (dumps (JObj generate_pre_key_pair))"
proof -
  have "map_of generate_pre_key_pair ''public'' = Some (JStr ''mock_prekey_public'')"
    by (simp add: generate_pre_key_pair_def)
  then show ?thesis
    using loads_dumps [OF jplain_mock] unfolding prekey_entry_def by blast
qed

lemma load_doc_object: "object_doc data \<Longrightarrow> load_doc data = Inr None \<or> (\<exists>p. load_doc data = Inr (Some (JObj p)))"
  by (auto simp: object_doc_def load_doc_def split: option.splits)

lemma load_doc_signed:
  "signed_doc data \<Longrightarrow> load_doc data = Inr None \<or> (\<exists>v. load_doc data = Inr (Some v) \<and> signed_object v)"
  by (auto simp: signed_doc_def load_doc_def split: option.splits)

lemma signed_doc_mock:
  "jplain (JObj k) \<Longrightarrow> signed_doc (Some (dumps (JObj [(''key_pair'', JObj k), (''signature'', JStr g)])))"
  by (simp add: signed_doc_def signed_object_def dumps_nonempty jplain_signed loads_dumps del: dumps.simps jplain.simps)

lemma jplain_identity: "jplain (JObj generate_identity_key_pair)"
  by (simp add: generate_identity_key_pair_def)

context redis_hashes
begin

lemma serve_strs:
  assumes "signal_typed strs hashes s"
  shows "strs (serve H c s) (identity_key u) =
      (case c of RegisterIdentity cu k \<Rightarrow>
         if u_id cu = u then Some (dumps (JObj generate_identity_key_pair)) else strs s (identity_key u)
       | _ \<Rightarrow> strs s (identity_key u))"
    and "strs (serve H c s) (signal_session_key u r) =
      (case c of StoreSession v q st \<Rightarrow>
         if (v, q) = (u, r) then Some (dumps (JObj st)) else strs s (signal_session_key u r)
       | _ \<Rightarrow> strs s (signal_session_key u r))"
    and "strs (serve H c s) (signed_prekey_key u i) =
      (case c of UploadSignedPrekey cu j k g \<Rightarrow>
         if (u_id cu, j) = (u, i)
         then Some (dumps (JObj [(''key_pair'', JObj generate_pre_key_pair), (''signature'', JStr ''mock_signature_from_client'')]))
         else strs s (signed_prekey_key u i)
       | _ \<Rightarrow> strs s (signed_prekey_key u i))"
  using assms
  by (cases c; simp add: signal_typed_def service_defs register_identity_key_def upload_prekey_def
      upload_signed_prekey_def string_laws hash_laws key_simps del: dumps.simps)+

lemma serve_key_store:
  assumes "key_store strs hashes s" and "case c of StoreSession u r st \<Rightarrow> jplain (JObj st) | _ \<Rightarrow> True"
  shows "key_store strs hashes (serve H c s)"
proof -
  have t: "signal_typed strs hashes s"
    and old: "object_doc (strs s (identity_key u))" "object_doc (strs s (signal_session_key u r))"
      "hashes s (prekeys_key u) f = Some v \<Longrightarrow> prekey_entry f v" "signed_doc (strs s (signed_prekey_key u i))" for u r f v i
    using assms(1) by (simp_all add: key_store_def)
  have "object_doc (strs (serve H c s) (identity_key u))" "object_doc (strs (serve H c s) (signal_session_key u r))" for u r
    unfolding serve_strs [OF t] using old assms(2)
    by (auto split: key_call.splits simp: object_doc_dumps jplain_identity simp del: dumps.simps jplain.simps)
  moreover have "signed_doc (strs (serve H c s) (signed_prekey_key u i))" for u i
    unfolding serve_strs [OF t] using old(4) [of u i]
    by (auto split: key_call.splits simp: signed_doc_mock jplain_mock simp del: dumps.simps jplain.simps)
  moreover have "prekey_entry f v" if "hashes (serve H c s) (prekeys_key u) f = Some v" for u f v
    using that old(3) [of u f v] unfolding serve_prekeys [OF t]
    by (auto split: key_call.splits if_splits simp: prekey_entry_mock simp del: dumps.simps)
  ultimately show ?thesis using serve_typed [OF t] by (simp add: key_store_def)
qed

lemma serve_all_key_store:
  "key_store strs hashes s \<Longrightarrow> (\<And>u r st. StoreSession u r st \<in> set calls \<Longrightarrow> jplain (JObj st)) \<Longrightarrow>
     key_store strs hashes (fold (serve H) calls s)"
proof (induction calls arbitrary: s)
  case (Cons c calls)
  have "key_store strs hashes (serve H c s)"
    by (rule serve_key_store [OF Cons.prems(1)]) (use Cons.prems(2) in \<open>auto split: key_call.splits\<close>)
  then have "key_store strs hashes (fold (serve H) calls (serve H c s))"
    by (rule Cons.IH) (auto intro: Cons.prems(2) simp del: jplain.simps)
  then show ?case by simp
qed simp

lemma get_prekeys_total:
  assumes "key_store strs hashes s"
  shows "(\<exists>ks. fst (get_prekeys H u s) = Inr ks) \<or> fst (get_prekeys H u s) = Inl (HTTPException 404 ''No prekeys found for user'')"
proof -
  have free: "strs s (prekeys_key u) = None" using assms by (simp add: key_store_def signal_typed_def)
  have entry: "prekey_entry f v" if "(f, v) \<in> set (h_hgetall H (prekeys_key u) s)" for f v
    using that assms by (simp add: in_hgetall [OF free] key_store_def)
  let ?raw = "h_hgetall H (prekeys_key u) s"
  have "map_res (\<lambda>(f, v). case py_int 10 f of None \<Rightarrow> Inl (ValueError ''invalid literal for int() with base 10'')
        | Some i \<Rightarrow> (case loads v of None \<Rightarrow> Inl (ValueError ''invalid JSON document'') | Some p \<Rightarrow> Inr (i, p))) ?raw =
      Inr (map (\<lambda>(f, v). (the (py_int 10 f), the (loads v))) ?raw)"
  proof (rule map_res_Inr)
    fix x assume "x \<in> set ?raw"
    moreover obtain f v where "x = (f, v)" by fastforce
    ultimately show "(case x of (f, v) \<Rightarrow> case py_int 10 f of None \<Rightarrow> Inl (ValueError ''invalid literal for int() with base 10'')
        | Some i \<Rightarrow> (case loads v of None \<Rightarrow> Inl (ValueError ''invalid JSON document'') | Some p \<Rightarrow> Inr (i, p))) =
      Inr (case x of (f, v) \<Rightarrow> (the (py_int 10 f), the (loads v)))"
      using entry [of f v] by (auto simp: prekey_entry_def)
  qed
  then have "get_pre_keys H u 100 s = Inr (map (\<lambda>(f, v). (the (py_int 10 f), the (loads v))) ?raw)"
    by (simp add: get_pre_keys_def Let_def)
  moreover have "\<exists>k. public_of (the (loads v)) = Inr k" if "(f, v) \<in> set (h_hgetall H (prekeys_key u) s)" for f v
    using entry [OF that] by (auto simp: prekey_entry_def public_of_def)
  then have "map_res (\<lambda>(i, v). case public_of v of Inl e \<Rightarrow> Inl e | Inr k \<Rightarrow> Inr \<lparr>pk_key_id = i, pk_public_key = k\<rparr>)
      (map (\<lambda>(f, v). (the (py_int 10 f), the (loads v))) (h_hgetall H (prekeys_key u) s)) =
      Inr (map (\<lambda>(i, v). \<lparr>pk_key_id = i, pk_public_key = projr (public_of v)\<rparr>)
        (map (\<lambda>(f, v). (the (py_int 10 f), the (loads v))) (h_hgetall H (prekeys_key u) s)))"
    by (intro map_res_Inr) fastforce
  ultimately show ?thesis by (simp add: get_prekeys_def)
qed

end

section \<open>Properties\<close>

text \<open>
  Whatever sequence of requests the key routes serve, the pre-keys handed out for a user
  are exactly the key ids the user uploaded, each listed once; without an upload the answer is
  404. Fetching consumes nothing: the one-time pre-keys are handed out again and again. Every id
  carries the same mock key, because the public key a client uploads is discarded.
\<close>

theorem prekeys_advertised:
  assumes "redis_hashes H strs hashes ttl" and "signal_typed strs hashes s"
    and "hashes s (prekeys_key u) = Map.empty"
  shows "let s' = fold (serve H) calls s; ids = uploaded u calls
    in snd (get_prekeys H u s') = s' \<and>
       (if ids = {} then fst (get_prekeys H u s') = Inl (HTTPException 404 ''No prekeys found for user'')
        else \<exists>ks. fst (get_prekeys H u s') = Inr ks \<and> distinct (map pk_key_id ks) \<and>
          set ks = (\<lambda>i. \<lparr>pk_key_id = i, pk_public_key = ''mock_prekey_public''\<rparr>) ` ids)"
proof -
  let ?s' = "fold (serve H) calls s"
  note H = assms(1)
  have all: "signal_typed strs hashes ?s'"
    "hashes ?s' (prekeys_key u) =
       (\<lambda>f. if f \<in> str_int ` uploaded u calls then Some (dumps (JObj generate_pre_key_pair)) else None)"
    using redis_hashes.serve_all [OF H assms(2), of calls u] assms(3)
    by (auto simp: fun_eq_iff simp del: dumps.simps)
  then have free: "strs ?s' (prekeys_key u) = None" by (simp add: signal_typed_def)
  show ?thesis
  proof (cases "uploaded u calls = {}")
    case True
    then have "h_hgetall H (prekeys_key u) ?s' = []"
      using all(2) redis_hashes.hgetall_Nil [OF H free] by (simp del: dumps.simps)
    with True show ?thesis by (simp add: get_prekeys_def get_pre_keys_def Let_def)
  next
    case False
    with redis_hashes.get_prekeys_listing [OF H free all(2)] show ?thesis by (simp add: Let_def)
  qed
qed

text \<open>
  Identity keys, signed pre-keys and sessions come back exactly as they were stored, until
  they are deleted, and storing the session of one pair of users leaves the sessions of every
  other pair, the opposite direction included, as they were.
\<close>

theorem signal_documents_round_trip:
  assumes "redis_hashes H strs hashes ttl" and "signal_typed strs hashes s"
    and "jplain (JObj st)" and "(v, q) \<noteq> (u, r)"
  shows "load_session H u r (store_session H u r st s) = Inr (Some (JObj st)) \<and>
    load_session H v q (store_session H u r st s) = load_session H v q s \<and>
    load_session H u r (delete_session H u r (store_session H u r st s)) = Inr None \<and>
    get_identity_key H u (store_identity_key H u st s) = Inr (Some (JObj st)) \<and>
    get_signed_pre_key H u i (store_signed_pre_key H u i st g s) =
      Inr (Some (JObj [(''key_pair'', JObj st), (''signature'', JStr g)])) \<and>
    get_signed_pre_key H u i (remove_signed_pre_key H u i (store_signed_pre_key H u i st g s)) = Inr None"
proof -
  note H = assms(1) and t = assms(2)
  have "signal_typed strs hashes (store_signed_pre_key H u i st g s)"
    using t by (simp add: signal_typed_def service_defs redis_hashes.string_laws [OF H] key_simps)
  then show ?thesis
    using redis_hashes.session_documents [OF H t assms(3)] redis_hashes.key_documents [OF H] t assms(3,4)
    by (simp del: dumps.simps jplain.simps)
qed

text \<open>
  C35. Types in Redis. Under every sequence of requests to the key routes, and of sessions stored by the service
  whose states have distinct keys and no floats, the values keep their types: objects under identity and session keys, a key pair
  with a signature under signed pre-key keys, hashes from numerals to key pairs under pre-key keys. In such a store
  the four reads do not fail: the listing of pre-keys is a list or the 404, an identity key and a session are absent
  or an object, a signed pre-key is absent or a key pair with its signature.
\<close>

theorem key_types_kept:
  assumes "redis_hashes H strs hashes ttl" and "key_store strs hashes s"
    and "\<And>u r st. StoreSession u r st \<in> set calls \<Longrightarrow> jplain (JObj st)"
  shows "let s' = fold (serve H) calls s
    in key_store strs hashes s' \<and>
       ((\<exists>ks. fst (get_prekeys H u s') = Inr ks) \<or>
        fst (get_prekeys H u s') = Inl (HTTPException 404 ''No prekeys found for user'')) \<and>
       (get_identity_key H u s' = Inr None \<or> (\<exists>p. get_identity_key H u s' = Inr (Some (JObj p)))) \<and>
       (load_session H u r s' = Inr None \<or> (\<exists>p. load_session H u r s' = Inr (Some (JObj p)))) \<and>
       (get_signed_pre_key H u i s' = Inr None \<or>
        (\<exists>v. get_signed_pre_key H u i s' = Inr (Some v) \<and> signed_object v))"
proof -
  let ?s' = "fold (serve H) calls s"
  have k: "key_store strs hashes ?s'"
    by (rule redis_hashes.serve_all_key_store [OF assms])
  have "h_get H (identity_key u) ?s' = strs ?s' (identity_key u)"
    "h_get H (signal_session_key u r) ?s' = strs ?s' (signal_session_key u r)"
    "h_get H (signed_prekey_key u i) ?s' = strs ?s' (signed_prekey_key u i)"
    using k by (simp_all add: key_store_def signal_typed_def redis_hashes.get [OF assms(1)])
  moreover have "object_doc (strs ?s' (identity_key u))" "object_doc (strs ?s' (signal_session_key u r))"
    "signed_doc (strs ?s' (signed_prekey_key u i))"
    using k by (simp_all add: key_store_def)
  ultimately show ?thesis
    using k redis_hashes.get_prekeys_total [OF assms(1) k, of u] load_doc_object load_doc_signed
    by (simp add: get_identity_key_def load_session_def get_signed_pre_key_def Let_def)
qed

section \<open>Witnesses\<close>

definition signal_user :: user where
  "signal_user = \<lparr>u_id = 5, u_created_at = 0, phone_number = ''+201000000001'', full_name = ''Mona'', username = None,
     department = None, fcm_token = None, hashed_military_id = ''h'', hashed_password = ''p'', device_fingerprint = None,
     token_version = 0, u_status = ''active'', u_role = ''operative'', expiry_date = None, last_seen_at = None,
     is_online = False, u_avatar_object_key = None, mfa_enabled = False\<rparr>"

definition signal_calls :: "key_call list" where
  "signal_calls = [UploadPrekey signal_user 7 ''AAAA'', FetchPrekeys 5, RegisterIdentity signal_user ''BBBB'',
     UploadPrekey signal_user 9 ''CCCC'', FetchPrekeys 5]"

lemma signal_typed_empty: "signal_typed ref_hstr ref_fields (\<lambda>_. None)"
  by (simp add: signal_typed_def ref_hash_defs)

lemma uploaded_signal_calls: "uploaded 5 signal_calls = {7, 9}" "uploaded 6 signal_calls = {}"
  by (auto simp: signal_calls_def signal_user_def)

theorem prekeys_advertised_witness:
  "let s' = fold (serve ref_hashes) signal_calls (\<lambda>_. None)
   in (\<exists>ks. fst (get_prekeys ref_hashes 5 s') = Inr ks \<and> pk_key_id ` set ks = {7, 9}) \<and>
      fst (get_prekeys ref_hashes 6 s') = Inl (HTTPException 404 ''No prekeys found for user'')"
proof -
  have free: "ref_fields (\<lambda>_. None) (prekeys_key u) = Map.empty" for u
    by (simp add: ref_hash_defs)
  show ?thesis
    using prekeys_advertised [OF rh.redis_hashes_axioms signal_typed_empty, OF free [of 5], where calls = signal_calls]
      prekeys_advertised [OF rh.redis_hashes_axioms signal_typed_empty, OF free [of 6], where calls = signal_calls]
    by (auto simp: Let_def uploaded_signal_calls image_image)
qed

theorem signal_documents_round_trip_witness:
  "let s = store_session ref_hashes 5 6 [(''root'', JInt 1)] (\<lambda>_. None)
   in load_session ref_hashes 5 6 s = Inr (Some (JObj [(''root'', JInt 1)])) \<and>
      load_session ref_hashes 6 5 s = Inr None"
proof -
  have "load_session ref_hashes 6 5 (\<lambda>_. None) = Inr None"
    by (simp add: load_session_def load_doc_def ref_hash_defs)
  then show ?thesis
    using signal_documents_round_trip [OF rh.redis_hashes_axioms signal_typed_empty,
      where st = "[(''root'', JInt 1)]" and v = 6 and q = 5 and u = 5 and r = 6] by (simp add: Let_def)
qed

theorem key_types_kept_witness:
  "let s' = fold (serve ref_hashes) [UploadPrekey signal_user 7 ''AAAA'', StoreSession 5 6 [(''root'', JInt 1)]] (\<lambda>_. None)
   in key_store ref_hstr ref_fields s' \<and> load_session ref_hashes 5 6 s' \<noteq> Inl TypeError \<and>
      fst (get_prekeys ref_hashes 5 s') \<noteq> Inl (KeyError ''public'')"
proof -
  let ?calls = "[UploadPrekey signal_user 7 ''AAAA'', StoreSession 5 6 [(''root'', JInt 1)]]"
  have empty: "key_store ref_hstr ref_fields (\<lambda>_. None)"
    by (simp add: key_store_def signal_typed_empty object_doc_def signed_doc_def) (simp add: ref_hash_defs)
  have plain: "StoreSession u r st \<in> set ?calls \<Longrightarrow> jplain (JObj st)" for u r st by simp
  show ?thesis
    by (rule revcut_rl [OF key_types_kept [OF rh.redis_hashes_axioms empty, where calls = ?calls and u = 5 and r = 6]])
      (rule plain, assumption, unfold Let_def, auto simp del: fold_simps)
qed

end
