(* ===== verification/Base64.thy ===== *)
theory Base64
  imports Py_Str
begin

text \<open>
  \<^verbatim>\<open>base64.b64encode\<close> and \<^verbatim>\<open>base64.b64decode\<close> of the standard library, in which the legacy
  backend stores its keys. Bytes are characters below 256. The decoder is the one of
  \<^verbatim>\<open>binascii.a2b_base64\<close> in its lenient mode: characters outside the alphabet are skipped,
  a complete padding ends the input, and an incomplete group at the end is an error
  (\<open>None\<close>), as is a character that is not ASCII.
\<close>

definition b64_alphabet :: string where
  "b64_alphabet = ''ABCDEFGHIJKLMNOPQRSTUVWXYZabcdefghijklmnopqrstuvwxyz0123456789+/''"

definition b64_char :: "nat \<Rightarrow> char" where
  "b64_char n = b64_alphabet ! n"

definition b64_val :: "char \<Rightarrow> nat option" where
  "b64_val c = map_of (zip b64_alphabet [0..<64]) c"

fun b64encode :: "string \<Rightarrow> string" where
  "b64encode [] = []"
| "b64encode [a] = (let x = of_char a in [b64_char (x div 4), b64_char (x mod 4 * 16), CHR ''='', CHR ''=''])"
| "b64encode [a, b] = (let x = of_char a; y = of_char b in
     [b64_char (x div 4), b64_char (x mod 4 * 16 + y div 16), b64_char (y mod 16 * 4), CHR ''=''])"
| "b64encode (a # b # c # cs) = (let x = of_char a; y = of_char b; z = of_char c in
     [b64_char (x div 4), b64_char (x mod 4 * 16 + y div 16), b64_char (y mod 16 * 4 + z div 64), b64_char (z mod 64)]
     @ b64encode cs)"

text \<open>
  The decoder's loop: the position in the group of four, the bits left over from the last
  character, and the padding seen since it.
\<close>

fun a2b :: "nat \<Rightarrow> nat \<Rightarrow> nat \<Rightarrow> string \<Rightarrow> string option" where
  "a2b quad left pads [] = (if quad = 0 then Some [] else None)"
| "a2b quad left pads (c # cs) =
     (if c = CHR ''='' then
        (if 2 \<le> quad then (if 4 \<le> quad + (pads + 1) then Some [] else a2b quad left (pads + 1) cs)
         else a2b quad left pads cs)
      else (case b64_val c of
          None \<Rightarrow> a2b quad left pads cs
        | Some v \<Rightarrow>
            (if quad = 0 then a2b 1 v 0 cs
             else if quad = 1 then map_option (Cons (char_of (left * 4 + v div 16))) (a2b 2 (v mod 16) 0 cs)
             else if quad = 2 then map_option (Cons (char_of (left * 16 + v div 4))) (a2b 3 (v mod 4) 0 cs)
             else map_option (Cons (char_of (left * 64 + v))) (a2b 0 0 0 cs))))"

definition b64decode :: "string \<Rightarrow> string option" where
  "b64decode s = (if \<forall>c\<in>set s. (of_char c :: nat) < 128 then a2b 0 0 0 s else None)"

lemma b64_table: "list_all (\<lambda>n. b64_val (b64_char n) = Some n \<and> b64_char n \<noteq> CHR ''='' \<and> (of_char (b64_char n) :: nat) < 128) [0..<64]"
  by code_simp

lemma b64_char [simp]:
  "n < 64 \<Longrightarrow> b64_val (b64_char n) = Some n"
  "n < 64 \<Longrightarrow> b64_char n \<noteq> CHR ''=''"
  "n < 64 \<Longrightarrow> (of_char (b64_char n) :: nat) < 128"
  using b64_table by (auto simp: list_all_iff)

lemma sextets:
  fixes x y :: nat
  assumes "x < 256" "y < 256"
  shows "x mod 4 * 16 + y div 16 < 64" "x mod 16 * 4 + y div 64 < 64"
    "x mod 4 * 16 < 64" "x mod 16 * 4 < 64" "x div 4 < 64" "x mod 64 < 64"
proof -
  have "y div 16 < 16" "y div 64 < 4" using assms(2) by simp_all
  moreover have "x mod 4 < 4" "x mod 16 < 16" by simp_all
  ultimately show "x mod 4 * 16 + y div 16 < 64" "x mod 16 * 4 + y div 64 < 64"
    "x mod 4 * 16 < 64" "x mod 16 * 4 < 64" by linarith+
  show "x div 4 < 64" "x mod 64 < 64" using assms(1) by simp_all
qed

text \<open>What the decoder puts together from the sextets of a group.\<close>

lemma joins:
  fixes x y z :: nat
  assumes "x < 256" "y < 256" "z < 256"
  shows "x div 4 * 4 + (x mod 4 * 16 + y div 16) div 16 = x" "(x mod 4 * 16 + y div 16) mod 16 = y div 16"
    "y div 16 * 16 + (y mod 16 * 4 + z div 64) div 4 = y" "(y mod 16 * 4 + z div 64) mod 4 = z div 64"
    "z div 64 * 64 + z mod 64 = z" "z div 64 div 4 = 0" "z div 64 mod 4 = z div 64"
proof -
  have "y div 16 < 16" "z div 64 < 4" using assms by simp_all
  then show "x div 4 * 4 + (x mod 4 * 16 + y div 16) div 16 = x" "(x mod 4 * 16 + y div 16) mod 16 = y div 16"
    "y div 16 * 16 + (y mod 16 * 4 + z div 64) div 4 = y" "(y mod 16 * 4 + z div 64) mod 4 = z div 64"
    by simp_all
  show "z div 64 * 64 + z mod 64 = z" "z div 64 div 4 = 0" "z div 64 mod 4 = z div 64"
    using \<open>z div 64 < 4\<close> by simp_all
qed

lemma byte_less: "(of_char c :: nat) < 256"
  by simp

lemmas byte_joins = joins [OF byte_less byte_less byte_less] joins [OF byte_less byte_less, of 0, simplified]
  joins [OF byte_less, of 0 0, simplified]
lemmas byte_sextets = sextets [OF byte_less byte_less]

lemma a2b_group:
  "a2b 0 0 0 (b64encode (a # b # c # cs)) = map_option (\<lambda>t. a # b # c # t) (a2b 0 0 0 (b64encode cs))"
  by (simp add: Let_def byte_sextets byte_joins option.map_comp comp_def)

lemma a2b_encode: "a2b 0 0 0 (b64encode bs) = Some bs"
proof (induction bs rule: b64encode.induct)
  case (4 a b c cs)
  then show ?case by (simp only: a2b_group) simp
qed (simp_all add: Let_def byte_sextets byte_joins)

lemma b64encode_ascii: "c \<in> set (b64encode bs) \<Longrightarrow> (of_char c :: nat) < 128"
  by (induction bs rule: b64encode.induct) (auto simp: Let_def byte_sextets)

lemma b64_round_trip [simp]: "b64decode (b64encode bs) = Some bs"
  by (simp add: b64decode_def b64encode_ascii a2b_encode)

lemma b64encode_Nil [simp]: "b64encode bs = [] \<longleftrightarrow> bs = []"
  by (cases bs rule: b64encode.cases) (simp_all add: Let_def)

end
