(* ===== verification/Signal_Service.thy ===== *)
theory Signal_Service
  imports Redis_Hash Base64 "HOL-Library.Word"
begin

unbundle bit_operations_syntax

text \<open>
  The key service of the legacy Flask backend: \<^verbatim>\<open>backend/app/services/encryption_service.py\<close>
  and \<^verbatim>\<open>backend/app/api/routes/keys.py\<close>. Identity keys are columns of the user's row, pre-keys
  live in Redis: the public halves of a user in one hash, each private half in a hash of its
  own that expires after thirty days.

  The Signal library is a parameter: the key material its \<^verbatim>\<open>generate\<close> functions return
  (\<open>(private, public)\<close>, serialised) and the bytes of \<^verbatim>\<open>os.urandom\<close> are arguments of the
  operation that asks for them; \<open>accepts\<close> says whether \<^verbatim>\<open>IdentityKeyPair\<close> accepts two serialised
  keys, \<open>sign\<close> is its signature function. The loop that draws pre-key ids until one is free need
  not end, so it is a \<open>partial_function\<close> whose value \<open>None\<close> is that it never returns.
\<close>

section \<open>Model\<close>

subsection \<open>Identity keys\<close>

record legacy_user =
  lu_id :: string
  lu_public :: "string option"
  lu_private :: "string option"

definition stored_identity :: "(string \<Rightarrow> string \<Rightarrow> bool) \<Rightarrow> legacy_user \<Rightarrow> (string \<times> string) option" where
  "stored_identity accepts user =
     (if truthy_str (lu_public user) \<and> truthy_str (lu_private user) then
        (case (b64decode (the (lu_public user)), b64decode (the (lu_private user))) of
           (Some pub, Some priv) \<Rightarrow> if accepts pub priv then Some (pub, priv) else None
         | _ \<Rightarrow> None)
      else None)"

text \<open>\<^verbatim>\<open>_load_or_create_identity_key_pair\<close>: the pair (public, private) and the table of users.\<close>

definition load_or_create_identity ::
  "(string \<Rightarrow> string \<Rightarrow> bool) \<Rightarrow> string \<times> string \<Rightarrow> string \<Rightarrow> legacy_user list \<Rightarrow> (string \<times> string) \<times> legacy_user list" where
  "load_or_create_identity accepts fresh user_id users =
     (let user = scalar (\<lambda>u. lu_id u = user_id) users in
      case Option.bind user (stored_identity accepts) of
        Some keys \<Rightarrow> (keys, users)
      | None \<Rightarrow>
          (fresh,
           (let users' = (if user = None then users @ [\<lparr>lu_id = user_id, lu_public = None, lu_private = None\<rparr>] else users)
            in update_where (\<lambda>u. lu_id u = user_id)
                 (\<lambda>u. u\<lparr>lu_public := Some (b64encode (fst fresh)), lu_private := Some (b64encode (snd fresh))\<rparr>) users')))"

subsection \<open>Pre-keys\<close>

definition KEY_TTL :: nat where
  "KEY_TTL = 30 * 24 * 3600"

definition prekeys_hash :: "string \<Rightarrow> string" where
  "prekeys_hash u = ''user:'' @ u @ '':prekeys''"

definition prekey_private :: "string \<Rightarrow> string \<Rightarrow> string" where
  "prekey_private u key_id = ''user:'' @ u @ '':prekey:'' @ key_id"

definition signed_prekey :: "string \<Rightarrow> string" where
  "signed_prekey u = ''user:'' @ u @ '':signed_prekey''"

definition SIGNED_PRE_KEY_ID :: int where
  "SIGNED_PRE_KEY_ID = 0xFFFF"

definition backend_session_key :: "string \<Rightarrow> string \<Rightarrow> string" where
  "backend_session_key u r = ''user:'' @ u @ '':session:'' @ r"

definition pre_key_id :: "32 word \<Rightarrow> nat" where
  "pre_key_id draw = unat (draw AND 0x7FFFFFFF)"

partial_function (option) draw_id :: "(nat \<Rightarrow> 32 word) \<Rightarrow> (nat \<Rightarrow> bool) \<Rightarrow> nat \<Rightarrow> (nat \<times> nat) option" where
  "draw_id rnd taken n =
     (if taken (pre_key_id (rnd n)) then draw_id rnd taken (n + 1) else Some (pre_key_id (rnd n), n + 1))"

record pre_key_out =
  po_public_key :: string
  po_key_id :: int

definition store_private :: "'s hash_redis \<Rightarrow> string \<Rightarrow> string \<Rightarrow> 's \<Rightarrow> 's" where
  "store_private H key priv s = h_expire H key KEY_TTL (h_hset H key ''private'' (b64encode priv) s)"

text \<open>The body of the loop of \<^verbatim>\<open>generate_pre_keys\<close> for the id it has found.\<close>

definition add_pre_key :: "'s hash_redis \<Rightarrow> string \<Rightarrow> string \<times> string \<Rightarrow> string \<Rightarrow> 's \<Rightarrow> 's" where
  "add_pre_key H u pair key_id s =
     h_hset H (prekeys_hash u) key_id (b64encode (snd pair)) (store_private H (prekey_private u key_id) (fst pair) s)"

primrec generate_pre_keys ::
  "'s hash_redis \<Rightarrow> string \<Rightarrow> (nat \<Rightarrow> 32 word) \<Rightarrow> (nat \<Rightarrow> string \<times> string) \<Rightarrow> nat \<Rightarrow> nat \<Rightarrow> 's
     \<Rightarrow> (pre_key_out list \<times> 's) option" where
  "generate_pre_keys H u rnd generate 0 n s = Some ([], s)"
| "generate_pre_keys H u rnd generate (Suc count) n s =
     (case draw_id rnd (\<lambda>i. h_hexists H (prekeys_hash u) (str_int (int i)) s) n of
        None \<Rightarrow> None
      | Some (i, n') \<Rightarrow>
          let pair = generate n'
          in map_option (\<lambda>(ks, s'). (\<lparr>po_public_key = b64encode (snd pair), po_key_id = int i\<rparr> # ks, s'))
               (generate_pre_keys H u rnd generate count n' (add_pre_key H u pair (str_int (int i)) s)))"

definition generate_signed_pre_key ::
  "'s hash_redis \<Rightarrow> (string \<Rightarrow> string \<Rightarrow> string) \<Rightarrow> string \<Rightarrow> string \<times> string \<Rightarrow> string \<times> string \<Rightarrow> 's
     \<Rightarrow> payload \<times> 's" where
  "generate_signed_pre_key H sign u identity pair s =
     (let signature = sign (snd identity) (snd pair);
          s1 = store_private H (prekey_private u (''signed:'' @ str_int SIGNED_PRE_KEY_ID)) (fst pair) s;
          s2 = h_hset H (signed_prekey u) ''publicKey'' (b64encode (snd pair)) s1;
          s3 = h_hset H (signed_prekey u) ''signature'' (b64encode signature) s2
      in ([(''publicKey'', JStr (b64encode (snd pair))), (''keyId'', JInt SIGNED_PRE_KEY_ID),
           (''signature'', JStr (b64encode signature))],
          h_expire H (signed_prekey u) KEY_TTL s3))"

text \<open>
  \<^verbatim>\<open>store_pre_key\<close> generates a pair of its own and stores its private half beside the public
  key of the client. The id is its \<^verbatim>\<open>str\<close>.
\<close>

definition store_client_pre_key :: "'s hash_redis \<Rightarrow> string \<Rightarrow> string \<times> string \<Rightarrow> string \<Rightarrow> string \<Rightarrow> 's \<Rightarrow> bool \<times> 's" where
  "store_client_pre_key H u pair key_id public_key s = (True, add_pre_key H u (fst pair, public_key) key_id s)"

definition consume_pre_key :: "'s hash_redis \<Rightarrow> string \<Rightarrow> int \<Rightarrow> ('s, string option) handler" where
  "consume_pre_key H u i s =
     (let key = prekey_private u (str_int i) in
      case h_hget H key ''private'' s of
        None \<Rightarrow> (Inr None, s)
      | Some priv \<Rightarrow>
          if priv = [] then (Inr None, s)
          else
            let s1 = h_hdel H (prekeys_hash u) (str_int i) (h_hdel H key ''private'' s);
                s2 = h_delete H key s1
            in (case b64decode priv of None \<Rightarrow> Inl (ValueError ''Incorrect padding'') | Some b \<Rightarrow> Inr (Some b), s2))"

definition backend_store_session :: "'s hash_redis \<Rightarrow> string \<Rightarrow> string \<Rightarrow> string \<Rightarrow> 's \<Rightarrow> bool \<times> 's" where
  "backend_store_session H u remote session_state s = (True, h_set H (backend_session_key u remote) session_state s)"

definition backend_load_session :: "'s hash_redis \<Rightarrow> string \<Rightarrow> string \<Rightarrow> 's \<Rightarrow> string option" where
  "backend_load_session H u remote s = h_get H (backend_session_key u remote) s"

subsection \<open>The key routes\<close>

text \<open>A Flask response: the status and the JSON document.\<close>

type_synonym response = "nat \<times> payload"

definition err :: "nat \<Rightarrow> string \<Rightarrow> response" where
  "err status what = (status, [(''error'', JStr what)])"

definition server_error :: response where
  "server_error = err 500 ''Internal server error''"

text \<open>The database and the Redis store of the backend.\<close>

record 's legacy =
  lg_users :: "legacy_user list"
  lg_redis :: 's

text \<open>
  The check \<^verbatim>\<open>not data or 'k' not in data or ...\<close>: \<open>Inl\<close> the response that ends the
  request, \<open>Inr\<close> the object. A list or a string that contains the names passes the check and
  fails when it is indexed, which the handler turns into a 500, as it does with a number.
\<close>

primrec all_in :: "string list \<Rightarrow> json \<Rightarrow> bool option" where
  "all_in [] v = Some True"
| "all_in (k # ks) v = (case py_in k v of None \<Rightarrow> None | Some b \<Rightarrow> if b then all_in ks v else Some False)"

definition required :: "string list \<Rightarrow> string \<Rightarrow> json \<Rightarrow> response + payload" where
  "required names what data =
     (if \<not> truthy data then Inl (err 400 what)
      else (case all_in names data of
          None \<Rightarrow> Inl server_error
        | Some b \<Rightarrow> if \<not> b then Inl (err 400 what)
            else (case data of JObj p \<Rightarrow> Inr p | _ \<Rightarrow> Inl server_error)))"

definition b64_bytes :: "json \<Rightarrow> string option" where
  "b64_bytes v = (case v of JStr s \<Rightarrow> b64decode s | _ \<Rightarrow> None)"

text \<open>
  \<^verbatim>\<open>isinstance(key_id, int) and key_id >= 0\<close>, as the text \<^verbatim>\<open>str(key_id)\<close>: a truth value is an
  \<^verbatim>\<open>int\<close> of Python.
\<close>

definition key_id_text :: "json \<Rightarrow> string option" where
  "key_id_text v = (case v of JInt i \<Rightarrow> if i < 0 then None else Some (str_int i) | JBool b \<Rightarrow> Some (py_str (JBool b)) | _ \<Rightarrow> None)"

definition backend_get_prekeys :: "'s hash_redis \<Rightarrow> string \<Rightarrow> 's \<Rightarrow> response" where
  "backend_get_prekeys H user_id s =
     (let prekeys = h_hgetall H (prekeys_hash user_id) s
      in if prekeys = [] then err 404 ''No prekeys found for user''
         else (case map_res (\<lambda>(key_id, pub).
                  (case py_int 10 key_id of
                     None \<Rightarrow> Inl (ValueError ''invalid literal for int() with base 10'')
                   | Some i \<Rightarrow> Inr (JObj [(''publicKey'', JStr pub), (''keyId'', JInt i)]))) prekeys of
               Inl e \<Rightarrow> server_error
             | Inr keys \<Rightarrow> (200, [(''userId'', JStr user_id), (''prekeys'', JArr keys)])))"

definition upload_identity_key :: "string \<Rightarrow> json \<Rightarrow> legacy_user list \<Rightarrow> response \<times> legacy_user list" where
  "upload_identity_key user_id data users =
     (case required [''publicKey''] ''Public key is required'' data of
        Inl r \<Rightarrow> (r, users)
      | Inr p \<Rightarrow>
          (case (jget p ''publicKey'', b64_bytes (jget p ''publicKey'')) of
             (JStr k, Some _) \<Rightarrow>
               if scalar (\<lambda>u. lu_id u = user_id) users = None then (err 404 ''User not found'', users)
               else ((200, [(''message'', JStr ''Identity key updated successfully'')]),
                     update_where (\<lambda>u. lu_id u = user_id) (lu_public_update (\<lambda>_. Some k)) users)
           | _ \<Rightarrow> (err 400 ''Invalid public key format'', users)))"

definition backend_upload_prekey ::
  "'s hash_redis \<Rightarrow> (string \<Rightarrow> string \<Rightarrow> bool) \<Rightarrow> string \<times> string \<Rightarrow> string \<times> string \<Rightarrow> string \<Rightarrow> json
     \<Rightarrow> 's legacy \<Rightarrow> response \<times> 's legacy" where
  "backend_upload_prekey H accepts fresh pair user_id data w =
     (case required [''publicKey'', ''keyId''] ''Public key and key ID are required'' data of
        Inl r \<Rightarrow> (r, w)
      | Inr p \<Rightarrow>
          (case b64_bytes (jget p ''publicKey'') of
             None \<Rightarrow> (err 400 ''Invalid public key format'', w)
           | Some public_key \<Rightarrow>
               (case key_id_text (jget p ''keyId'') of
                  None \<Rightarrow> (err 400 ''Key ID must be a non-negative integer'', w)
                | Some key_id \<Rightarrow>
                    let users = snd (load_or_create_identity accepts fresh user_id (lg_users w));
                        (success, s) = store_client_pre_key H user_id pair key_id public_key (lg_redis w);
                        w' = w\<lparr>lg_users := users, lg_redis := s\<rparr>
                    in if success then ((200, [(''message'', JStr ''Pre-key stored successfully'')]), w')
                       else (err 500 ''Failed to store pre-key'', w'))))"

definition backend_upload_signed_prekey :: "'s hash_redis \<Rightarrow> string \<Rightarrow> json \<Rightarrow> 's \<Rightarrow> response \<times> 's" where
  "backend_upload_signed_prekey H user_id data s =
     (case required [''publicKey'', ''keyId'', ''signature''] ''Public key, key ID, and signature are required'' data of
        Inl r \<Rightarrow> (r, s)
      | Inr p \<Rightarrow>
          (case (jget p ''publicKey'', jget p ''signature'') of
             (JStr k, JStr g) \<Rightarrow>
               if b64decode k = None \<or> b64decode g = None then (err 400 ''Invalid public key or signature format'', s)
               else if key_id_text (jget p ''keyId'') = None then (err 400 ''Key ID must be a non-negative integer'', s)
               else
                 let s1 = h_hset H (signed_prekey user_id) ''publicKey'' k s;
                     s2 = h_hset H (signed_prekey user_id) ''signature'' g s1
                 in ((200, [(''message'', JStr ''Signed pre-key stored successfully'')]),
                     h_expire H (signed_prekey user_id) KEY_TTL s2)
           | _ \<Rightarrow> (err 400 ''Invalid public key or signature format'', s)))"

definition backend_get_signed_prekey :: "'s hash_redis \<Rightarrow> string \<Rightarrow> 's \<Rightarrow> response" where
  "backend_get_signed_prekey H user_id s =
     (let k = h_hget H (signed_prekey user_id) ''publicKey'' s;
          g = h_hget H (signed_prekey user_id) ''signature'' s
      in if \<not> truthy_str k \<or> \<not> truthy_str g then err 404 ''Signed pre-key not found for user''
         else (200, [(''userId'', JStr user_id), (''publicKey'', JStr (the k)), (''signature'', JStr (the g)),
                     (''keyId'', JInt 0xFFFF)]))"

section \<open>Drawing ids\<close>

lemma pre_key_id_mod: "pre_key_id d = unat d mod 2 ^ 31"
proof -
  have "d AND 0x7FFFFFFF = take_bit 31 d"
    by (simp add: take_bit_eq_mask mask_eq_exp_minus_1)
  then have "pre_key_id d = unat (take_bit 31 d)" by (simp only: pre_key_id_def)
  also have "\<dots> = take_bit 31 (unat d)" by (rule unsigned_take_bit_eq)
  finally show ?thesis by (simp only: take_bit_eq_mod)
qed

lemma pre_key_id_less: "pre_key_id d < 2 ^ 31"
  by (simp add: pre_key_id_mod)

lemma draw_id_free:
  assumes "draw_id rnd taken n = Some z"
  shows "\<not> taken (fst z) \<and> fst z < 2 ^ 31"
proof (rule draw_id.raw_induct [where P = "\<lambda>rnd taken n z. \<not> taken (fst z) \<and> fst z < 2 ^ 31", OF _ assms])
  fix f :: "(nat \<Rightarrow> 32 word) \<Rightarrow> (nat \<Rightarrow> bool) \<Rightarrow> nat \<Rightarrow> (nat \<times> nat) option"
    and rnd :: "nat \<Rightarrow> 32 word" and taken :: "nat \<Rightarrow> bool" and n z
  assume IH: "\<And>rnd taken n z. f rnd taken n = Some z \<Longrightarrow> \<not> taken (fst z) \<and> fst z < 2 ^ 31"
    and eq: "(if taken (pre_key_id (rnd n)) then f rnd taken (n + 1) else Some (pre_key_id (rnd n), n + 1)) = Some z"
  show "\<not> taken (fst z) \<and> fst z < 2 ^ 31"
    using IH [of rnd taken "n + 1" z] eq pre_key_id_less [of "rnd n"]
    by (cases "taken (pre_key_id (rnd n))") auto
qed

lemma draw_id_returns: "\<not> taken (pre_key_id (rnd (n + k))) \<Longrightarrow> draw_id rnd taken n \<noteq> None"
proof (induction k arbitrary: n)
  case (Suc k)
  then show ?case by (subst draw_id.simps) (simp add: Suc.IH [of "n + 1"])
qed (simp add: draw_id.simps)

text \<open>A source of randomness that keeps producing every id: from any point on, each one is drawn again.\<close>

definition fair :: "(nat \<Rightarrow> 32 word) \<Rightarrow> bool" where
  "fair rnd \<longleftrightarrow> (\<forall>i < 2 ^ 31. \<forall>n. \<exists>k. pre_key_id (rnd (n + k)) = i)"

lemma draw_id_None: "fair rnd \<Longrightarrow> draw_id rnd taken n = None \<longleftrightarrow> (\<forall>i < 2 ^ 31. taken i)"
proof
  assume "fair rnd" "draw_id rnd taken n = None"
  then show "\<forall>i < 2 ^ 31. taken i" unfolding fair_def using draw_id_returns by metis
next
  assume "\<forall>i < 2 ^ 31. taken i"
  then show "draw_id rnd taken n = None"
    using draw_id_free [of rnd taken n] by (cases "draw_id rnd taken n") auto
qed

section \<open>The store after the loop\<close>

lemma backend_keys [key_simps]:
  "prekeys_hash u \<noteq> prekey_private u k" "prekey_private u k \<noteq> prekeys_hash u"
  "prekey_private u k = prekey_private u l \<longleftrightarrow> k = l"
  "signed_prekey u \<noteq> prekeys_hash u" "prekeys_hash u \<noteq> signed_prekey u"
  by (simp_all add: prekeys_hash_def prekey_private_def signed_prekey_def)

lemma KEY_TTL_pos: "0 < KEY_TTL"
  by (simp add: KEY_TTL_def)

definition prekeys_typed :: "('s \<Rightarrow> string \<Rightarrow> string option) \<Rightarrow> string \<Rightarrow> 's \<Rightarrow> bool" where
  "prekeys_typed strs u s \<longleftrightarrow> strs s (prekeys_hash u) = None \<and> (\<forall>k. strs s (prekey_private u k) = None)"

context redis_hashes
begin

lemma add_pre_key_views:
  assumes "prekeys_typed strs u s"
  shows "strs (add_pre_key H u pair k s) = strs s"
    and "hashes (add_pre_key H u pair k s) =
      (hashes s)(prekey_private u k := (hashes s (prekey_private u k))(''private'' \<mapsto> b64encode (fst pair)),
                 prekeys_hash u := (hashes s (prekeys_hash u))(k \<mapsto> b64encode (snd pair)))"
    and "ttl (add_pre_key H u pair k s) = (ttl s)(prekey_private u k \<mapsto> KEY_TTL * 1000)"
  using assms
  by (simp_all add: prekeys_typed_def add_pre_key_def store_private_def hash_laws hash_ttl_laws KEY_TTL_pos key_simps
      fun_upd_twist)

lemma add_pre_key_typed: "prekeys_typed strs u s \<Longrightarrow> prekeys_typed strs u (add_pre_key H u pair k s)"
  using add_pre_key_views(1) [of u s] by (simp add: prekeys_typed_def)

lemma generate_pre_keys_Suc:
  assumes "generate_pre_keys H u rnd generate (Suc count) n s = Some (ks, s')" and "prekeys_typed strs u s"
  shows "\<exists>i n' rest. ks = \<lparr>po_public_key = b64encode (snd (generate n')), po_key_id = int i\<rparr> # rest \<and>
    i < 2 ^ 31 \<and> hashes s (prekeys_hash u) (str_int (int i)) = None \<and>
    generate_pre_keys H u rnd generate count n' (add_pre_key H u (generate n') (str_int (int i)) s) = Some (rest, s')"
proof -
  let ?taken = "\<lambda>i. h_hexists H (prekeys_hash u) (str_int (int i)) s"
  obtain i n' where d: "draw_id rnd ?taken n = Some (i, n')"
    using assms(1) by (auto split: option.splits)
  from draw_id_free [OF d] have "i < 2 ^ 31" "hashes s (prekeys_hash u) (str_int (int i)) = None"
    using assms(2) by (simp_all add: prekeys_typed_def hexists)
  moreover obtain rest where "ks = \<lparr>po_public_key = b64encode (snd (generate n')), po_key_id = int i\<rparr> # rest"
    and "generate_pre_keys H u rnd generate count n' (add_pre_key H u (generate n') (str_int (int i)) s) = Some (rest, s')"
    using assms(1) d by (auto simp: Let_def)
  ultimately show ?thesis by blast
qed

text \<open>A pre-key that has been handed out: its public half is listed, its private half is kept for thirty days.\<close>

definition listed :: "string \<Rightarrow> (nat \<Rightarrow> string \<times> string) \<Rightarrow> 's \<Rightarrow> pre_key_out \<Rightarrow> bool" where
  "listed u generate s k \<longleftrightarrow> (\<exists>m. let p = prekey_private u (str_int (po_key_id k)) in
     po_public_key k = b64encode (snd (generate m)) \<and>
     hashes s p ''private'' = Some (b64encode (fst (generate m))) \<and> ttl s p = Some (KEY_TTL * 1000) \<and>
     hashes s (prekeys_hash u) (str_int (po_key_id k)) = Some (po_public_key k))"

definition same_key :: "string \<Rightarrow> int \<Rightarrow> 's \<Rightarrow> 's \<Rightarrow> bool" where
  "same_key u i s s' \<longleftrightarrow>
     hashes s' (prekeys_hash u) (str_int i) = hashes s (prekeys_hash u) (str_int i) \<and>
     hashes s' (prekey_private u (str_int i)) = hashes s (prekey_private u (str_int i)) \<and>
     ttl s' (prekey_private u (str_int i)) = ttl s (prekey_private u (str_int i))"

lemma listed_same: "listed u generate s k \<Longrightarrow> same_key u (po_key_id k) s s' \<Longrightarrow> listed u generate s' k"
  by (simp add: listed_def same_key_def Let_def)

lemma same_key_add: "prekeys_typed strs u s \<Longrightarrow> i \<noteq> j \<Longrightarrow> same_key u i s (add_pre_key H u pair (str_int j) s)"
  by (simp add: same_key_def add_pre_key_views key_simps)

lemma listed_add:
  "prekeys_typed strs u s \<Longrightarrow>
     listed u generate (add_pre_key H u (generate m) (str_int i) s)
       \<lparr>po_public_key = b64encode (snd (generate m)), po_key_id = i\<rparr>"
  unfolding listed_def by (rule exI [of _ m]) (simp add: add_pre_key_views key_simps Let_def)

lemma generate_pre_keys_spec:
  assumes "prekeys_typed strs u s" and "generate_pre_keys H u rnd generate count n s = Some (ks, s')"
  shows "prekeys_typed strs u s' \<and> length ks = count \<and> distinct (map po_key_id ks) \<and>
    (\<forall>k\<in>set ks. hashes s (prekeys_hash u) (str_int (po_key_id k)) = None \<and> 0 \<le> po_key_id k \<and> po_key_id k < 2 ^ 31 \<and>
       listed u generate s' k) \<and>
    (\<forall>i. i \<notin> po_key_id ` set ks \<longrightarrow> same_key u i s s') \<and>
    ttl s' (prekeys_hash u) = ttl s (prekeys_hash u)"
  using assms
proof (induction count arbitrary: n s ks)
  case 0
  then show ?case by (simp add: same_key_def)
next
  case (Suc count)
  obtain i n' rest where ks: "ks = \<lparr>po_public_key = b64encode (snd (generate n')), po_key_id = int i\<rparr> # rest"
    and i: "i < 2 ^ 31" "hashes s (prekeys_hash u) (str_int (int i)) = None"
    and run: "generate_pre_keys H u rnd generate count n' (add_pre_key H u (generate n') (str_int (int i)) s) = Some (rest, s')"
    using generate_pre_keys_Suc [OF Suc.prems(2,1)] by blast
  let ?s1 = "add_pre_key H u (generate n') (str_int (int i)) s"
  note typed = Suc.prems(1)
  note IH = Suc.IH [OF add_pre_key_typed [OF typed] run]
  have new: "int i \<notin> po_key_id ` set rest"
    using IH add_pre_key_views(2) [OF typed] by (auto simp: fun_upd_def)
  have fresh: "hashes s (prekeys_hash u) (str_int (po_key_id k)) = None" if "k \<in> set rest" for k
  proof -
    have "po_key_id k \<noteq> int i" using that new by force
    moreover have "hashes ?s1 (prekeys_hash u) (str_int (po_key_id k)) = None" using IH that by blast
    ultimately show ?thesis
      using same_key_add [OF typed, of "po_key_id k" "int i" "generate n'"] by (simp add: same_key_def)
  qed
  have "listed u generate s' \<lparr>po_public_key = b64encode (snd (generate n')), po_key_id = int i\<rparr>"
    by (rule listed_same [OF listed_add [OF typed]]) (use IH new in simp)
  moreover have "same_key u j s s'" if "j \<noteq> int i" "j \<notin> po_key_id ` set rest" for j
  proof -
    have "same_key u j ?s1 s'" using IH that(2) by blast
    then show ?thesis using same_key_add [OF typed that(1)] by (simp add: same_key_def)
  qed
  moreover have "ttl s' (prekeys_hash u) = ttl s (prekeys_hash u)"
    using IH by (simp add: add_pre_key_views(3) [OF typed] key_simps)
  ultimately show ?case
    using IH ks i new fresh by (simp add: image_iff)
qed

text \<open>The loop returns exactly if there are enough ids left.\<close>

lemma generate_pre_keys_returns:
  assumes "fair rnd" and "prekeys_typed strs u s"
  shows "generate_pre_keys H u rnd generate count n s = None \<longleftrightarrow>
    card {i. i < (2::nat) ^ 31 \<and> hashes s (prekeys_hash u) (str_int (int i)) = None} < count"
  using assms(2)
proof (induction count arbitrary: n s)
  case (Suc count)
  let ?free = "\<lambda>s. {i. i < (2::nat) ^ 31 \<and> hashes s (prekeys_hash u) (str_int (int i)) = None}"
  let ?taken = "\<lambda>i. h_hexists H (prekeys_hash u) (str_int (int i)) s"
  have fin: "finite (?free s)" by simp
  show ?case
  proof (cases "draw_id rnd ?taken n")
    case None
    then have "?free s = {}"
      using draw_id_None [OF assms(1)] Suc.prems by (auto simp: prekeys_typed_def hexists)
    with None show ?thesis by (simp only: generate_pre_keys.simps option.case card.empty) simp
  next
    case (Some z)
    then have i: "fst z \<in> ?free s"
      using draw_id_free [OF Some] Suc.prems by (simp add: prekeys_typed_def hexists)
    let ?s1 = "add_pre_key H u (generate (snd z)) (str_int (int (fst z))) s"
    have "?free ?s1 = ?free s - {fst z}"
      using Suc.prems by (auto simp: add_pre_key_views)
    then have card: "card (?free s) = Suc (card (?free ?s1))"
      using i fin by (simp only: card.remove)
    have step: "generate_pre_keys H u rnd generate (Suc count) n s = None \<longleftrightarrow>
        generate_pre_keys H u rnd generate count (snd z) ?s1 = None"
      using Some by (simp add: case_prod_beta Let_def)
    show ?thesis
      unfolding step Suc.IH [OF add_pre_key_typed [OF Suc.prems]] card by simp
  qed
qed simp

lemma consume_listed:
  assumes "prekeys_typed strs u s" and "listed u generate s k" and "\<forall>m. fst (generate m) \<noteq> []"
  shows "\<exists>m. po_public_key k = b64encode (snd (generate m)) \<and>
    (let (r, s1) = consume_pre_key H u (po_key_id k) s in
      r = Inr (Some (fst (generate m))) \<and> consume_pre_key H u (po_key_id k) s1 = (Inr None, s1) \<and>
      hashes s1 (prekeys_hash u) (str_int (po_key_id k)) = None \<and> (\<forall>j. j \<noteq> po_key_id k \<longrightarrow> same_key u j s s1))"
proof -
  obtain m where m: "po_public_key k = b64encode (snd (generate m))"
    "hashes s (prekey_private u (str_int (po_key_id k))) ''private'' = Some (b64encode (fst (generate m)))"
    using assms(2) unfolding listed_def Let_def by blast
  show ?thesis
    using m assms(1,3)
    by (intro exI [of _ m])
      (simp add: consume_pre_key_def prekeys_typed_def Let_def hash_laws string_laws hash_ttl_laws key_simps same_key_def)
qed

lemma consume_frame:
  assumes "prekeys_typed strs u s"
  shows "prekeys_typed strs u (snd (consume_pre_key H u i s)) \<and>
    (f \<noteq> str_int i \<longrightarrow> hashes (snd (consume_pre_key H u i s)) (prekeys_hash u) f = hashes s (prekeys_hash u) f)"
  using assms
  by (cases "h_hget H (prekey_private u (str_int i)) ''private'' s")
    (simp_all add: consume_pre_key_def prekeys_typed_def hash_laws string_laws Let_def key_simps)

lemma private_expires:
  assumes "prekeys_typed strs u s" and "listed u generate s k" and "ttl s (prekeys_hash u) = None"
    and "KEY_TTL * 1000 \<le> n"
  shows "hashes (h_elapse H n s) (prekeys_hash u) (str_int (po_key_id k)) = Some (po_public_key k)"
    and "consume_pre_key H u (po_key_id k) (h_elapse H n s) = (Inr None, h_elapse H n s)"
  using assms by (auto simp: listed_def Let_def prekeys_typed_def consume_pre_key_def hget strs_elapse hashes_elapse
      split: option.splits)

lemma unreadable_listing:
  assumes "prekeys_typed strs u s" and "hashes s (prekeys_hash u) f = Some v" and "py_int 10 f = None"
  shows "backend_get_prekeys H u s = server_error"
proof -
  have i: "(f, v) \<in> set (h_hgetall H (prekeys_hash u) s)"
    using assms(1,2) by (simp add: prekeys_typed_def in_hgetall)
  let ?f = "\<lambda>(key_id, pub).
    (case py_int 10 key_id of
       None \<Rightarrow> Inl (ValueError ''invalid literal for int() with base 10'')
     | Some i \<Rightarrow> Inr (JObj [(''publicKey'', JStr pub), (''keyId'', JInt i)]))"
  obtain e where "map_res ?f (h_hgetall H (prekeys_hash u) s) = Inl e"
    using map_res_Inl [OF i, of ?f] assms(3) by auto
  with i show ?thesis by (auto simp: backend_get_prekeys_def Let_def)
qed

end

section \<open>Properties\<close>

text \<open>
  C32. The loop that draws random ids until one is free ends exactly if there are enough free
  ids: over a source that keeps producing every 31-bit id, generating \<open>count\<close> pre-keys never
  returns if and only if fewer than \<open>count\<close> ids are unused. When it returns, it has listed
  \<open>count\<close> different 31-bit ids that were unused before and has left every other pre-key alone.
\<close>

theorem prekey_generation_returns:
  assumes "redis_hashes H strs hashes ttl" and "prekeys_typed strs u s" and "fair rnd"
  shows "case generate_pre_keys H u rnd generate count n s of
      None \<Rightarrow> card {i. i < (2::nat) ^ 31 \<and> hashes s (prekeys_hash u) (str_int (int i)) = None} < count
    | Some (ks, s') \<Rightarrow>
        count \<le> card {i. i < (2::nat) ^ 31 \<and> hashes s (prekeys_hash u) (str_int (int i)) = None} \<and>
        length ks = count \<and> distinct (map po_key_id ks) \<and>
        (\<forall>k\<in>set ks. 0 \<le> po_key_id k \<and> po_key_id k < 2 ^ 31 \<and>
           hashes s (prekeys_hash u) (str_int (po_key_id k)) = None \<and>
           hashes s' (prekeys_hash u) (str_int (po_key_id k)) = Some (po_public_key k)) \<and>
        (\<forall>i. i \<notin> po_key_id ` set ks \<longrightarrow>
           hashes s' (prekeys_hash u) (str_int i) = hashes s (prekeys_hash u) (str_int i) \<and>
           hashes s' (prekey_private u (str_int i)) = hashes s (prekey_private u (str_int i)))"
proof (cases "generate_pre_keys H u rnd generate count n s")
  case None
  with redis_hashes.generate_pre_keys_returns [OF assms(1,3,2), where generate = generate and count = count and n = n]
  have "card {i. i < (2::nat) ^ 31 \<and> hashes s (prekeys_hash u) (str_int (int i)) = None} < count" by simp
  then show ?thesis unfolding None by simp
next
  case (Some z)
  obtain ks s' where z: "z = (ks, s')" by (cases z)
  note spec = redis_hashes.generate_pre_keys_spec [OF assms(1,2) Some [unfolded z]]
  have "hashes s' (prekeys_hash u) (str_int (po_key_id k)) = Some (po_public_key k)" if "k \<in> set ks" for k
    using spec that unfolding redis_hashes.listed_def [OF assms(1)] Let_def by blast
  moreover have "count \<le> card {i. i < (2::nat) ^ 31 \<and> hashes s (prekeys_hash u) (str_int (int i)) = None}"
    using redis_hashes.generate_pre_keys_returns [OF assms(1,3,2), where generate = generate and count = count and n = n] Some by simp
  ultimately show ?thesis
    using spec unfolding Some z redis_hashes.same_key_def [OF assms(1)] by simp
qed

text \<open>
  C33. A generated pre-key is used once: consuming it returns the private half of exactly the
  pair whose public half was listed, unlists it, leaves every other pre-key alone, and consuming it
  again returns nothing.
\<close>

theorem prekey_used_once:
  assumes "redis_hashes H strs hashes ttl" and "prekeys_typed strs u s"
    and "generate_pre_keys H u rnd generate count n s = Some (ks, s')" and "k \<in> set ks"
    and "\<forall>m. fst (generate m) \<noteq> []"
  shows "\<exists>m. po_public_key k = b64encode (snd (generate m)) \<and>
    (let (r, s1) = consume_pre_key H u (po_key_id k) s' in
      r = Inr (Some (fst (generate m))) \<and> consume_pre_key H u (po_key_id k) s1 = (Inr None, s1) \<and>
      hashes s1 (prekeys_hash u) (str_int (po_key_id k)) = None \<and>
      (\<forall>j. j \<noteq> po_key_id k \<longrightarrow>
         hashes s1 (prekeys_hash u) (str_int j) = hashes s' (prekeys_hash u) (str_int j) \<and>
         hashes s1 (prekey_private u (str_int j)) = hashes s' (prekey_private u (str_int j))))"
proof -
  note spec = redis_hashes.generate_pre_keys_spec [OF assms(1,2,3)]
  then have "prekeys_typed strs u s'" and "redis_hashes.listed hashes ttl u generate s' k"
    using assms(4) by blast+
  from redis_hashes.consume_listed [OF assms(1) this assms(5)] show ?thesis
    by (auto simp: redis_hashes.same_key_def [OF assms(1)] Let_def case_prod_beta)
qed

text \<open>
  The private halves expire after thirty days and the list of public halves does not: from
  then on the server still hands out every pre-key that was not used, and consuming any of them fails.
\<close>

theorem prekeys_outlive_private_halves:
  assumes "redis_hashes H strs hashes ttl" and "prekeys_typed strs u s" and "ttl s (prekeys_hash u) = None"
    and "generate_pre_keys H u rnd generate count n s = Some (ks, s')" and "k \<in> set ks"
    and "30 * 24 * 3600 * 1000 \<le> ms"
  shows "hashes (h_elapse H ms s') (prekeys_hash u) (str_int (po_key_id k)) = Some (po_public_key k) \<and>
    consume_pre_key H u (po_key_id k) (h_elapse H ms s') = (Inr None, h_elapse H ms s')"
proof -
  note spec = redis_hashes.generate_pre_keys_spec [OF assms(1,2,4)]
  then have s': "prekeys_typed strs u s'" "ttl s' (prekeys_hash u) = None" using assms(3) by simp_all
  have k: "redis_hashes.listed hashes ttl u generate s' k" using spec assms(5) by blast
  have "KEY_TTL * 1000 \<le> ms" using assms(6) by (simp add: KEY_TTL_def)
  with redis_hashes.private_expires [OF assms(1) s'(1) k s'(2)] show ?thesis by blast
qed

text \<open>
  A truth value passes the check that the key id is an integer: after a user uploaded a
  pre-key with the id \<^verbatim>\<open>true\<close>, answered with 200, listing the pre-keys of that user is a server error,
  whichever pre-keys are consumed afterwards.
\<close>

theorem boolean_key_id_breaks_listing:
  assumes "redis_hashes H strs hashes ttl" and "prekeys_typed strs u (lg_redis w)"
    and "b64decode k = Some public_key"
  shows "case backend_upload_prekey H accepts fresh pair u (JObj [(''publicKey'', JStr k), (''keyId'', JBool True)]) w of
    (response, w') \<Rightarrow> fst response = 200 \<and> backend_get_prekeys H u (lg_redis w') = server_error \<and>
      backend_get_prekeys H u (snd (consume_pre_key H u i (lg_redis w'))) = server_error"
proof -
  note H = assms(1) and typed = assms(2)
  let ?s = "add_pre_key H u (fst pair, public_key) ''True'' (lg_redis w)"
  let ?s' = "snd (consume_pre_key H u i ?s)"
  have typed': "prekeys_typed strs u ?s" by (rule redis_hashes.add_pre_key_typed [OF H typed])
  have True': "hashes ?s (prekeys_hash u) ''True'' = Some (b64encode public_key)"
    by (simp add: redis_hashes.add_pre_key_views [OF H typed])
  have no: "py_int 10 ''True'' = None" by code_simp
  then have "str_int i \<noteq> ''True''" by (metis option.distinct(1) py_int_str_int)
  then have s': "prekeys_typed strs u ?s'" "hashes ?s' (prekeys_hash u) ''True'' = Some (b64encode public_key)"
    using redis_hashes.consume_frame [OF H typed', of i "''True''"] True' by simp_all
  note unreadable = redis_hashes.unreadable_listing [OF H]
  have "backend_get_prekeys H u ?s' = server_error" by (rule unreadable [OF s' no])
  moreover have "backend_get_prekeys H u ?s = server_error"
    by (rule unreadable [OF typed' True' no])
  ultimately show ?thesis
    using assms(3)
    by (simp add: backend_upload_prekey_def required_def py_in_def jget_def b64_bytes_def key_id_text_def py_str_def
        store_client_pre_key_def Let_def)
qed

text \<open>
  A signed pre-key comes back with the public key and the signature that were uploaded, but
  under the fixed key id 65535 whatever id the client chose.
\<close>

theorem signed_prekey_round_trip:
  assumes "redis_hashes H strs hashes ttl" and "strs s (signed_prekey u) = None"
    and "k \<noteq> []" and "g \<noteq> []" and "b64decode k \<noteq> None" and "b64decode g \<noteq> None" and "0 \<le> i"
  shows "case backend_upload_signed_prekey H u
      (JObj [(''publicKey'', JStr k), (''keyId'', JInt i), (''signature'', JStr g)]) s of
    (response, s') \<Rightarrow> fst response = 200 \<and> backend_get_signed_prekey H u s' =
      (200, [(''userId'', JStr u), (''publicKey'', JStr k), (''signature'', JStr g), (''keyId'', JInt 65535)])"
proof -
  obtain kb gb where "b64decode k = Some kb" "b64decode g = Some gb" using assms(5,6) by blast
  with assms(2-4,7) show ?thesis
    by (simp add: backend_upload_signed_prekey_def required_def py_in_def jget_def key_id_text_def Let_def
        backend_get_signed_prekey_def redis_hashes.hash_laws [OF assms(1)] KEY_TTL_pos truthy_str_def)
qed

text \<open>
  The identity key pair of a user is created once and then loaded unchanged. Uploading an
  identity key replaces the public half only: from then on the server works with the public key
  of the client and its own old private key.
\<close>

theorem identity_key_pair_stable:
  assumes "\<forall>v. stored_identity accepts v = None \<or> lu_id v \<noteq> u \<or> v \<notin> set users"
    and "accepts (fst fresh) (snd fresh)" and "fst fresh \<noteq> []" and "snd fresh \<noteq> []"
    and "client \<noteq> []" and "accepts client (snd fresh)"
  shows "let (keys, users1) = load_or_create_identity accepts fresh u users;
             (response, users2) = upload_identity_key u (JObj [(''publicKey'', JStr (b64encode client))]) users1
         in keys = fresh \<and> load_or_create_identity accepts other u users1 = (fresh, users1) \<and>
            fst response = 200 \<and> load_or_create_identity accepts other u users2 = ((client, snd fresh), users2)"
proof -
  let ?P = "\<lambda>v. lu_id v = u"
  let ?us = "if scalar ?P users = None then users @ [\<lparr>lu_id = u, lu_public = None, lu_private = None\<rparr>] else users"
  let ?f = "\<lambda>v. v\<lparr>lu_public := Some (b64encode (fst fresh)), lu_private := Some (b64encode (snd fresh))\<rparr>"
  let ?g = "lu_public_update (\<lambda>_. Some (b64encode client))"
  have first: "load_or_create_identity accepts fresh u users = (fresh, update_where ?P ?f ?us)"
  proof -
    have "Option.bind (scalar ?P users) (stored_identity accepts) = None"
      using assms(1) by (cases "scalar ?P users") (auto dest: find_SomeD)
    then show ?thesis by (simp add: load_or_create_identity_def Let_def)
  qed
  obtain v where v: "scalar ?P ?us = Some v" "lu_id v = u"
    by (cases "scalar ?P users") (auto simp: find_append dest: find_SomeD)
  have found: "scalar ?P (update_where ?P ?f ?us) = Some (?f v)"
    "scalar ?P (update_where ?P ?g (update_where ?P ?f ?us)) = Some (?g (?f v))"
    using v by (simp_all add: find_update_key)
  have "stored_identity accepts (?f v) = Some fresh" "stored_identity accepts (?g (?f v)) = Some (client, snd fresh)"
    using assms(2-) by (simp_all add: stored_identity_def truthy_str_def)
  then have "load_or_create_identity accepts other u (update_where ?P ?f ?us) = (fresh, update_where ?P ?f ?us)"
    "load_or_create_identity accepts other u (update_where ?P ?g (update_where ?P ?f ?us)) =
      ((client, snd fresh), update_where ?P ?g (update_where ?P ?f ?us))"
    by (simp_all add: load_or_create_identity_def found)
  then show ?thesis
    by (simp add: first upload_identity_key_def required_def py_in_def jget_def b64_bytes_def found(1) Let_def)
qed

section \<open>Witnesses\<close>

definition counting :: "nat \<Rightarrow> 32 word" where
  "counting n = word_of_nat n"

definition demo_pair :: "nat \<Rightarrow> string \<times> string" where
  "demo_pair m = (''private'', ''public'')"

definition demo_key :: pre_key_out where
  "demo_key = \<lparr>po_public_key = b64encode ''public'', po_key_id = 0\<rparr>"

definition no_keys :: hstore where
  "no_keys = (\<lambda>_. None)"

lemma counting_fair: "fair counting"
  unfolding fair_def
proof (intro allI impI)
  fix i n :: nat
  assume i: "i < 2 ^ 31"
  let ?k = "2 ^ 32 * n + i - n"
  have "n + ?k = 2 ^ 32 * n + i" by simp
  moreover have "unat (word_of_nat (2 ^ 32 * n + i) :: 32 word) = i"
    using i by (simp only: unat_of_nat) simp
  then have "pre_key_id (counting (2 ^ 32 * n + i)) = i"
    using i by (simp only: pre_key_id_mod counting_def) simp
  ultimately have "pre_key_id (counting (n + ?k)) = i" by simp
  then show "\<exists>k. pre_key_id (counting (n + k)) = i" ..
qed

lemma no_keys_views [simp]:
  "ref_hstr no_keys k = None" "ref_fields no_keys k = Map.empty" "ref_httl no_keys k = None"
  "prekeys_typed ref_hstr u no_keys"
  by (simp_all add: no_keys_def ref_hash_defs prekeys_typed_def)

lemma demo_generate:
  "generate_pre_keys ref_hashes ''7'' counting demo_pair 1 0 no_keys =
     Some ([demo_key], add_pre_key ref_hashes ''7'' (demo_pair 1) (str_int 0) no_keys)"
  by (simp add: draw_id.simps rh.hexists counting_def pre_key_id_def demo_pair_def demo_key_def)

theorem prekey_generation_returns_witness:
  "\<exists>ks s'. generate_pre_keys ref_hashes ''7'' counting demo_pair 5 0 no_keys = Some (ks, s') \<and>
     length ks = 5 \<and> distinct (map po_key_id ks)"
  using prekey_generation_returns [OF rh.redis_hashes_axioms no_keys_views(4) counting_fair,
      where u = "''7''" and generate = demo_pair and count = 5 and n = 0]
  by (simp split: option.splits prod.splits)

theorem prekey_used_once_witness:
  "fst (consume_pre_key ref_hashes ''7'' 0
     (snd (the (generate_pre_keys ref_hashes ''7'' counting demo_pair 1 0 no_keys)))) = Inr (Some ''private'')"
  using prekey_used_once [OF rh.redis_hashes_axioms no_keys_views(4) demo_generate, of demo_key]
  unfolding demo_generate
  by (simp add: demo_key_def demo_pair_def Let_def case_prod_beta)

theorem prekeys_outlive_private_halves_witness:
  "let s = h_elapse ref_hashes (31 * 24 * 3600 * 1000)
         (snd (the (generate_pre_keys ref_hashes ''7'' counting demo_pair 1 0 no_keys)))
   in ref_fields s (prekeys_hash ''7'') (str_int 0) = Some (b64encode ''public'') \<and>
      fst (consume_pre_key ref_hashes ''7'' 0 s) = Inr None"
  using prekeys_outlive_private_halves [OF rh.redis_hashes_axioms no_keys_views(4,3) demo_generate,
      where k = demo_key and ms = "31 * 24 * 3600 * 1000"]
  unfolding demo_generate
  by (simp add: demo_key_def Let_def)

theorem boolean_key_id_breaks_listing_witness:
  "let (response, w) = backend_upload_prekey ref_hashes (\<lambda>_ _. True) (''a'', ''b'') (''c'', ''d'') ''7''
         (JObj [(''publicKey'', JStr ''QUJD''), (''keyId'', JBool True)]) \<lparr>lg_users = [], lg_redis = no_keys\<rparr>
   in fst response = 200 \<and> backend_get_prekeys ref_hashes ''7'' (lg_redis w) = server_error"
proof -
  have "b64decode ''QUJD'' = Some ''ABC''" by code_simp
  then show ?thesis
    using boolean_key_id_breaks_listing [OF rh.redis_hashes_axioms, where w = "\<lparr>lg_users = [], lg_redis = no_keys\<rparr>"
        and u = "''7''" and k = "''QUJD''" and public_key = "''ABC''" and accepts = "\<lambda>_ _. True"
        and fresh = "(''a'', ''b'')" and pair = "(''c'', ''d'')"]
    by (simp add: case_prod_beta Let_def)
qed

theorem signed_prekey_round_trip_witness:
  "let (response, s) = backend_upload_signed_prekey ref_hashes ''7''
         (JObj [(''publicKey'', JStr ''QUJD''), (''keyId'', JInt 3), (''signature'', JStr ''QUJD'')]) no_keys
   in fst response = 200 \<and> snd (backend_get_signed_prekey ref_hashes ''7'' s) =
      [(''userId'', JStr ''7''), (''publicKey'', JStr ''QUJD''), (''signature'', JStr ''QUJD''), (''keyId'', JInt 65535)]"
proof -
  have "b64decode ''QUJD'' = Some ''ABC''" by code_simp
  then show ?thesis
    using signed_prekey_round_trip [OF rh.redis_hashes_axioms, where s = no_keys and u = "''7''" and k = "''QUJD''"
        and g = "''QUJD''" and i = 3]
    by (simp add: case_prod_beta Let_def)
qed

theorem identity_key_pair_stable_witness:
  "let (keys, users1) = load_or_create_identity (\<lambda>_ _. True) (''pub'', ''priv'') ''7'' [];
       (response, users2) = upload_identity_key ''7'' (JObj [(''publicKey'', JStr (b64encode ''mine''))]) users1
   in keys = (''pub'', ''priv'') \<and>
      fst (load_or_create_identity (\<lambda>_ _. True) (''x'', ''y'') ''7'' users2) = (''mine'', ''priv'')"
  using identity_key_pair_stable [where accepts = "\<lambda>_ _. True" and u = "''7''" and users = "[]"
      and fresh = "(''pub'', ''priv'')" and client = "''mine''" and other = "(''x'', ''y'')"]
  by (simp add: Let_def case_prod_beta)

end
