(* ===== verification/Signal_Messages.thy ===== *)
theory Signal_Messages
  imports Signal_Service
begin

text \<open>
  The message operations of \<^verbatim>\<open>backend/app/services/encryption_service.py\<close>: key agreement, encryption and
  decryption with the stored session of a pair of users. The Signal library is a parameter, a record of the
  calls the service makes; a call returns its result or the exception it raises. The bytes of
  \<^verbatim>\<open>os.urandom\<close> are arguments.
\<close>

section \<open>UTF-8\<close>

text \<open>
  \<^verbatim>\<open>str.encode('utf-8')\<close> and \<^verbatim>\<open>bytes.decode('utf-8')\<close> on the characters below 256: a sequence of bytes for a
  character above that is not represented and is treated like an invalid one.
\<close>

definition utf8_char :: "char \<Rightarrow> string" where
  "utf8_char c = (let n = of_char c :: nat in
     if n < 128 then [c] else [char_of (192 + n div 64), char_of (128 + n mod 64)])"

definition utf8_encode :: "string \<Rightarrow> string" where
  "utf8_encode s = concat (map utf8_char s)"

fun utf8_decode :: "string \<Rightarrow> string option" where
  "utf8_decode [] = Some []"
| "utf8_decode (c # cs) =
     (let n = of_char c :: nat in
      if n < 128 then map_option ((#) c) (utf8_decode cs)
      else if n = 194 \<or> n = 195 then
        (case cs of
           [] \<Rightarrow> None
         | d # ds \<Rightarrow>
             let m = of_char d :: nat in
             if 128 \<le> m \<and> m < 192 then map_option ((#) (char_of ((n - 192) * 64 + (m - 128)))) (utf8_decode ds)
             else None)
      else None)"

lemma utf8_decode_two:
  assumes "l = 194 \<or> l = 195" and "m < 64"
  shows "utf8_decode (char_of (l :: nat) # char_of (128 + m) # cs) =
    map_option ((#) (char_of ((l - 192) * 64 + m))) (utf8_decode cs)"
proof -
  have "(of_char (char_of l :: char) :: nat) = l" "(of_char (char_of (128 + m) :: char) :: nat) = 128 + m"
    using assms by auto
  with assms show ?thesis by (auto simp: Let_def)
qed

lemma utf8_decode_char: "utf8_decode (utf8_char c @ cs) = map_option ((#) c) (utf8_decode cs)"
proof -
  define n where "n = (of_char c :: nat)"
  have n: "n < 256" "char_of n = c" by (simp_all add: n_def)
  show ?thesis
  proof (cases "n < 128")
    case True
    then show ?thesis by (simp add: utf8_char_def n_def)
  next
    case False
    have "2 \<le> n div 64" using False div_le_mono [of 128 n 64] by simp
    moreover have "n div 64 < 4" using n(1) by (intro less_mult_imp_div_less) simp
    ultimately have lead: "192 + n div 64 = 194 \<or> 192 + n div 64 = 195" by linarith
    have "utf8_char c @ cs = char_of (192 + n div 64) # char_of (128 + n mod 64) # cs"
      using False by (simp add: utf8_char_def n_def Let_def)
    moreover have "(192 + n div 64 - 192) * 64 + n mod 64 = n" by simp
    ultimately show ?thesis using utf8_decode_two [OF lead, of "n mod 64" cs] n(2) by (simp del: utf8_decode.simps)
  qed
qed

lemma utf8_round_trip [simp]: "utf8_decode (utf8_encode s) = Some s"
  by (induction s) (simp_all add: utf8_encode_def utf8_decode_char)

section \<open>Model\<close>

text \<open>
  The calls of the library: reading a remote identity key and a pre-key, the names the key agreement imports,
  building a session for an address, and the two directions of a cipher over a session state.
\<close>

record signal_lib =
  sl_identity :: "string \<Rightarrow> unit res"
  sl_pre_key :: "string \<Rightarrow> unit res"
  sl_imports :: "unit res"
  sl_builder :: "string \<Rightarrow> unit res"
  sl_encrypt :: "string \<Rightarrow> string \<Rightarrow> string res"
  sl_decrypt :: "string \<Rightarrow> string \<Rightarrow> string res"

definition derive_shared_secret :: "signal_lib \<Rightarrow> string \<Rightarrow> string \<Rightarrow> string \<Rightarrow> string \<Rightarrow> string res" where
  "derive_shared_secret L urandom identity_key pre_key ephemeral_key =
     (case sl_identity L identity_key of
        Inl e \<Rightarrow> Inl e
      | Inr _ \<Rightarrow>
          (case sl_pre_key L pre_key of
             Inl e \<Rightarrow> Inl e
           | Inr _ \<Rightarrow> (case sl_imports L of Inl e \<Rightarrow> Inl e | Inr _ \<Rightarrow> Inr urandom)))"

text \<open>The session the cipher works on: the stored one, or fresh random bytes that are stored.\<close>

definition cipher_session ::
  "'s hash_redis \<Rightarrow> signal_lib \<Rightarrow> string \<Rightarrow> string \<Rightarrow> string \<Rightarrow> ('s, string) handler" where
  "cipher_session H L urandom u remote s =
     (let session_state = backend_load_session H u remote s in
      if truthy_str session_state then (Inr (the session_state), s)
      else (case sl_builder L remote of
          Inl e \<Rightarrow> (Inl e, s)
        | Inr _ \<Rightarrow> (Inr urandom, snd (backend_store_session H u remote urandom s))))"

definition backend_encrypt_message ::
  "'s hash_redis \<Rightarrow> signal_lib \<Rightarrow> string \<times> string \<Rightarrow> string \<Rightarrow> string \<Rightarrow> string \<Rightarrow> string \<Rightarrow> payload \<Rightarrow> int \<Rightarrow> string \<times> string
     \<Rightarrow> ('s, payload) handler" where
  "backend_encrypt_message H L urandom u plaintext remote_user_id remote_identity_key remote_signed_pre_key
     remote_pre_key_id our_ephemeral_key_pair s =
     (case cipher_session H L (fst urandom) u remote_user_id s of
        (Inl e, s1) \<Rightarrow> (Inl e, s1)
      | (Inr session_state, s1) \<Rightarrow>
          (case sl_encrypt L session_state (utf8_encode plaintext) of
             Inl e \<Rightarrow> (Inl e, s1)
           | Inr ciphertext \<Rightarrow>
               (Inr [(''ciphertext'', JStr (b64encode ciphertext)), (''ratchetKey'', JStr (b64encode (snd urandom))),
                     (''previousCounter'', JInt 0), (''counter'', JInt 0)], s1)))"

definition backend_decrypt_message ::
  "'s hash_redis \<Rightarrow> signal_lib \<Rightarrow> string \<Rightarrow> string \<Rightarrow> string \<Rightarrow> string \<Rightarrow> 's \<Rightarrow> string res" where
  "backend_decrypt_message H L u ciphertext_b64 ratchet_key_b64 remote_user_id s =
     (let session_state = backend_load_session H u remote_user_id s in
      if \<not> truthy_str session_state then Inl (ValueError ''No session found for decryption'')
      else (case b64decode ciphertext_b64 of
          None \<Rightarrow> Inl (ValueError ''Incorrect padding'')
        | Some ciphertext_bytes \<Rightarrow>
            (case sl_decrypt L (the session_state) ciphertext_bytes of
               Inl e \<Rightarrow> Inl e
             | Inr bytes \<Rightarrow>
                 (case utf8_decode bytes of
                    None \<Rightarrow> Inl (ValueError ''invalid start byte'') | Some plaintext \<Rightarrow> Inr plaintext))))"

section \<open>Properties\<close>

text \<open>
  With a session in place on both sides the service is a channel between the two calls of the library: the
  sender's store does not change, and what the recipient reads is what decryption makes of the ciphertext with
  the recipient's state. Nothing is assumed of the cipher.
\<close>

theorem session_message_arrives:
  assumes "backend_load_session H u r s = Some st" and "backend_load_session H r u s' = Some st'"
    and "st \<noteq> []" and "st' \<noteq> []" and "sl_encrypt L st (utf8_encode msg) = Inr c"
  shows "\<exists>doc c64. backend_encrypt_message H L rnd u msg r ik sk i ek s = (Inr doc, s) \<and> jget doc ''ciphertext'' = JStr c64 \<and>
    backend_decrypt_message H L r c64 k u s' =
      (case sl_decrypt L st' c of Inl e \<Rightarrow> Inl e
       | Inr bytes \<Rightarrow> (case utf8_decode bytes of None \<Rightarrow> Inl (ValueError ''invalid start byte'') | Some t \<Rightarrow> Inr t)) \<and>
    (sl_decrypt L st' c = Inr (utf8_encode msg) \<longrightarrow> backend_decrypt_message H L r c64 k u s' = Inr msg)"
  using assms
  by (simp add: backend_encrypt_message_def cipher_session_def backend_decrypt_message_def truthy_str_def jget_def)

text \<open>
  C34. First contact, whatever the library's cipher does. When neither of two users, whose session keys
  differ, has a stored session with the other, and the session builder does not raise, the sender takes fresh random bytes for the session state and stores them, and hands the library
  these bytes and the text only: the answer and the store are the same whatever keys of the recipient the call was given,
  and also when the library refuses to encrypt. The recipient, who has no session, fails on every ciphertext
  with the \<^verbatim>\<open>ValueError\<close> for a missing session, before the library is asked.
\<close>

theorem first_contact_unreadable:
  assumes "redis_hashes H strs hashes ttl" and "sl_builder L r = Inr ()"
    and "strs s (backend_session_key u r) = None" and "hashes s (backend_session_key u r) = Map.empty"
    and "strs s (backend_session_key r u) = None" and "hashes s (backend_session_key r u) = Map.empty"
    and "backend_session_key u r \<noteq> backend_session_key r u"
  shows "case backend_encrypt_message H L rnd u msg r ik sk i ek s of (res, s1) \<Rightarrow>
    backend_encrypt_message H L rnd u msg r ik' sk' i' ek' s = (res, s1) \<and>
    backend_load_session H u r s1 = Some (fst rnd) \<and>
    (case sl_encrypt L (fst rnd) (utf8_encode msg) of
       Inl e \<Rightarrow> res = Inl e
     | Inr c \<Rightarrow> \<exists>doc. res = Inr doc \<and> jget doc ''ciphertext'' = JStr (b64encode c)) \<and>
    backend_decrypt_message H L r c64 k u s1 = Inl (ValueError ''No session found for decryption'')"
proof -
  have none: "backend_load_session H u r s = None"
    using assms(3,4) by (simp add: backend_load_session_def redis_hashes.get [OF assms(1)])
  let ?s1 = "h_set H (backend_session_key u r) (fst rnd) s"
  have "hashes ?s1 = hashes s" "strs ?s1 = (strs s)(backend_session_key u r := Some (fst rnd))"
    using assms(4) by (simp_all add: redis_hashes.string_laws [OF assms(1)])
  then have "backend_load_session H u r ?s1 = Some (fst rnd)" "backend_load_session H r u ?s1 = None"
    using assms(4-7) by (simp_all add: backend_load_session_def redis_hashes.get [OF assms(1)])
  with none assms(2) show ?thesis
    by (simp add: backend_encrypt_message_def cipher_session_def backend_store_session_def backend_decrypt_message_def
        truthy_str_def jget_def split: sum.splits)
qed

text \<open>
  The key agreement agrees on nothing: the secret is the random bytes of this call, whatever the keys, so two
  parties, or two calls, get different secrets.
\<close>

theorem shared_secret_unshared:
  assumes "derive_shared_secret L rnd ik pk ek = Inr x" and "derive_shared_secret L rnd' ik' pk' ek' = Inr x'"
  shows "x = rnd \<and> x' = rnd' \<and> (rnd \<noteq> rnd' \<longrightarrow> x \<noteq> x')"
  using assms by (auto simp: derive_shared_secret_def split: sum.splits)

section \<open>Witnesses\<close>

text \<open>A cipher that prepends the session state, and refuses a ciphertext of another session.\<close>

definition tagging_lib :: signal_lib where
  "tagging_lib = \<lparr>sl_identity = (\<lambda>_. Inr ()), sl_pre_key = (\<lambda>_. Inr ()), sl_imports = Inr (), sl_builder = (\<lambda>_. Inr ()),
     sl_encrypt = (\<lambda>st p. Inr (st @ p)),
     sl_decrypt = (\<lambda>st c. if take (length st) c = st then Inr (drop (length st) c) else Inl (ValueError ''mac''))\<rparr>"

theorem first_contact_unreadable_witness:
  "case backend_encrypt_message ref_hashes tagging_lib (''state'', ''ratchet'') ''1'' ''hi'' ''2'' [] [] 0 ([], []) no_keys of (res, s1) \<Rightarrow>
     (\<exists>doc. res = Inr doc \<and> jget doc ''ciphertext'' = JStr (b64encode ''statehi'')) \<and>
     backend_load_session ref_hashes ''1'' ''2'' s1 = Some ''state'' \<and>
     backend_decrypt_message ref_hashes tagging_lib ''2'' (b64encode ''statehi'') [] ''1'' s1 =
       Inl (ValueError ''No session found for decryption'')"
proof -
  have keys: "backend_session_key ''1'' ''2'' \<noteq> backend_session_key ''2'' ''1''" by (simp add: backend_session_key_def)
  have build: "sl_builder tagging_lib ''2'' = Inr ()" by (simp add: tagging_lib_def)
  have cipher: "sl_encrypt tagging_lib ''state'' (utf8_encode ''hi'') = Inr ''statehi''"
    by (simp add: tagging_lib_def utf8_encode_def utf8_char_def)
  show ?thesis
    using first_contact_unreadable [OF rh.redis_hashes_axioms build, OF no_keys_views(1,2) no_keys_views(1,2) keys,
        where rnd = "(''state'', ''ratchet'')" and msg = "''hi''" and ik = "[]" and sk = "[]" and i = 0 and ek = "([], [])" and k = "[]"
        and ik' = "[]" and sk' = "[]" and i' = 0 and ek' = "([], [])" and ?c64.0 = "b64encode ''statehi''"]
    by (simp add: cipher case_prod_beta)
qed

theorem session_message_arrives_witness:
  "\<exists>doc c64. backend_encrypt_message ref_hashes tagging_lib (''x'', ''y'') ''1'' ''hi'' ''2'' [] [] 0 ([], [])
       (h_set ref_hashes (backend_session_key ''1'' ''2'') ''state'' no_keys) =
       (Inr doc, h_set ref_hashes (backend_session_key ''1'' ''2'') ''state'' no_keys) \<and>
     jget doc ''ciphertext'' = JStr c64 \<and> backend_decrypt_message ref_hashes tagging_lib ''2'' c64 [] ''1''
       (h_set ref_hashes (backend_session_key ''2'' ''1'') ''state'' no_keys) = Inr ''hi''"
proof -
  have load: "backend_load_session ref_hashes a b (h_set ref_hashes (backend_session_key a b) ''state'' no_keys) = Some ''state''" for a b
    by (simp add: backend_load_session_def rh.string_laws)
  have cipher: "sl_encrypt tagging_lib ''state'' (utf8_encode ''hi'') = Inr (''state'' @ utf8_encode ''hi'')"
    "sl_decrypt tagging_lib ''state'' (''state'' @ utf8_encode ''hi'') = Inr (utf8_encode ''hi'')"
    by (simp_all add: tagging_lib_def)
  show ?thesis
    using session_message_arrives [OF load [of "''1''" "''2''"] load [of "''2''" "''1''"] _ _ cipher(1),
        where rnd = "(''x'', ''y'')" and ik = "[]" and sk = "[]" and i = 0 and ek = "([], [])" and k = "[]"]
      cipher(2) by auto
qed

end
