(* ===== verification/Legacy_Tables.thy ===== *)
theory Legacy_Tables
  imports Prelude
begin

text \<open>
  What the social features of the legacy backend (\<^verbatim>\<open>backend/app\<close>) share: rows numbered by a
  database sequence, pages of a query, and optional fields of an update body.
\<close>

text \<open>The last value each sequence has handed out; a rolled back insert keeps its number.\<close>

type_synonym sequences = "string \<Rightarrow> int"

definition nextval :: "string \<Rightarrow> sequences \<Rightarrow> int" where
  "nextval t s = s t + 1"

definition advance :: "string \<Rightarrow> sequences \<Rightarrow> sequences" where
  "advance t s = s(t := nextval t s)"

text \<open>\<^verbatim>\<open>.offset(skip).limit(limit)\<close>; PostgreSQL rejects a negative number.\<close>

definition page :: "int \<Rightarrow> int \<Rightarrow> 'r list \<Rightarrow> 'r list res" where
  "page skip limit rows = (if skip < 0 \<or> limit < 0 then Inl DataError else Inr (take (nat limit) (drop (nat skip) rows)))"

text \<open>
  A field of an update body read with \<^verbatim>\<open>exclude_unset\<close>: \<open>None\<close> when it was not sent, \<open>Some None\<close>
  when it was sent as \<^verbatim>\<open>null\<close>.
\<close>

definition assign :: "'a option \<Rightarrow> 'a \<Rightarrow> 'a" where
  "assign sent old = (case sent of None \<Rightarrow> old | Some v \<Rightarrow> v)"

definition max_len :: "nat \<Rightarrow> string option \<Rightarrow> bool" where
  "max_len n v \<longleftrightarrow> (case v of None \<Rightarrow> True | Some s \<Rightarrow> length s \<le> n)"

lemma page_Inr [simp]: "0 \<le> skip \<Longrightarrow> 0 \<le> limit \<Longrightarrow> page skip limit rows = Inr (take (nat limit) (drop (nat skip) rows))"
  by (simp add: page_def)

lemma page_all: "length rows \<le> n \<Longrightarrow> page 0 (int n) rows = Inr rows"
  by simp

lemma assign_simps [simp]: "assign None old = old" "assign (Some v) old = v"
  by (simp_all add: assign_def)

lemma advance_sel [simp]: "advance t s t = s t + 1" "u \<noteq> t \<Longrightarrow> advance t s u = s u"
  by (simp_all add: advance_def nextval_def)

text \<open>Turning rows into a response, which fails on a row the response model rejects.\<close>

lemma map_res_InrD: "map_res f xs = Inr ys \<Longrightarrow> x \<in> set xs \<Longrightarrow> \<exists>y. f x = Inr y"
  by (induction xs arbitrary: ys) (auto split: sum.splits)

lemma advance_le [simp]: "s t \<le> advance u s t"
  by (simp add: advance_def nextval_def)

section \<open>Transactions\<close>

text \<open>
  What a route relies on when it commits: \<open>inv\<close>, the invariant of its database, survives the
  numbers that a rolled back transaction has drawn. Then a commit that either installs a state that
  satisfies the constraints or keeps the old one preserves the invariant.
\<close>

locale transactions =
  fixes ok :: "'d \<Rightarrow> bool" and seq :: "'d \<Rightarrow> sequences" and set_seq :: "sequences \<Rightarrow> 'd \<Rightarrow> 'd" and inv :: "'d \<Rightarrow> bool"
  assumes inv_set_seq: "inv d \<Longrightarrow> (\<And>t. seq d t \<le> q t) \<Longrightarrow> inv (set_seq q d)"
begin

definition committed :: "'d \<Rightarrow> 'd \<Rightarrow> 'd" where
  "committed d d' = (if ok d' then d' else set_seq (seq d') d)"

lemma committed_inv:
  assumes "inv d" and "\<And>t. seq d t \<le> seq d' t" and "ok d' \<Longrightarrow> inv d'"
  shows "inv (committed d d')"
  using assms by (simp add: committed_def inv_set_seq)

lemma committed_frame:
  "(\<And>q. f (set_seq q d) = f d) \<Longrightarrow> (ok d' \<Longrightarrow> f d' = f d) \<Longrightarrow> f (committed d d') = f d"
  by (simp add: committed_def)

end

end
