(* ===== verification/Communities.thy ===== *)
theory Communities
  imports Legacy_Tables
begin

text \<open>
  \<^verbatim>\<open>backend/app/models/community.py\<close>, \<^verbatim>\<open>backend/app/schemas/community.py\<close> and
  \<^verbatim>\<open>backend/app/api/routes/communities.py\<close>: communities with members, events, replies and
  resources. A route runs in the session of its request: a commit checks the foreign keys, and a
  failed one rolls the session back but keeps the numbers its inserts drew. The routes module
  evaluates the name \<^verbatim>\<open>CommunityRole\<close> without importing it, so the routes that do take the names
  the module binds; \<open>COMMUNITIES_GLOBALS\<close> are the names its text binds. Importing the module fails before, in
  \<^verbatim>\<open>models/creator.py\<close>, which its schemas import (\<open>module_error\<close> in \<open>Application\<close>): what is modelled are the
  functions of the module, as they would run with that import repaired. An exception of the response
  model is a \<open>ValueError\<close>. Requests run one after the other.
\<close>

section \<open>Model\<close>

datatype CommunityRole = OWNER | ADMIN | MODERATOR | MEMBER

record community =
  c_id :: int
  c_name :: string
  c_description :: "string option"
  c_owner_id :: int
  c_created_at :: instant
  c_is_verified :: "bool option"
  c_category :: "string option"
  c_member_count :: int

record community_member =
  cm_id :: int
  cm_community_id :: int
  cm_user_id :: int
  cm_role :: CommunityRole
  cm_joined_at :: instant

record community_permission =
  cp_id :: int
  cp_community_id :: int
  cp_role :: CommunityRole
  can_post :: bool
  can_comment :: bool
  can_delete_own_posts :: bool
  can_delete_any_posts :: bool
  can_mute_members :: bool
  can_ban_members :: bool
  can_invite_members :: bool
  can_change_settings :: bool

record community_event =
  ce_id :: int
  ce_community_id :: int
  ce_title :: string
  ce_description :: "string option"
  ce_start_time :: instant
  ce_end_time :: "instant option"
  ce_location :: "string option"
  ce_created_by :: int
  ce_created_at :: instant

record community_rsvp =
  cr_id :: int
  cr_event_id :: int
  cr_user_id :: int
  cr_response :: string
  cr_responded_at :: instant

record community_resource =
  cs_id :: int
  cs_community_id :: int
  cs_title :: string
  cs_url :: "string option"
  cs_resource_type :: "string option"
  cs_created_by :: int
  cs_created_at :: instant

record cdb =
  cd_users :: "int list"
  cd_seq :: sequences
  communities :: "community list"
  c_members :: "community_member list"
  c_permissions :: "community_permission list"
  c_events :: "community_event list"
  c_rsvps :: "community_rsvp list"
  c_resources :: "community_resource list"

text \<open>The foreign keys of the six tables, and the transaction that checks them.\<close>

definition cdb_ok :: "cdb \<Rightarrow> bool" where
  "cdb_ok d \<longleftrightarrow>
     (\<forall>c\<in>set (communities d). c_owner_id c \<in> set (cd_users d)) \<and>
     (\<forall>m\<in>set (c_members d). cm_community_id m \<in> c_id ` set (communities d) \<and> cm_user_id m \<in> set (cd_users d)) \<and>
     (\<forall>p\<in>set (c_permissions d). cp_community_id p \<in> c_id ` set (communities d)) \<and>
     (\<forall>e\<in>set (c_events d). ce_community_id e \<in> c_id ` set (communities d) \<and> ce_created_by e \<in> set (cd_users d)) \<and>
     (\<forall>r\<in>set (c_rsvps d). cr_event_id r \<in> ce_id ` set (c_events d) \<and> cr_user_id r \<in> set (cd_users d)) \<and>
     (\<forall>s\<in>set (c_resources d). cs_community_id s \<in> c_id ` set (communities d) \<and> cs_created_by s \<in> set (cd_users d))"

definition c_commit :: "cdb \<Rightarrow> cdb \<Rightarrow> 'a \<Rightarrow> 'a res \<times> cdb" where
  "c_commit d d' x = (if cdb_ok d' then (Inr x, d') else (Inl IntegrityError, d\<lparr>cd_seq := cd_seq d'\<rparr>))"

definition COMMUNITIES_GLOBALS :: "string list" where
  "COMMUNITIES_GLOBALS = [''APIRouter'', ''Depends'', ''HTTPException'', ''status'', ''Session'', ''List'', ''deps'',
     ''Community'', ''CommunityMember'', ''CommunityPermission'', ''CommunityEvent'', ''CommunityEventRSVP'',
     ''CommunityResource'', ''CommunityCreate'', ''CommunityUpdate'', ''CommunityResponse'', ''CommunityMemberCreate'',
     ''CommunityMemberResponse'', ''CommunityPermissionResponse'', ''CommunityEventCreate'', ''CommunityEventResponse'',
     ''CommunityEventRSVPCreate'', ''CommunityEventRSVPResponse'', ''CommunityResourceCreate'',
     ''CommunityResourceResponse'', ''User'', ''router'']"

definition community_by_id :: "cdb \<Rightarrow> int \<Rightarrow> community option" where
  "community_by_id d i = scalar (\<lambda>c. c_id c = i) (communities d)"

definition membership_of :: "cdb \<Rightarrow> int \<Rightarrow> int \<Rightarrow> community_member option" where
  "membership_of d i u = scalar (\<lambda>m. cm_community_id m = i \<and> cm_user_id m = u) (c_members d)"

definition community_not_found :: error where
  "community_not_found = HTTPException 404 ''Community not found''"

text \<open>\<^verbatim>\<open>CommunityResponse\<close>: \<^verbatim>\<open>is_verified\<close> must be a truth value, the column is nullable.\<close>

definition CommunityResponse :: "community \<Rightarrow> community res" where
  "CommunityResponse c = (if c_is_verified c = None then Inl (ValueError ''is_verified'') else Inr c)"

record community_create =
  cc_name :: string
  cc_description :: "string option"
  cc_category :: "string option"

definition CommunityCreate :: "community_create \<Rightarrow> community_create res" where
  "CommunityCreate b =
     (if 100 < length (cc_name b) then Inl (ValueError ''name'')
      else if \<not> max_len 50 (cc_category b) then Inl (ValueError ''category'')
      else Inr b)"

definition default_permission :: "int \<Rightarrow> int \<Rightarrow> CommunityRole \<Rightarrow> community_permission" where
  "default_permission i community_id role =
     \<lparr>cp_id = i, cp_community_id = community_id, cp_role = role,
      can_post = role \<in> {OWNER, ADMIN, MODERATOR, MEMBER},
      can_comment = role \<in> {OWNER, ADMIN, MODERATOR, MEMBER},
      can_delete_own_posts = role \<in> {OWNER, ADMIN, MODERATOR, MEMBER},
      can_delete_any_posts = role \<in> {OWNER, ADMIN},
      can_mute_members = role \<in> {OWNER, ADMIN, MODERATOR},
      can_ban_members = role \<in> {OWNER, ADMIN},
      can_invite_members = role \<in> {OWNER, ADMIN, MODERATOR},
      can_change_settings = role \<in> {OWNER, ADMIN}\<rparr>"

definition new_community :: "int \<Rightarrow> instant \<Rightarrow> int \<Rightarrow> community_create \<Rightarrow> community" where
  "new_community i now owner b =
     \<lparr>c_id = i, c_name = cc_name b, c_description = cc_description b, c_owner_id = owner, c_created_at = now,
      c_is_verified = Some False, c_category = cc_category b, c_member_count = 0\<rparr>"

text \<open>The first transaction stores the community, the second its owner's membership and the permissions.\<close>

definition add_owner :: "instant \<Rightarrow> int \<Rightarrow> int \<Rightarrow> cdb \<Rightarrow> cdb" where
  "add_owner now user_id i d =
     (let m = nextval ''community_members'' (cd_seq d); p = cd_seq d ''community_permissions''
      in d\<lparr>cd_seq := (advance ''community_members'' (cd_seq d))(''community_permissions'' := p + 4),
           c_members := c_members d @ [\<lparr>cm_id = m, cm_community_id = i, cm_user_id = user_id, cm_role = OWNER, cm_joined_at = now\<rparr>],
           c_permissions := c_permissions d @
             map (\<lambda>(k, role). default_permission (p + k) i role) [(1, OWNER), (2, ADMIN), (3, MODERATOR), (4, MEMBER)]\<rparr>)"

definition create_community :: "string list \<Rightarrow> instant \<Rightarrow> int \<Rightarrow> community_create \<Rightarrow> (cdb, community) handler" where
  "create_community globals now current_user body d =
     (case CommunityCreate body of
        Inl e \<Rightarrow> (Inl e, d)
      | Inr b \<Rightarrow>
          let c = new_community (nextval ''communities'' (cd_seq d)) now current_user b;
              d1 = d\<lparr>cd_seq := advance ''communities'' (cd_seq d), communities := communities d @ [c]\<rparr>
          in (case c_commit d d1 () of
                (Inl e, d2) \<Rightarrow> (Inl e, d2)
              | (Inr _, d2) \<Rightarrow>
                  with_name globals ''CommunityRole''
                    (\<lambda>d2. c_commit d2 (add_owner now current_user (c_id c) d2) c) d2))"

definition read_communities :: "int \<Rightarrow> int \<Rightarrow> cdb \<Rightarrow> community list res" where
  "read_communities skip limit d =
     (case page skip limit (communities d) of Inl e \<Rightarrow> Inl e | Inr cs \<Rightarrow> map_res CommunityResponse cs)"

definition read_community :: "int \<Rightarrow> cdb \<Rightarrow> community res" where
  "read_community community_id d =
     (case community_by_id d community_id of None \<Rightarrow> Inl community_not_found | Some c \<Rightarrow> CommunityResponse c)"

record community_update =
  cu_name :: "string option option"
  cu_description :: "string option option"
  cu_category :: "string option option"
  cu_is_verified :: "bool option option"

definition CommunityUpdate :: "community_update \<Rightarrow> community_update res" where
  "CommunityUpdate b =
     (if \<not> max_len 100 (assign (cu_name b) None) then Inl (ValueError ''name'')
      else if \<not> max_len 50 (assign (cu_category b) None) then Inl (ValueError ''category'')
      else Inr b)"

definition updated_community :: "community_update \<Rightarrow> community \<Rightarrow> community" where
  "updated_community b c =
     c\<lparr>c_name := the (assign (cu_name b) (Some (c_name c))),
       c_description := assign (cu_description b) (c_description c),
       c_category := assign (cu_category b) (c_category c),
       c_is_verified := assign (cu_is_verified b) (c_is_verified c)\<rparr>"

text \<open>A name set to \<^verbatim>\<open>null\<close> violates the NOT NULL constraint at the commit.\<close>

definition update_community :: "int \<Rightarrow> int \<Rightarrow> community_update \<Rightarrow> (cdb, community) handler" where
  "update_community current_user community_id body d =
     (case CommunityUpdate body of
        Inl e \<Rightarrow> (Inl e, d)
      | Inr b \<Rightarrow>
          (case community_by_id d community_id of
             None \<Rightarrow> (Inl community_not_found, d)
           | Some c \<Rightarrow>
               if c_owner_id c \<noteq> current_user then (Inl (HTTPException 403 ''Not enough permissions''), d)
               else if cu_name b = Some None then (Inl IntegrityError, d)
               else
                 (case c_commit d (d\<lparr>communities := update_where (\<lambda>x. c_id x = community_id) (updated_community b) (communities d)\<rparr>) () of
                    (Inl e, d1) \<Rightarrow> (Inl e, d1)
                  | (Inr _, d1) \<Rightarrow> (CommunityResponse (updated_community b c), d1))))"

text \<open>
  The cascades of the ORM: members, events with their replies, and resources go with the
  community. Its permissions do not, so a remaining one violates its foreign key.
\<close>

definition without_community :: "int \<Rightarrow> cdb \<Rightarrow> cdb" where
  "without_community i d =
     (let gone = ce_id ` set (filter (\<lambda>e. ce_community_id e = i) (c_events d))
      in d\<lparr>communities := filter (\<lambda>c. c_id c \<noteq> i) (communities d),
           c_members := filter (\<lambda>m. cm_community_id m \<noteq> i) (c_members d),
           c_events := filter (\<lambda>e. ce_community_id e \<noteq> i) (c_events d),
           c_rsvps := filter (\<lambda>r. cr_event_id r \<notin> gone) (c_rsvps d),
           c_resources := filter (\<lambda>s. cs_community_id s \<noteq> i) (c_resources d)\<rparr>)"

definition delete_community :: "int \<Rightarrow> int \<Rightarrow> (cdb, community) handler" where
  "delete_community current_user community_id d =
     (case community_by_id d community_id of
        None \<Rightarrow> (Inl community_not_found, d)
      | Some c \<Rightarrow>
          if c_owner_id c \<noteq> current_user then (Inl (HTTPException 403 ''Not enough permissions''), d)
          else
            (case c_commit d (without_community community_id d) () of
               (Inl e, d1) \<Rightarrow> (Inl e, d1)
             | (Inr _, d1) \<Rightarrow> (CommunityResponse c, d1)))"

text \<open>The check the member, event and resource routes repeat; a caller who is no member is refused first.\<close>

definition admin_only :: "string list \<Rightarrow> string \<Rightarrow> int \<Rightarrow> int \<Rightarrow> (cdb, 'a) handler \<Rightarrow> (cdb, 'a) handler" where
  "admin_only globals what community_id current_user h d =
     (if community_by_id d community_id = None then (Inl community_not_found, d)
      else (case membership_of d community_id current_user of
          None \<Rightarrow> (Inl (HTTPException 403 what), d)
        | Some m \<Rightarrow>
            with_name globals ''CommunityRole''
              (\<lambda>d. if cm_role m \<notin> {OWNER, ADMIN} then (Inl (HTTPException 403 what), d) else h d) d))"

definition add_community_member ::
  "string list \<Rightarrow> instant \<Rightarrow> int \<Rightarrow> int \<Rightarrow> int \<Rightarrow> CommunityRole \<Rightarrow> (cdb, community_member) handler" where
  "add_community_member globals now current_user community_id user_id role =
     admin_only globals ''Not enough permissions to invite members'' community_id current_user
       (\<lambda>d. if membership_of d community_id user_id \<noteq> None
             then (Inl (HTTPException 400 ''User is already a member of this community''), d)
             else
               let m = \<lparr>cm_id = nextval ''community_members'' (cd_seq d), cm_community_id = community_id,
                        cm_user_id = user_id, cm_role = role, cm_joined_at = now\<rparr>
               in c_commit d (d\<lparr>cd_seq := advance ''community_members'' (cd_seq d),
                    c_members := c_members d @ [m],
                    communities := update_where (\<lambda>c. c_id c = community_id)
                      (\<lambda>c. c\<lparr>c_member_count := c_member_count c + 1\<rparr>) (communities d)\<rparr>) m)"

definition read_community_members :: "int \<Rightarrow> int \<Rightarrow> int \<Rightarrow> cdb \<Rightarrow> community_member list res" where
  "read_community_members community_id skip limit d =
     (if community_by_id d community_id = None then Inl community_not_found
      else page skip limit (scalars (\<lambda>m. cm_community_id m = community_id) (c_members d)))"

record community_event_create =
  ee_title :: string
  ee_description :: "string option"
  ee_start_time :: instant
  ee_end_time :: "instant option"
  ee_location :: "string option"

definition CommunityEventCreate :: "community_event_create \<Rightarrow> community_event_create res" where
  "CommunityEventCreate b =
     (if 200 < length (ee_title b) then Inl (ValueError ''title'')
      else if \<not> max_len 255 (ee_location b) then Inl (ValueError ''location'')
      else Inr b)"

definition create_community_event ::
  "string list \<Rightarrow> instant \<Rightarrow> int \<Rightarrow> int \<Rightarrow> community_event_create \<Rightarrow> (cdb, community_event) handler" where
  "create_community_event globals now current_user community_id body d =
     (case CommunityEventCreate body of
        Inl e \<Rightarrow> (Inl e, d)
      | Inr b \<Rightarrow>
          admin_only globals ''Not enough permissions to create events'' community_id current_user
            (\<lambda>d. let e = \<lparr>ce_id = nextval ''community_events'' (cd_seq d), ce_community_id = community_id,
                       ce_title = ee_title b, ce_description = ee_description b, ce_start_time = ee_start_time b,
                       ce_end_time = ee_end_time b, ce_location = ee_location b, ce_created_by = current_user,
                       ce_created_at = now\<rparr>
                  in c_commit d (d\<lparr>cd_seq := advance ''community_events'' (cd_seq d), c_events := c_events d @ [e]\<rparr>) e) d)"

definition read_community_events :: "int \<Rightarrow> int \<Rightarrow> int \<Rightarrow> cdb \<Rightarrow> community_event list res" where
  "read_community_events community_id skip limit d =
     (if community_by_id d community_id = None then Inl community_not_found
      else page skip limit (scalars (\<lambda>e. ce_community_id e = community_id) (c_events d)))"

definition rsvp_of :: "cdb \<Rightarrow> int \<Rightarrow> int \<Rightarrow> community_rsvp option" where
  "rsvp_of d event_id user_id = scalar (\<lambda>r. cr_event_id r = event_id \<and> cr_user_id r = user_id) (c_rsvps d)"

definition rsvp_to_community_event :: "instant \<Rightarrow> int \<Rightarrow> int \<Rightarrow> int \<Rightarrow> string \<Rightarrow> (cdb, community_rsvp) handler" where
  "rsvp_to_community_event now current_user community_id event_id response d =
     (if 20 < length response then (Inl (ValueError ''response''), d)
      else if community_by_id d community_id = None then (Inl community_not_found, d)
      else if scalar (\<lambda>e. ce_id e = event_id \<and> ce_community_id e = community_id) (c_events d) = None
        then (Inl (HTTPException 404 ''Event not found''), d)
      else if membership_of d community_id current_user = None
        then (Inl (HTTPException 403 ''You must be a member of the community to RSVP''), d)
      else if rsvp_of d event_id current_user \<noteq> None
        then (Inl (HTTPException 400 ''You have already RSVP'd to this event''), d)
      else
        let r = \<lparr>cr_id = nextval ''community_event_rsvps'' (cd_seq d), cr_event_id = event_id,
                 cr_user_id = current_user, cr_response = response, cr_responded_at = now\<rparr>
        in c_commit d (d\<lparr>cd_seq := advance ''community_event_rsvps'' (cd_seq d), c_rsvps := c_rsvps d @ [r]\<rparr>) r)"

record community_resource_create =
  rr_title :: string
  rr_url :: "string option"
  rr_resource_type :: "string option"

definition CommunityResourceCreate :: "community_resource_create \<Rightarrow> community_resource_create res" where
  "CommunityResourceCreate b =
     (if 200 < length (rr_title b) then Inl (ValueError ''title'')
      else if \<not> max_len 500 (rr_url b) then Inl (ValueError ''url'')
      else if \<not> max_len 50 (rr_resource_type b) then Inl (ValueError ''resource_type'')
      else Inr b)"

definition add_community_resource ::
  "string list \<Rightarrow> instant \<Rightarrow> int \<Rightarrow> int \<Rightarrow> community_resource_create \<Rightarrow> (cdb, community_resource) handler" where
  "add_community_resource globals now current_user community_id body d =
     (case CommunityResourceCreate body of
        Inl e \<Rightarrow> (Inl e, d)
      | Inr b \<Rightarrow>
          admin_only globals ''Not enough permissions to add resources'' community_id current_user
            (\<lambda>d. let r = \<lparr>cs_id = nextval ''community_resources'' (cd_seq d), cs_community_id = community_id,
                       cs_title = rr_title b, cs_url = rr_url b, cs_resource_type = rr_resource_type b,
                       cs_created_by = current_user, cs_created_at = now\<rparr>
                  in c_commit d (d\<lparr>cd_seq := advance ''community_resources'' (cd_seq d),
                       c_resources := c_resources d @ [r]\<rparr>) r) d)"

definition read_community_resources :: "int \<Rightarrow> int \<Rightarrow> int \<Rightarrow> cdb \<Rightarrow> community_resource list res" where
  "read_community_resources community_id skip limit d =
     (if community_by_id d community_id = None then Inl community_not_found
      else page skip limit (scalars (\<lambda>s. cs_community_id s = community_id) (c_resources d)))"

section \<open>Reachable databases\<close>

text \<open>
  One request of the routes that change the database, for any caller, body and answer; the
  routes run with the names \<open>globals\<close>.
\<close>

inductive community_step :: "string list \<Rightarrow> cdb \<Rightarrow> cdb \<Rightarrow> bool" for globals where
  create: "create_community globals now u b d = (r, d') \<Longrightarrow> community_step globals d d'"
| update: "update_community u i b d = (r', d') \<Longrightarrow> community_step globals d d'"
| delete: "delete_community u i d = (r', d') \<Longrightarrow> community_step globals d d'"
| add_member: "add_community_member globals now u i v role d = (rm, d') \<Longrightarrow> community_step globals d d'"
| event: "create_community_event globals now u i e d = (re, d') \<Longrightarrow> community_step globals d d'"
| rsvp: "rsvp_to_community_event now u i k t d = (rr, d') \<Longrightarrow> community_step globals d d'"
| resource: "add_community_resource globals now u i x d = (rs, d') \<Longrightarrow> community_step globals d d'"

definition empty_cdb :: "int list \<Rightarrow> cdb" where
  "empty_cdb us = \<lparr>cd_users = us, cd_seq = (\<lambda>_. 0), communities = [], c_members = [], c_permissions = [], c_events = [],
     c_rsvps = [], c_resources = []\<rparr>"

inductive community_reachable :: "string list \<Rightarrow> int list \<Rightarrow> cdb \<Rightarrow> bool" for globals us where
  start: "community_reachable globals us (empty_cdb us)"
| step: "community_reachable globals us d \<Longrightarrow> community_step globals d d' \<Longrightarrow> community_reachable globals us d'"

text \<open>
  What holds in every reachable database when the module binds \<^verbatim>\<open>CommunityRole\<close>: the keys are
  unique, a membership is unique, the owner is a member, the permissions of the four roles
  exist, and the stored member count is one less than the number of members.
\<close>

definition members_in :: "cdb \<Rightarrow> int \<Rightarrow> community_member list" where
  "members_in d i = filter (\<lambda>m. cm_community_id m = i) (c_members d)"

definition community_ok :: "cdb \<Rightarrow> community \<Rightarrow> bool" where
  "community_ok d c \<longleftrightarrow>
     (\<exists>m\<in>set (members_in d (c_id c)). cm_user_id m = c_owner_id c \<and> cm_role m = OWNER) \<and>
     (\<exists>p\<in>set (c_permissions d). cp_community_id p = c_id c) \<and>
     int (length (members_in d (c_id c))) = c_member_count c + 1"

definition community_inv :: "cdb \<Rightarrow> bool" where
  "community_inv d \<longleftrightarrow> cdb_ok d \<and> distinct (map c_id (communities d)) \<and>
     (\<forall>c\<in>set (communities d). c_id c \<le> cd_seq d ''communities'' \<and> community_ok d c) \<and>
     distinct (map (\<lambda>m. (cm_community_id m, cm_user_id m)) (c_members d)) \<and>
     distinct (map (\<lambda>r. (cr_event_id r, cr_user_id r)) (c_rsvps d))"

subsection \<open>Lookups and commits\<close>

lemma c_commitD: "c_commit d d' x = (r, d'') \<Longrightarrow> (d'' = d' \<and> cdb_ok d' \<and> r = Inr x) \<or> d'' = d\<lparr>cd_seq := cd_seq d'\<rparr>"
  by (auto simp: c_commit_def split: if_splits)

lemma community_by_idD: "community_by_id d i = Some c \<Longrightarrow> c \<in> set (communities d) \<and> c_id c = i"
  by (auto simp: community_by_id_def dest: find_SomeD)

lemma membership_ofD: "membership_of d i u = Some m \<Longrightarrow> m \<in> set (c_members d) \<and> cm_community_id m = i \<and> cm_user_id m = u"
  by (auto simp: membership_of_def dest: find_SomeD)

lemma membership_of_None: "membership_of d i u = None \<longleftrightarrow> (i, u) \<notin> (\<lambda>m. (cm_community_id m, cm_user_id m)) ` set (c_members d)"
  by (auto simp: membership_of_def find_None_iff)

lemma rsvp_of_None: "rsvp_of d k u = None \<longleftrightarrow> (k, u) \<notin> (\<lambda>r. (cr_event_id r, cr_user_id r)) ` set (c_rsvps d)"
  by (auto simp: rsvp_of_def find_None_iff)

text \<open>What an administrator's route does: refuse with the state unchanged, or run its body.\<close>

lemma admin_onlyD:
  "admin_only globals what i u h d = (r, d') \<Longrightarrow> d' = d \<or>
     (community_by_id d i \<noteq> None \<and> membership_of d i u \<noteq> None \<and> h d = (r, d'))"
  by (auto simp: admin_only_def with_name_def split: if_splits option.splits)

lemma members_in_append [simp]:
  "members_in (d\<lparr>c_members := c_members d @ [m]\<rparr>) i = members_in d i @ (if cm_community_id m = i then [m] else [])"
  by (simp add: members_in_def)

lemma members_in_frame: "c_members d' = c_members d \<Longrightarrow> members_in d' i = members_in d i"
  by (simp add: members_in_def)

subsection \<open>The invariant\<close>

lemma community_ok_frame:
  "c_members d' = c_members d \<Longrightarrow> c_permissions d' = c_permissions d \<Longrightarrow> community_ok d' c \<longleftrightarrow> community_ok d c"
  by (simp add: community_ok_def members_in_def)

lemma community_inv_frame:
  assumes "community_inv d" and "communities d' = communities d" and "c_members d' = c_members d"
    and "c_permissions d' = c_permissions d" and "cd_seq d ''communities'' \<le> cd_seq d' ''communities''"
    and "cdb_ok d'" and "distinct (map (\<lambda>r. (cr_event_id r, cr_user_id r)) (c_rsvps d'))"
  shows "community_inv d'"
proof -
  have "community_ok d' c \<longleftrightarrow> community_ok d c" for c
    by (rule community_ok_frame [OF assms(3,4)])
  then show ?thesis
    using assms(1,5-) unfolding community_inv_def assms(2,3) by (blast intro: order_trans)
qed

lemma cdb_ok_seq [simp]: "cdb_ok (d\<lparr>cd_seq := q\<rparr>) \<longleftrightarrow> cdb_ok d"
  by (simp add: cdb_ok_def)

lemma community_inv_seq:
  "community_inv d \<Longrightarrow> cd_seq d ''communities'' \<le> q ''communities'' \<Longrightarrow> community_inv (d\<lparr>cd_seq := q\<rparr>)"
  by (rule community_inv_frame [of d]) (auto simp: community_inv_def)

interpretation cs: transactions cdb_ok cd_seq "\<lambda>q d. d\<lparr>cd_seq := q\<rparr>" community_inv
  by unfold_locales (simp add: community_inv_seq)

lemma c_commit_state: "c_commit d d' x = (r, d'') \<Longrightarrow> d'' = cs.committed d d'"
  by (auto simp: c_commit_def cs.committed_def split: if_splits)

lemma community_inv_commit:
  assumes "c_commit d d' x = (r, d'')" and "community_inv d" and "\<And>t. cd_seq d t \<le> cd_seq d' t"
    and "cdb_ok d' \<Longrightarrow> community_inv d'"
  shows "community_inv d''"
  unfolding c_commit_state [OF assms(1)] by (rule cs.committed_inv [OF assms(2-4)])

lemma inv_update:
  assumes "community_inv d" and "cdb_ok (d\<lparr>communities := update_where (\<lambda>x. c_id x = i) (updated_community b) (communities d)\<rparr>)"
  shows "community_inv (d\<lparr>communities := update_where (\<lambda>x. c_id x = i) (updated_community b) (communities d)\<rparr>)"
proof -
  have ids: "map c_id (update_where (\<lambda>x. c_id x = i) (updated_community b) (communities d)) = map c_id (communities d)"
    by (rule map_update_where) (simp add: updated_community_def)
  have ok: "community_ok (d\<lparr>communities := cs\<rparr>) (updated_community b c) \<longleftrightarrow> community_ok d c"
    "community_ok (d\<lparr>communities := cs\<rparr>) c \<longleftrightarrow> community_ok d c"
    "community_ok d (updated_community b c) \<longleftrightarrow> community_ok d c" for cs c
    by (simp_all add: community_ok_def members_in_def updated_community_def)
  have "c_id (updated_community b c) = c_id c" for c by (simp add: updated_community_def)
  then show ?thesis
    using assms unfolding community_inv_def
    by (auto simp: ids ok in_update_where)
qed

lemma no_members_yet:
  assumes "community_inv d" and "cd_seq d ''communities'' < i"
  shows "members_in d i = []" and "i \<notin> c_id ` set (communities d)"
proof -
  show fresh: "i \<notin> c_id ` set (communities d)" using assms by (auto simp: community_inv_def)
  then show "members_in d i = []"
    using assms(1) by (auto simp: community_inv_def cdb_ok_def members_in_def filter_empty_conv)
qed

lemma add_owner_sel [simp]:
  "communities (add_owner now u i d) = communities d" "c_rsvps (add_owner now u i d) = c_rsvps d"
  "cd_seq (add_owner now u i d) ''communities'' = cd_seq d ''communities''"
  "c_events (add_owner now u i d) = c_events d" "c_resources (add_owner now u i d) = c_resources d"
  "map (\<lambda>m. (cm_community_id m, cm_user_id m)) (c_members (add_owner now u i d)) =
     map (\<lambda>m. (cm_community_id m, cm_user_id m)) (c_members d) @ [(i, u)]"
  by (simp_all add: add_owner_def Let_def)

lemma cdb_ok_add_owner:
  "cdb_ok d \<Longrightarrow> i \<in> c_id ` set (communities d) \<Longrightarrow> u \<in> set (cd_users d) \<Longrightarrow> cdb_ok (add_owner now u i d)"
  by (simp add: cdb_ok_def add_owner_def Let_def default_permission_def)

lemma community_ok_add_owner:
  "c_id c \<noteq> i \<Longrightarrow> community_ok d c \<Longrightarrow> community_ok (add_owner now u i d) c"
  "members_in d (c_id c) = [] \<Longrightarrow> c_member_count c = 0 \<Longrightarrow> c_owner_id c = u \<Longrightarrow>
     community_ok (add_owner now u (c_id c) d) c"
  by (auto simp: community_ok_def members_in_def add_owner_def Let_def default_permission_def)

definition started :: "instant \<Rightarrow> int \<Rightarrow> community_create \<Rightarrow> cdb \<Rightarrow> cdb" where
  "started now u b d = d\<lparr>cd_seq := advance ''communities'' (cd_seq d),
     communities := communities d @ [new_community (nextval ''communities'' (cd_seq d)) now u b]\<rparr>"

lemma started_sel [simp]:
  "c_members (started now u b d) = c_members d" "c_permissions (started now u b d) = c_permissions d"
  "c_events (started now u b d) = c_events d" "c_rsvps (started now u b d) = c_rsvps d"
  "c_resources (started now u b d) = c_resources d" "cd_users (started now u b d) = cd_users d"
  "communities (started now u b d) = communities d @ [new_community (nextval ''communities'' (cd_seq d)) now u b]"
  "cd_seq (started now u b d) = advance ''communities'' (cd_seq d)"
  by (simp_all add: started_def)

lemma new_community_sel [simp]:
  "c_id (new_community i now u b) = i" "c_owner_id (new_community i now u b) = u"
  "c_member_count (new_community i now u b) = 0" "c_is_verified (new_community i now u b) = Some False"
  by (simp_all add: new_community_def)

lemma create_community_eq:
  "create_community globals now u body d =
     (case CommunityCreate body of
        Inl e \<Rightarrow> (Inl e, d)
      | Inr b \<Rightarrow>
          if \<not> cdb_ok (started now u b d) then (Inl IntegrityError, d\<lparr>cd_seq := advance ''communities'' (cd_seq d)\<rparr>)
          else with_name globals ''CommunityRole''
            (\<lambda>d2. c_commit d2 (add_owner now u (nextval ''communities'' (cd_seq d)) d2)
               (new_community (nextval ''communities'' (cd_seq d)) now u b)) (started now u b d))"
  by (simp add: create_community_def c_commit_def Let_def started_def split: sum.splits)

lemma inv_create:
  assumes "community_inv d" and "cdb_ok (started now u b d)"
  shows "cdb_ok (add_owner now u (nextval ''communities'' (cd_seq d)) (started now u b d)) \<and>
    community_inv (add_owner now u (nextval ''communities'' (cd_seq d)) (started now u b d))"
proof -
  let ?i = "nextval ''communities'' (cd_seq d)" and ?d1 = "started now u b d"
  let ?d' = "add_owner now u ?i ?d1"
  have fresh: "members_in d ?i = []" "?i \<notin> c_id ` set (communities d)"
    by (rule no_members_yet [OF assms(1)], simp add: nextval_def)+
  have "u \<in> set (cd_users d)" using assms(2) by (simp add: cdb_ok_def)
  then have ok: "cdb_ok ?d'" using assms(2) by (simp add: cdb_ok_add_owner)
  have old: "community_ok ?d' c" if "c \<in> set (communities d)" for c
  proof (rule community_ok_add_owner(1))
    show "c_id c \<noteq> ?i" using imageI [OF that, of c_id] fresh(2) by force
    have "community_ok d c" using assms(1) that by (simp add: community_inv_def)
    then show "community_ok ?d1 c" using community_ok_frame [of ?d1 d c] by simp
  qed
  have new: "community_ok ?d' (new_community ?i now u b)"
    using community_ok_add_owner(2) [of ?d1 "new_community ?i now u b" u now] fresh(1) by (simp add: members_in_def)
  have unique: "(?i, u) \<notin> (\<lambda>m. (cm_community_id m, cm_user_id m)) ` set (c_members d)"
    using fresh(1) by (auto simp: members_in_def filter_empty_conv)
  have bound: "c_id c \<le> ?i" if "c \<in> set (communities d)" for c
    using assms(1) that by (fastforce simp: community_inv_def nextval_def)
  have "advance ''communities'' (cd_seq d) ''communities'' = ?i" by (simp add: nextval_def)
  with assms(1) ok old new unique fresh(2) bound show ?thesis
    by (simp add: community_inv_def)
qed

lemma inv_add_member:
  assumes "community_inv d" and "membership_of d i v = None"
    and "cdb_ok (d\<lparr>cd_seq := q, c_members := c_members d @ [m],
      communities := update_where (\<lambda>c. c_id c = i) (\<lambda>c. c\<lparr>c_member_count := c_member_count c + 1\<rparr>) (communities d)\<rparr>)"
    and "q ''communities'' = cd_seq d ''communities''" and "cm_community_id m = i" and "cm_user_id m = v"
  shows "community_inv (d\<lparr>cd_seq := q, c_members := c_members d @ [m],
      communities := update_where (\<lambda>c. c_id c = i) (\<lambda>c. c\<lparr>c_member_count := c_member_count c + 1\<rparr>) (communities d)\<rparr>)"
    (is "community_inv ?d'")
proof -
  have ids: "map c_id (communities ?d') = map c_id (communities d)"
    by (simp, rule map_update_where) simp
  have "community_ok ?d' (if c_id c = i then c\<lparr>c_member_count := c_member_count c + 1\<rparr> else c)"
    if "community_ok d c" for c
    using that assms(5) by (auto simp: community_ok_def members_in_def)
  then have all: "\<forall>c\<in>set (communities ?d'). c_id c \<le> cd_seq ?d' ''communities'' \<and> community_ok ?d' c"
    using assms(1,4) by (fastforce simp: community_inv_def in_update_where)
  show ?thesis
    using assms(1,2,3,5,6) all ids by (simp add: community_inv_def membership_of_None)
qed

text \<open>Every community has permissions, so none can be deleted.\<close>

lemma delete_blocked:
  assumes "community_inv d" and "community_by_id d i = Some c"
  shows "c_commit d (without_community i d) () = (Inl IntegrityError, d)"
proof -
  have "c \<in> set (communities d)" "c_id c = i" using community_by_idD [OF assms(2)] by auto
  then obtain p where "p \<in> set (c_permissions d)" "cp_community_id p = i"
    using assms(1) by (auto simp: community_inv_def community_ok_def)
  moreover have "c_permissions (without_community i d) = c_permissions d"
    "i \<notin> c_id ` set (communities (without_community i d))"
    by (auto simp: without_community_def Let_def)
  ultimately have "\<not> cdb_ok (without_community i d)" unfolding cdb_ok_def by metis
  then show ?thesis by (simp add: c_commit_def without_community_def Let_def)
qed

lemma delete_community_state: "community_inv d \<Longrightarrow> snd (delete_community u i d) = d"
  by (cases "community_by_id d i") (simp_all add: delete_community_def delete_blocked)

text \<open>When storing a membership commits.\<close>

lemma cdb_ok_add_member:
  assumes "cdb_ok d" and "i \<in> c_id ` set (communities d)" and "cm_community_id m = i" and "\<And>c. c_id (f c) = c_id c"
    and "\<And>c. c_owner_id (f c) = c_owner_id c"
  shows "cdb_ok (d\<lparr>cd_seq := q, c_members := c_members d @ [m], communities := update_where (\<lambda>c. c_id c = i) f (communities d)\<rparr>)
    \<longleftrightarrow> cm_user_id m \<in> set (cd_users d)"
proof -
  have ids: "c_id ` set (update_where (\<lambda>c. c_id c = i) f (communities d)) = c_id ` set (communities d)"
    using map_update_where [of "communities d" "\<lambda>c. c_id c = i" c_id f] assms(4) by (metis list.set_map)
  have "\<forall>c\<in>set (update_where (\<lambda>c. c_id c = i) f (communities d)). c_owner_id c \<in> set (cd_users d)"
    using assms(1,5) by (auto simp: cdb_ok_def in_update_where)
  then show ?thesis
    using assms(1-3) by (simp add: cdb_ok_def ids)
qed

lemma community_step_inv:
  assumes "community_step globals d d'" and "''CommunityRole'' \<in> set globals" and "community_inv d"
  shows "community_inv d'"
  using assms(1)
proof cases
  case (create now u b r)
  then show ?thesis
    using assms(2,3) inv_create [OF assms(3), of now u] community_inv_seq [OF assms(3)]
    by (auto simp: create_community_eq with_name_def c_commit_def split: sum.splits if_splits)
next
  case (update u i b r')
  show ?thesis
  proof (cases "d' = d")
    case False
    let ?d' = "d\<lparr>communities := update_where (\<lambda>x. c_id x = i) (updated_community b) (communities d)\<rparr>"
    obtain r1 where "c_commit d ?d' () = (r1, d')"
      using update False
      by (auto simp: update_community_def CommunityUpdate_def split: if_splits option.splits prod.splits sum.splits)
    then show ?thesis by (rule community_inv_commit) (use assms(3) inv_update in simp_all)
  qed (simp add: assms(3))
next
  case (delete u i r')
  then show ?thesis using delete_community_state [OF assms(3), of u i] assms(3) by simp
next
  case (add_member now u i v role rm)
  from admin_onlyD [OF add_member [unfolded add_community_member_def]] consider "d' = d"
    | "membership_of d i v = None" "\<exists>m r. cm_community_id m = i \<and> cm_user_id m = v \<and>
        c_commit d (d\<lparr>cd_seq := advance ''community_members'' (cd_seq d), c_members := c_members d @ [m],
          communities := update_where (\<lambda>c. c_id c = i) (\<lambda>c. c\<lparr>c_member_count := c_member_count c + 1\<rparr>) (communities d)\<rparr>) m
        = (r, d')"
    by (force simp: Let_def split: if_splits)
  then show ?thesis
  proof cases
    case 2
    then obtain m r where m: "cm_community_id m = i" "cm_user_id m = v"
      and c: "c_commit d (d\<lparr>cd_seq := advance ''community_members'' (cd_seq d), c_members := c_members d @ [m],
          communities := update_where (\<lambda>c. c_id c = i) (\<lambda>c. c\<lparr>c_member_count := c_member_count c + 1\<rparr>) (communities d)\<rparr>) m
        = (r, d')" by blast
    show ?thesis
      by (rule community_inv_commit [OF c assms(3)]) (simp, rule inv_add_member [OF assms(3) 2(1)], simp_all add: m)
  qed (simp add: assms(3))
next
  case (event now u i e re)
  show ?thesis
  proof (cases "d' = d")
    case False
    then obtain q where c: "c_commit d (d\<lparr>cd_seq := advance ''community_events'' (cd_seq d), c_events := c_events d @ [q]\<rparr>) q = (re, d')"
      using event by (auto simp: create_community_event_def Let_def split: sum.splits dest!: admin_onlyD)
    show ?thesis
      by (rule community_inv_commit [OF c assms(3)], simp, rule community_inv_frame [OF assms(3)])
        (use assms(3) in \<open>simp_all add: community_inv_def\<close>)
  qed (simp add: assms(3))
next
  case (rsvp now u i k t rr)
  show ?thesis
  proof (cases "d' = d")
    case False
    then obtain q where c: "c_commit d (d\<lparr>cd_seq := advance ''community_event_rsvps'' (cd_seq d), c_rsvps := c_rsvps d @ [q]\<rparr>) q = (rr, d')"
      and q: "cr_event_id q = k" "cr_user_id q = u" and none: "rsvp_of d k u = None"
      using rsvp by (auto simp: rsvp_to_community_event_def Let_def split: if_splits)
    show ?thesis
      by (rule community_inv_commit [OF c assms(3)], simp, rule community_inv_frame [OF assms(3)])
        (use assms(3) none q in \<open>simp_all add: community_inv_def rsvp_of_None\<close>)
  qed (simp add: assms(3))
next
  case (resource now u i x rs)
  show ?thesis
  proof (cases "d' = d")
    case False
    then obtain q where c: "c_commit d (d\<lparr>cd_seq := advance ''community_resources'' (cd_seq d), c_resources := c_resources d @ [q]\<rparr>) q = (rs, d')"
      using resource by (auto simp: add_community_resource_def Let_def split: sum.splits dest!: admin_onlyD)
    show ?thesis
      by (rule community_inv_commit [OF c assms(3)], simp, rule community_inv_frame [OF assms(3)])
        (use assms(3) in \<open>simp_all add: community_inv_def\<close>)
  qed (simp add: assms(3))
qed

lemma community_reachable_inv:
  "community_reachable globals us d \<Longrightarrow> ''CommunityRole'' \<in> set globals \<Longrightarrow> community_inv d"
proof (induction rule: community_reachable.induct)
  case start
  then show ?case by (simp add: community_inv_def empty_cdb_def cdb_ok_def)
qed (blast intro: community_step_inv)

subsection \<open>The module as it is\<close>

text \<open>Without the name, a community is stored and nothing else ever is.\<close>

definition bare :: "int list \<Rightarrow> cdb \<Rightarrow> bool" where
  "bare us d \<longleftrightarrow> cd_users d = us \<and> cdb_ok d \<and> c_members d = [] \<and> c_permissions d = [] \<and> c_events d = [] \<and>
     c_rsvps d = [] \<and> c_resources d = []"

lemma bare_admin_only:
  "bare us d \<Longrightarrow> admin_only globals what i u h d =
     (Inl (if community_by_id d i = None then community_not_found else HTTPException 403 what), d)"
  by (simp add: admin_only_def bare_def membership_of_def)

lemma bare_step:
  assumes "community_step globals d d'" and "''CommunityRole'' \<notin> set globals" and "bare us d"
  shows "bare us d'"
  using assms(1)
proof cases
  case (create now u b r)
  then show ?thesis
    using assms(2,3) by (auto simp: create_community_eq with_name_def bare_def split: sum.splits if_splits)
next
  case (update u i b r')
  then show ?thesis
    using assms(3) by (auto simp: update_community_def c_commit_def bare_def split: sum.splits option.splits if_splits)
next
  case (delete u i r')
  then show ?thesis
    using assms(3)
    by (auto simp: delete_community_def c_commit_def bare_def without_community_def Let_def
        split: option.splits if_splits sum.splits)
next
  case (add_member now u i v role rm)
  then show ?thesis using assms(3) by (simp add: add_community_member_def bare_admin_only)
next
  case (event now u i e re)
  then show ?thesis using assms(3) by (auto simp: create_community_event_def bare_admin_only split: sum.splits)
next
  case (rsvp now u i k t rr)
  then show ?thesis using assms(3) by (auto simp: rsvp_to_community_event_def bare_def split: if_splits)
next
  case (resource now u i x rs)
  then show ?thesis using assms(3) by (auto simp: add_community_resource_def bare_admin_only split: sum.splits)
qed

lemma reachable_bare: "community_reachable globals us d \<Longrightarrow> ''CommunityRole'' \<notin> set globals \<Longrightarrow> bare us d"
proof (induction rule: community_reachable.induct)
  case start
  then show ?case by (simp add: bare_def empty_cdb_def cdb_ok_def)
qed (blast intro: bare_step)

section \<open>Properties\<close>

text \<open>
  What the code means to keep, and would with the missing name bound: in every reachable database the owner of a community is a
  member of it with the role OWNER, nobody is a member twice or has answered an event twice, and
  the stored member count is one less than the number of members: the owner is never counted.
\<close>

theorem communities_invariant:
  assumes "community_reachable globals us d" and "''CommunityRole'' \<in> set globals" and "c \<in> set (communities d)"
  shows "(\<exists>m\<in>set (c_members d). cm_community_id m = c_id c \<and> cm_user_id m = c_owner_id c \<and> cm_role m = OWNER) \<and>
    int (card {u. \<exists>m\<in>set (c_members d). cm_community_id m = c_id c \<and> cm_user_id m = u}) = c_member_count c + 1 \<and>
    distinct (map (\<lambda>m. (cm_community_id m, cm_user_id m)) (c_members d)) \<and>
    distinct (map (\<lambda>r. (cr_event_id r, cr_user_id r)) (c_rsvps d))"
proof -
  have inv: "community_inv d" by (rule community_reachable_inv [OF assms(1,2)])
  then have ok: "community_ok d c" and unique: "distinct (map (\<lambda>m. (cm_community_id m, cm_user_id m)) (c_members d))"
    using assms(3) by (auto simp: community_inv_def)
  have "distinct (map cm_user_id (members_in d (c_id c)))"
    using unique by (auto simp: members_in_def distinct_map inj_on_def)
  then have "card (cm_user_id ` set (members_in d (c_id c))) = length (members_in d (c_id c))"
    using distinct_card [of "map cm_user_id (members_in d (c_id c))"] by simp
  moreover have "{u. \<exists>m\<in>set (c_members d). cm_community_id m = c_id c \<and> cm_user_id m = u} = cm_user_id ` set (members_in d (c_id c))"
    by (auto simp: members_in_def)
  ultimately show ?thesis
    using inv ok by (auto simp: community_inv_def community_ok_def members_in_def)
qed

text \<open>
  No community can ever be deleted: the permissions that its creation stores are not
  cascaded, so the request of the owner ends in an integrity error, any other in 404 or 403, and
  nothing changes.
\<close>

theorem community_undeletable:
  assumes "community_reachable globals us d" and "''CommunityRole'' \<in> set globals"
  shows "delete_community u i d =
    (Inl (case community_by_id d i of
        None \<Rightarrow> HTTPException 404 ''Community not found''
      | Some c \<Rightarrow> if c_owner_id c = u then IntegrityError else HTTPException 403 ''Not enough permissions''), d)"
  using delete_blocked [OF community_reachable_inv [OF assms], of i]
  by (cases "community_by_id d i") (simp_all add: delete_community_def community_not_found_def)

text \<open>
  C37. The functions of the module as they are: it does not bind \<^verbatim>\<open>CommunityRole\<close>: creating a community ends in a
  \<^verbatim>\<open>NameError\<close> after the community was stored, and so no reachable database has a member, an event or
  a resource, and every attempt to add one to an existing community is refused with 403.
\<close>

theorem communities_stillborn:
  assumes "community_reachable COMMUNITIES_GLOBALS us d" and "u \<in> set us" and "CommunityCreate body = Inr body"
  shows "c_members d = [] \<and> c_events d = [] \<and> c_resources d = [] \<and>
    (case create_community COMMUNITIES_GLOBALS now u body d of (r, d') \<Rightarrow>
       r = Inl (NameError ''CommunityRole'') \<and>
       communities d' = communities d @ [new_community (nextval ''communities'' (cd_seq d)) now u body]) \<and>
    (case community_by_id d i of None \<Rightarrow> True | Some c \<Rightarrow>
       add_community_member COMMUNITIES_GLOBALS now u i v role d =
         (Inl (HTTPException 403 ''Not enough permissions to invite members''), d))"
proof -
  have unbound: "''CommunityRole'' \<notin> set COMMUNITIES_GLOBALS" by (simp add: COMMUNITIES_GLOBALS_def)
  have bare: "bare us d" by (rule reachable_bare [OF assms(1) unbound])
  then have "cdb_ok (started now u body d)"
    using assms(2) by (auto simp: cdb_ok_def bare_def)
  then show ?thesis
    using bare unbound assms(3)
    by (simp add: bare_def [of us d] create_community_eq with_name_def add_community_member_def bare_admin_only [OF bare]
        split: option.splits)
qed

text \<open>
  Adding a member succeeds exactly if the community exists, the caller is a member of it
  with the role OWNER or ADMIN, and the new user exists and is no member yet. The permission table plays
  no role. Success stores one membership with whatever role the caller asked for, OWNER included, and
  raises the count by one; a refusal changes no table.
\<close>

theorem add_member_exact:
  assumes "community_reachable globals us d" and "''CommunityRole'' \<in> set globals"
  shows "case add_community_member globals now u i v role d of (r, d') \<Rightarrow>
    ((\<exists>m. r = Inr m) \<longleftrightarrow>
       i \<in> c_id ` set (communities d) \<and>
       (\<exists>m\<in>set (c_members d). cm_community_id m = i \<and> cm_user_id m = u \<and> cm_role m \<in> {OWNER, ADMIN}) \<and>
       \<not> (\<exists>m\<in>set (c_members d). cm_community_id m = i \<and> cm_user_id m = v) \<and> v \<in> set (cd_users d)) \<and>
    (case r of
       Inl e \<Rightarrow> d'\<lparr>cd_seq := cd_seq d\<rparr> = d
     | Inr m \<Rightarrow> c_members d' = c_members d @ [m] \<and> cm_community_id m = i \<and> cm_user_id m = v \<and> cm_role m = role \<and>
         communities d' = map (\<lambda>c. if c_id c = i then c\<lparr>c_member_count := c_member_count c + 1\<rparr> else c) (communities d))"
proof -
  have inv: "community_inv d" by (rule community_reachable_inv [OF assms])
  then have unique: "distinct (map (\<lambda>m. (cm_community_id m, cm_user_id m)) (c_members d))" and ok: "cdb_ok d"
    by (auto simp: community_inv_def)
  have found: "community_by_id d i = None \<longleftrightarrow> i \<notin> c_id ` set (communities d)"
    by (auto simp: community_by_id_def find_None_iff)
  have target: "membership_of d i w = None \<longleftrightarrow> \<not> (\<exists>m\<in>set (c_members d). cm_community_id m = i \<and> cm_user_id m = w)" for w
    by (auto simp: membership_of_def find_None_iff)
  have caller: "(\<exists>m\<in>set (c_members d). cm_community_id m = i \<and> cm_user_id m = u \<and> cm_role m \<in> {OWNER, ADMIN}) \<longleftrightarrow>
      (\<exists>m. membership_of d i u = Some m \<and> cm_role m \<in> {OWNER, ADMIN})"
  proof
    assume "\<exists>m\<in>set (c_members d). cm_community_id m = i \<and> cm_user_id m = u \<and> cm_role m \<in> {OWNER, ADMIN}"
    then obtain m where m: "m \<in> set (c_members d)" "cm_community_id m = i" "cm_user_id m = u" "cm_role m \<in> {OWNER, ADMIN}"
      by blast
    then obtain m' where m': "membership_of d i u = Some m'"
      using target [of u] by (cases "membership_of d i u") auto
    have "m' = m"
      using membership_ofD [OF m'] m unique by (auto simp: distinct_map inj_on_def)
    with m m' show "\<exists>m. membership_of d i u = Some m \<and> cm_role m \<in> {OWNER, ADMIN}" by blast
  qed (blast dest: membership_ofD)
  let ?m = "\<lparr>cm_id = nextval ''community_members'' (cd_seq d), cm_community_id = i, cm_user_id = v, cm_role = role, cm_joined_at = now\<rparr>"
  let ?d' = "d\<lparr>cd_seq := advance ''community_members'' (cd_seq d), c_members := c_members d @ [?m],
    communities := update_where (\<lambda>c. c_id c = i) (\<lambda>c. c\<lparr>c_member_count := c_member_count c + 1\<rparr>) (communities d)\<rparr>"
  have commit: "cdb_ok ?d' \<longleftrightarrow> v \<in> set (cd_users d)" if "i \<in> c_id ` set (communities d)"
    using cdb_ok_add_member [OF ok that, of ?m] by simp
  show ?thesis
    unfolding caller found [symmetric] target [symmetric]
    using commit assms(2) found
    by (cases "community_by_id d i"; cases "membership_of d i u"; cases "membership_of d i v")
      (simp_all add: add_community_member_def admin_only_def with_name_def c_commit_def Let_def update_where_def)
qed

text \<open>
  The owner of a community can make the listing of all communities fail for everybody: the
  update accepts \<^verbatim>\<open>is_verified: null\<close>, the column stores it, and the response model rejects it. The
  update itself answers with the same error after it was stored.
\<close>

theorem null_verification_breaks_listing:
  assumes "cdb_ok d" and "distinct (map c_id (communities d))" and "c \<in> set (communities d)" and "c_owner_id c = u"
  shows "case update_community u (c_id c)
      \<lparr>cu_name = None, cu_description = None, cu_category = None, cu_is_verified = Some None\<rparr> d of
    (r, d') \<Rightarrow> r = Inl (ValueError ''is_verified'') \<and>
      (\<exists>e. read_communities 0 (int (length (communities d))) d' = Inl e) \<and>
      read_community (c_id c) d' = Inl (ValueError ''is_verified'')"
proof -
  let ?b = "\<lparr>cu_name = None, cu_description = None, cu_category = None, cu_is_verified = Some None\<rparr>"
  let ?f = "updated_community ?b"
  let ?cs = "update_where (\<lambda>x. c_id x = c_id c) ?f (communities d)"
  have f: "c_id (?f x) = c_id x" "c_owner_id (?f x) = c_owner_id x" "c_is_verified (?f x) = None" for x
    by (simp_all add: updated_community_def)
  have here: "community_by_id d (c_id c) = Some c"
    unfolding community_by_id_def using assms(2,3) by (intro find_unique) (simp_all add: unique_on_def)
  have ids: "c_id ` set ?cs = c_id ` set (communities d)"
    using map_update_where [of "communities d" "\<lambda>x. c_id x = c_id c" c_id ?f] f(1) by (metis list.set_map)
  have "\<forall>x\<in>set ?cs. c_owner_id x \<in> set (cd_users d)"
    using assms(1) f(2) by (auto simp: cdb_ok_def in_update_where)
  then have ok: "cdb_ok (d\<lparr>communities := ?cs\<rparr>)"
    using assms(1) by (simp add: cdb_ok_def ids)
  have "?f c \<in> set ?cs" using assms(3) by (auto simp: in_update_where)
  then obtain e where "map_res CommunityResponse ?cs = Inl e"
    using map_res_Inl [of "?f c" ?cs CommunityResponse] f(3) by (auto simp: CommunityResponse_def)
  then have listing: "\<exists>e. read_communities 0 (int (length (communities d))) (d\<lparr>communities := ?cs\<rparr>) = Inl e"
    by (simp add: read_communities_def)
  have "community_by_id (d\<lparr>communities := ?cs\<rparr>) (c_id c) = Some (?f c)"
    using here find_update_key [of c_id ?f "c_id c" "c_id c" "communities d"] f(1) by (simp add: community_by_id_def)
  with listing ok here assms(4) show ?thesis
    by (simp add: update_community_def CommunityUpdate_def max_len_def c_commit_def CommunityResponse_def f(3) read_community_def)
qed

section \<open>Witnesses\<close>

definition demo_body :: community_create where
  "demo_body = \<lparr>cc_name = ''chess'', cc_description = None, cc_category = None\<rparr>"

definition demo_names :: "string list" where
  "demo_names = ''CommunityRole'' # COMMUNITIES_GLOBALS"

definition demo_cdb :: cdb where
  "demo_cdb = snd (create_community demo_names 0 1 demo_body (empty_cdb [1, 2]))"

lemma demo_cdb_reachable: "community_reachable demo_names [1, 2] demo_cdb" "''CommunityRole'' \<in> set demo_names"
proof -
  show "community_reachable demo_names [1, 2] demo_cdb"
    by (rule community_reachable.step [OF community_reachable.start])
      (auto simp: demo_cdb_def intro: community_step.create [OF surjective_pairing])
qed (simp add: demo_names_def)

lemma demo_cdb_sel:
  "communities demo_cdb = [new_community 1 0 1 demo_body]" "cd_users demo_cdb = [1, 2]" "cdb_ok demo_cdb"
  "c_members demo_cdb = [\<lparr>cm_id = 1, cm_community_id = 1, cm_user_id = 1, cm_role = OWNER, cm_joined_at = 0\<rparr>]"
  by (simp_all add: demo_cdb_def create_community_eq demo_body_def CommunityCreate_def max_len_def with_name_def demo_names_def
      empty_cdb_def nextval_def cdb_ok_def c_commit_def started_def add_owner_def Let_def default_permission_def)

theorem communities_invariant_witness:
  "\<exists>c\<in>set (communities demo_cdb). c_member_count c = 0 \<and>
     card {u. \<exists>m\<in>set (c_members demo_cdb). cm_community_id m = c_id c \<and> cm_user_id m = u} = 1"
  using communities_invariant [OF demo_cdb_reachable, of "new_community 1 0 1 demo_body"]
  by (simp add: demo_cdb_sel)

theorem community_undeletable_witness: "delete_community 1 1 demo_cdb = (Inl IntegrityError, demo_cdb)"
  using community_undeletable [OF demo_cdb_reachable, of 1 1]
  by (simp add: community_by_id_def demo_cdb_sel)

theorem communities_stillborn_witness:
  "fst (create_community COMMUNITIES_GLOBALS 0 1 demo_body (empty_cdb [1, 2])) = Inl (NameError ''CommunityRole'')"
  using communities_stillborn [OF community_reachable.start, of 1 "[1, 2]" demo_body 0]
  by (simp add: case_prod_beta demo_body_def CommunityCreate_def max_len_def)

theorem add_member_exact_witness:
  "\<exists>m. fst (add_community_member demo_names 0 1 1 2 OWNER demo_cdb) = Inr m"
  using add_member_exact [OF demo_cdb_reachable, where now = 0 and u = 1 and i = 1 and v = 2 and role = OWNER]
  by (simp add: case_prod_beta demo_cdb_sel)

theorem null_verification_breaks_listing_witness:
  "\<exists>e. read_communities 0 1 (snd (update_community 1 1
     \<lparr>cu_name = None, cu_description = None, cu_category = None, cu_is_verified = Some None\<rparr> demo_cdb)) = Inl e"
  using null_verification_breaks_listing [OF demo_cdb_sel(3), of "new_community 1 0 1 demo_body" 1]
  by (simp add: case_prod_beta demo_cdb_sel)

end
