(* ===== verification/Channels.thy ===== *)
theory Channels
  imports Legacy_Tables
begin

text \<open>
  \<^verbatim>\<open>backend/app/models/channel.py\<close>, \<^verbatim>\<open>backend/app/schemas/channel.py\<close> and
  \<^verbatim>\<open>backend/app/api/routes/channels.py\<close>: channels with posts, subscriptions and analytics. A commit
  checks the foreign keys as in \<open>Communities\<close>. Floats are kept as their literal. Deleting a channel
  cascades to its posts and subscriptions; an analytics row would have its channel set to
  \<^verbatim>\<open>NULL\<close>, which its column forbids. The models module as shipped is not valid Python (see the
  findings of the manifest). Requests run one after the other.
\<close>

section \<open>Model\<close>

datatype ChannelType = PUBLIC | PRIVATE

record channel =
  h_id :: int
  h_name :: string
  h_description :: "string option"
  h_type :: ChannelType
  h_owner_id :: int
  h_created_at :: instant
  h_is_verified :: "bool option"
  h_category :: "string option"
  h_subscriber_count :: int

record channel_post =
  hp_id :: int
  hp_channel_id :: int
  hp_author_id :: int
  hp_content :: string
  hp_media_key :: "string option"
  hp_mime_type :: "string option"
  hp_created_at :: instant
  hp_scheduled_at :: "instant option"
  hp_is_scheduled :: bool
  hp_view_count :: int

record channel_subscription =
  hs_id :: int
  hs_channel_id :: int
  hs_user_id :: int
  hs_subscribed_at :: instant
  hs_is_active :: bool
  hs_plan_id :: "int option"

record channel_analytics =
  ha_id :: int
  ha_channel_id :: int
  ha_date :: instant
  ha_new_subscribers :: int
  ha_total_views :: int
  ha_total_posts :: int
  ha_engagement_rate :: string

record hdb =
  hd_users :: "int list"
  hd_plans :: "int list"
  hd_seq :: sequences
  channels :: "channel list"
  h_posts :: "channel_post list"
  h_subscriptions :: "channel_subscription list"
  h_analytics :: "channel_analytics list"

definition hdb_ok :: "hdb \<Rightarrow> bool" where
  "hdb_ok d \<longleftrightarrow>
     (\<forall>c\<in>set (channels d). h_owner_id c \<in> set (hd_users d)) \<and>
     (\<forall>p\<in>set (h_posts d). hp_channel_id p \<in> h_id ` set (channels d) \<and> hp_author_id p \<in> set (hd_users d)) \<and>
     (\<forall>s\<in>set (h_subscriptions d). hs_channel_id s \<in> h_id ` set (channels d) \<and> hs_user_id s \<in> set (hd_users d) \<and>
        set_option (hs_plan_id s) \<subseteq> set (hd_plans d)) \<and>
     (\<forall>a\<in>set (h_analytics d). ha_channel_id a \<in> h_id ` set (channels d))"

definition h_commit :: "hdb \<Rightarrow> hdb \<Rightarrow> 'a \<Rightarrow> 'a res \<times> hdb" where
  "h_commit d d' x = (if hdb_ok d' then (Inr x, d') else (Inl IntegrityError, d\<lparr>hd_seq := hd_seq d'\<rparr>))"

definition channel_by_id :: "hdb \<Rightarrow> int \<Rightarrow> channel option" where
  "channel_by_id d i = scalar (\<lambda>c. h_id c = i) (channels d)"

definition channel_not_found :: error where
  "channel_not_found = HTTPException 404 ''Channel not found''"

definition ChannelResponse :: "channel \<Rightarrow> channel res" where
  "ChannelResponse c = (if h_is_verified c = None then Inl (ValueError ''is_verified'') else Inr c)"

record channel_create =
  hc_name :: string
  hc_description :: "string option"
  hc_type :: ChannelType
  hc_category :: "string option"

definition ChannelCreate :: "channel_create \<Rightarrow> channel_create res" where
  "ChannelCreate b =
     (if 100 < length (hc_name b) then Inl (ValueError ''name'')
      else if \<not> max_len 50 (hc_category b) then Inl (ValueError ''category'')
      else Inr b)"

definition create_channel :: "instant \<Rightarrow> int \<Rightarrow> channel_create \<Rightarrow> (hdb, channel) handler" where
  "create_channel now current_user body d =
     (case ChannelCreate body of
        Inl e \<Rightarrow> (Inl e, d)
      | Inr b \<Rightarrow>
          let c = \<lparr>h_id = nextval ''channels'' (hd_seq d), h_name = hc_name b, h_description = hc_description b,
                   h_type = hc_type b, h_owner_id = current_user, h_created_at = now, h_is_verified = Some False,
                   h_category = hc_category b, h_subscriber_count = 0\<rparr>
          in h_commit d (d\<lparr>hd_seq := advance ''channels'' (hd_seq d), channels := channels d @ [c]\<rparr>) c)"

definition read_channels :: "int \<Rightarrow> int \<Rightarrow> hdb \<Rightarrow> channel list res" where
  "read_channels skip limit d =
     (case page skip limit (channels d) of Inl e \<Rightarrow> Inl e | Inr cs \<Rightarrow> map_res ChannelResponse cs)"

definition read_channel :: "int \<Rightarrow> hdb \<Rightarrow> channel res" where
  "read_channel channel_id d =
     (case channel_by_id d channel_id of None \<Rightarrow> Inl channel_not_found | Some c \<Rightarrow> ChannelResponse c)"

record channel_update =
  hu_name :: "string option option"
  hu_description :: "string option option"
  hu_type :: "ChannelType option option"
  hu_category :: "string option option"
  hu_is_verified :: "bool option option"

definition ChannelUpdate :: "channel_update \<Rightarrow> channel_update res" where
  "ChannelUpdate b =
     (if \<not> max_len 100 (assign (hu_name b) None) then Inl (ValueError ''name'')
      else if \<not> max_len 50 (assign (hu_category b) None) then Inl (ValueError ''category'')
      else Inr b)"

definition updated_channel :: "channel_update \<Rightarrow> channel \<Rightarrow> channel" where
  "updated_channel b c =
     c\<lparr>h_name := the (assign (hu_name b) (Some (h_name c))),
       h_description := assign (hu_description b) (h_description c),
       h_type := the (assign (hu_type b) (Some (h_type c))),
       h_category := assign (hu_category b) (h_category c),
       h_is_verified := assign (hu_is_verified b) (h_is_verified c)\<rparr>"

text \<open>A name or type set to \<^verbatim>\<open>null\<close> violates its NOT NULL constraint at the commit.\<close>

definition update_channel :: "int \<Rightarrow> int \<Rightarrow> channel_update \<Rightarrow> (hdb, channel) handler" where
  "update_channel current_user channel_id body d =
     (case ChannelUpdate body of
        Inl e \<Rightarrow> (Inl e, d)
      | Inr b \<Rightarrow>
          (case channel_by_id d channel_id of
             None \<Rightarrow> (Inl channel_not_found, d)
           | Some c \<Rightarrow>
               if h_owner_id c \<noteq> current_user then (Inl (HTTPException 403 ''Not enough permissions''), d)
               else if hu_name b = Some None \<or> hu_type b = Some None then (Inl IntegrityError, d)
               else
                 (case h_commit d (d\<lparr>channels := update_where (\<lambda>x. h_id x = channel_id) (updated_channel b) (channels d)\<rparr>) () of
                    (Inl e, d1) \<Rightarrow> (Inl e, d1)
                  | (Inr _, d1) \<Rightarrow> (ChannelResponse (updated_channel b c), d1))))"

definition delete_channel :: "int \<Rightarrow> int \<Rightarrow> (hdb, channel) handler" where
  "delete_channel current_user channel_id d =
     (case channel_by_id d channel_id of
        None \<Rightarrow> (Inl channel_not_found, d)
      | Some c \<Rightarrow>
          if h_owner_id c \<noteq> current_user then (Inl (HTTPException 403 ''Not enough permissions''), d)
          else if \<exists>a\<in>set (h_analytics d). ha_channel_id a = channel_id then (Inl IntegrityError, d)
          else
            (case h_commit d (d\<lparr>channels := filter (\<lambda>x. h_id x \<noteq> channel_id) (channels d),
                  h_posts := filter (\<lambda>p. hp_channel_id p \<noteq> channel_id) (h_posts d),
                  h_subscriptions := filter (\<lambda>s. hs_channel_id s \<noteq> channel_id) (h_subscriptions d)\<rparr>) () of
               (Inl e, d1) \<Rightarrow> (Inl e, d1)
             | (Inr _, d1) \<Rightarrow> (ChannelResponse c, d1)))"

record channel_post_create =
  hq_content :: string
  hq_media_key :: "string option"
  hq_mime_type :: "string option"
  hq_scheduled_at :: "instant option"
  hq_is_scheduled :: bool

definition create_channel_post :: "instant \<Rightarrow> int \<Rightarrow> int \<Rightarrow> channel_post_create \<Rightarrow> (hdb, channel_post) handler" where
  "create_channel_post now current_user channel_id b d =
     (if channel_by_id d channel_id = None then (Inl channel_not_found, d)
      else
        let p = \<lparr>hp_id = nextval ''channel_posts'' (hd_seq d), hp_channel_id = channel_id, hp_author_id = current_user,
                 hp_content = hq_content b, hp_media_key = hq_media_key b, hp_mime_type = hq_mime_type b, hp_created_at = now,
                 hp_scheduled_at = hq_scheduled_at b,
                 hp_is_scheduled = (if hq_scheduled_at b \<noteq> None then hq_is_scheduled b else False), hp_view_count = 0\<rparr>
        in h_commit d (d\<lparr>hd_seq := advance ''channel_posts'' (hd_seq d), h_posts := h_posts d @ [p]\<rparr>) p)"

definition read_channel_posts :: "int \<Rightarrow> int \<Rightarrow> int \<Rightarrow> hdb \<Rightarrow> channel_post list res" where
  "read_channel_posts channel_id skip limit d =
     (if channel_by_id d channel_id = None then Inl channel_not_found
      else page skip limit (scalars (\<lambda>p. hp_channel_id p = channel_id) (h_posts d)))"

definition subscription_of :: "hdb \<Rightarrow> int \<Rightarrow> int \<Rightarrow> channel_subscription option" where
  "subscription_of d i u = scalar (\<lambda>s. hs_channel_id s = i \<and> hs_user_id s = u) (h_subscriptions d)"

definition count_by :: "int \<Rightarrow> int \<Rightarrow> channel list \<Rightarrow> channel list" where
  "count_by channel_id n = update_where (\<lambda>c. h_id c = channel_id) (\<lambda>c. c\<lparr>h_subscriber_count := h_subscriber_count c + n\<rparr>)"

definition subscribe_to_channel :: "instant \<Rightarrow> int \<Rightarrow> int \<Rightarrow> int option \<Rightarrow> (hdb, channel_subscription) handler" where
  "subscribe_to_channel now current_user channel_id plan_id d =
     (if channel_by_id d channel_id = None then (Inl channel_not_found, d)
      else if subscription_of d channel_id current_user \<noteq> None
        then (Inl (HTTPException 400 ''Already subscribed to this channel''), d)
      else
        let s = \<lparr>hs_id = nextval ''channel_subscriptions'' (hd_seq d), hs_channel_id = channel_id, hs_user_id = current_user,
                 hs_subscribed_at = now, hs_is_active = True, hs_plan_id = plan_id\<rparr>
        in h_commit d (d\<lparr>hd_seq := advance ''channel_subscriptions'' (hd_seq d),
             h_subscriptions := h_subscriptions d @ [s], channels := count_by channel_id 1 (channels d)\<rparr>) s)"

text \<open>\<^verbatim>\<open>db.delete\<close> removes the one row that was loaded, by its primary key.\<close>

definition unsubscribe_from_channel :: "int \<Rightarrow> int \<Rightarrow> (hdb, payload) handler" where
  "unsubscribe_from_channel current_user channel_id d =
     (if channel_by_id d channel_id = None then (Inl channel_not_found, d)
      else (case subscription_of d channel_id current_user of
          None \<Rightarrow> (Inl (HTTPException 400 ''Not subscribed to this channel''), d)
        | Some s \<Rightarrow>
            h_commit d (d\<lparr>h_subscriptions := filter (\<lambda>x. hs_id x \<noteq> hs_id s) (h_subscriptions d),
                channels := count_by channel_id (- 1) (channels d)\<rparr>)
              [(''message'', JStr ''Unsubscribed successfully'')]))"

text \<open>The latest analytics row of the channel; a missing one is created, with its defaults.\<close>

definition latest_analytics :: "int \<Rightarrow> hdb \<Rightarrow> channel_analytics option" where
  "latest_analytics channel_id d =
     (case sort_key (\<lambda>a. - ha_date a) (scalars (\<lambda>a. ha_channel_id a = channel_id) (h_analytics d)) of
        [] \<Rightarrow> None
      | a # _ \<Rightarrow> Some a)"

definition read_channel_analytics :: "instant \<Rightarrow> int \<Rightarrow> (hdb, channel_analytics) handler" where
  "read_channel_analytics now channel_id d =
     (if channel_by_id d channel_id = None then (Inl channel_not_found, d)
      else (case latest_analytics channel_id d of
          Some a \<Rightarrow> (Inr a, d)
        | None \<Rightarrow>
            let a = \<lparr>ha_id = nextval ''channel_analytics'' (hd_seq d), ha_channel_id = channel_id, ha_date = now,
                     ha_new_subscribers = 0, ha_total_views = 0, ha_total_posts = 0, ha_engagement_rate = ''0.0''\<rparr>
            in h_commit d (d\<lparr>hd_seq := advance ''channel_analytics'' (hd_seq d), h_analytics := h_analytics d @ [a]\<rparr>) a))"

section \<open>Reachable databases\<close>

inductive channel_step :: "hdb \<Rightarrow> hdb \<Rightarrow> bool" where
  create: "create_channel now u b d = (r, d') \<Longrightarrow> channel_step d d'"
| update: "update_channel u i b d = (r, d') \<Longrightarrow> channel_step d d'"
| delete: "delete_channel u i d = (r, d') \<Longrightarrow> channel_step d d'"
| post: "create_channel_post now u i p d = (rp, d') \<Longrightarrow> channel_step d d'"
| subscribe: "subscribe_to_channel now u i plan d = (rs, d') \<Longrightarrow> channel_step d d'"
| unsubscribe: "unsubscribe_from_channel u i d = (ru, d') \<Longrightarrow> channel_step d d'"
| analytics: "read_channel_analytics now i d = (ra, d') \<Longrightarrow> channel_step d d'"

definition empty_hdb :: "int list \<Rightarrow> int list \<Rightarrow> hdb" where
  "empty_hdb us ps = \<lparr>hd_users = us, hd_plans = ps, hd_seq = (\<lambda>_. 0), channels = [], h_posts = [], h_subscriptions = [],
     h_analytics = []\<rparr>"

inductive channel_reachable :: "int list \<Rightarrow> int list \<Rightarrow> hdb \<Rightarrow> bool" for us ps where
  start: "channel_reachable us ps (empty_hdb us ps)"
| step: "channel_reachable us ps d \<Longrightarrow> channel_step d d' \<Longrightarrow> channel_reachable us ps d'"

definition subs_in :: "hdb \<Rightarrow> int \<Rightarrow> channel_subscription list" where
  "subs_in d i = filter (\<lambda>s. hs_channel_id s = i) (h_subscriptions d)"

definition channel_inv :: "hdb \<Rightarrow> bool" where
  "channel_inv d \<longleftrightarrow> hdb_ok d \<and> distinct (map h_id (channels d)) \<and> distinct (map hs_id (h_subscriptions d)) \<and>
     (\<forall>c\<in>set (channels d). h_id c \<le> hd_seq d ''channels'' \<and> h_subscriber_count c = int (length (subs_in d (h_id c)))) \<and>
     (\<forall>s\<in>set (h_subscriptions d). hs_id s \<le> hd_seq d ''channel_subscriptions'') \<and>
     distinct (map (\<lambda>s. (hs_channel_id s, hs_user_id s)) (h_subscriptions d))"

subsection \<open>Lookups and commits\<close>

lemma channel_by_idD: "channel_by_id d i = Some c \<Longrightarrow> c \<in> set (channels d) \<and> h_id c = i"
  by (auto simp: channel_by_id_def dest: find_SomeD)

lemma channel_by_id_None: "channel_by_id d i = None \<longleftrightarrow> i \<notin> h_id ` set (channels d)"
  by (auto simp: channel_by_id_def find_None_iff)

lemma subscription_ofD:
  "subscription_of d i u = Some s \<Longrightarrow> s \<in> set (h_subscriptions d) \<and> hs_channel_id s = i \<and> hs_user_id s = u"
  by (auto simp: subscription_of_def dest: find_SomeD)

lemma subscription_of_None:
  "subscription_of d i u = None \<longleftrightarrow> (i, u) \<notin> (\<lambda>s. (hs_channel_id s, hs_user_id s)) ` set (h_subscriptions d)"
  by (auto simp: subscription_of_def find_None_iff)

lemma count_by_ids [simp]: "map h_id (count_by i n cs) = map h_id cs"
  unfolding count_by_def by (rule map_update_where) simp

lemma count_by_id_set [simp]: "h_id ` set (count_by i n cs) = h_id ` set cs"
  by (metis count_by_ids list.set_map)

lemma in_count_by:
  "c \<in> set (count_by i n cs) \<longleftrightarrow> (\<exists>x\<in>set cs. c = (if h_id x = i then x\<lparr>h_subscriber_count := h_subscriber_count x + n\<rparr> else x))"
  by (simp add: count_by_def in_update_where)

lemma count_by_back: "count_by i (- n) (count_by i n cs) = cs"
  by (simp add: count_by_def update_where_def comp_def) (simp add: map_idI)

lemma hdb_ok_seq [simp]: "hdb_ok (d\<lparr>hd_seq := q\<rparr>) \<longleftrightarrow> hdb_ok d"
  by (simp add: hdb_ok_def)

subsection \<open>The invariant\<close>

lemma channel_inv_frame:
  assumes "channel_inv d" and "map h_id (channels d') = map h_id (channels d)"
    and "h_subscriptions d' = h_subscriptions d" and "\<And>t. hd_seq d t \<le> hd_seq d' t" and "hdb_ok d'"
    and "\<And>c'. c' \<in> set (channels d') \<Longrightarrow>
      \<exists>c\<in>set (channels d). h_id c = h_id c' \<and> h_subscriber_count c = h_subscriber_count c'"
  shows "channel_inv d'"
proof -
  have subs: "subs_in d' i = subs_in d i" for i by (simp add: subs_in_def assms(3))
  have "h_id c' \<le> hd_seq d' ''channels'' \<and> h_subscriber_count c' = int (length (subs_in d' (h_id c')))"
    if c': "c' \<in> set (channels d')" for c'
  proof -
    from assms(6) [OF c'] obtain c where c: "c \<in> set (channels d)" "h_id c = h_id c'" "h_subscriber_count c = h_subscriber_count c'"
      by blast
    then have "h_id c \<le> hd_seq d ''channels''" "h_subscriber_count c = int (length (subs_in d (h_id c)))"
      using assms(1) by (auto simp: channel_inv_def)
    with c subs order_trans [OF _ assms(4)] show ?thesis by simp
  qed
  moreover have "hs_id s \<le> hd_seq d' ''channel_subscriptions''" if "s \<in> set (h_subscriptions d)" for s
    using that assms(1) order_trans [OF _ assms(4)] by (simp add: channel_inv_def)
  ultimately show ?thesis
    using assms(1,5) unfolding channel_inv_def assms(2,3) by blast
qed

lemma channel_inv_seq: "channel_inv d \<Longrightarrow> (\<And>t. hd_seq d t \<le> q t) \<Longrightarrow> channel_inv (d\<lparr>hd_seq := q\<rparr>)"
  by (rule channel_inv_frame [of d]) (auto simp: channel_inv_def)

interpretation hs: transactions hdb_ok hd_seq "\<lambda>q d. d\<lparr>hd_seq := q\<rparr>" channel_inv
  by unfold_locales (rule channel_inv_seq)

lemma h_commit_state: "h_commit d d' x = (r, d'') \<Longrightarrow> d'' = hs.committed d d'"
  by (auto simp: h_commit_def hs.committed_def split: if_splits)

lemma channel_inv_commit:
  assumes "h_commit d d' x = (r, d'')" and "channel_inv d" and "\<And>t. hd_seq d t \<le> hd_seq d' t"
    and "hdb_ok d' \<Longrightarrow> channel_inv d'"
  shows "channel_inv d''"
  unfolding h_commit_state [OF assms(1)] by (rule hs.committed_inv [OF assms(2-4)])

lemma inv_new_channel:
  assumes "channel_inv d" and "h_id c = nextval ''channels'' (hd_seq d)" and "h_subscriber_count c = 0"
    and "hdb_ok (d\<lparr>hd_seq := advance ''channels'' (hd_seq d), channels := channels d @ [c]\<rparr>)"
  shows "channel_inv (d\<lparr>hd_seq := advance ''channels'' (hd_seq d), channels := channels d @ [c]\<rparr>)"
proof -
  have bound: "\<forall>x\<in>set (channels d). h_id x \<le> hd_seq d ''channels''" using assms(1) by (simp add: channel_inv_def)
  then have new: "h_id c \<notin> h_id ` set (channels d)" using assms(2) by (auto simp: nextval_def)
  have "\<forall>s\<in>set (h_subscriptions d). hs_channel_id s \<in> h_id ` set (channels d)"
    using assms(1) by (simp add: channel_inv_def hdb_ok_def)
  then have "subs_in d (h_id c) = []" using new
    by (simp add: subs_in_def filter_empty_conv) metis
  then show ?thesis
    using assms new bound by (auto simp: channel_inv_def subs_in_def nextval_def)
qed

lemma inv_subscribe:
  assumes "channel_inv d" and "subscription_of d i u = None" and "hs_channel_id s = i" and "hs_user_id s = u"
    and "hs_id s = nextval ''channel_subscriptions'' (hd_seq d)"
    and "hdb_ok (d\<lparr>hd_seq := advance ''channel_subscriptions'' (hd_seq d), h_subscriptions := h_subscriptions d @ [s],
      channels := count_by i 1 (channels d)\<rparr>)"
  shows "channel_inv (d\<lparr>hd_seq := advance ''channel_subscriptions'' (hd_seq d), h_subscriptions := h_subscriptions d @ [s],
      channels := count_by i 1 (channels d)\<rparr>)" (is "channel_inv ?d'")
proof -
  have subs: "subs_in ?d' j = subs_in d j @ (if j = i then [s] else [])" for j
    using assms(3) by (simp add: subs_in_def)
  have bound: "\<forall>x\<in>set (h_subscriptions d). hs_id x \<le> hd_seq d ''channel_subscriptions''"
    using assms(1) by (simp add: channel_inv_def)
  then have "hs_id s \<notin> hs_id ` set (h_subscriptions d)" using assms(5) by (auto simp: nextval_def)
  moreover have "h_id c \<le> hd_seq ?d' ''channels'' \<and> h_subscriber_count c = int (length (subs_in ?d' (h_id c)))"
    if "c \<in> set (channels ?d')" for c
  proof -
    have "c \<in> set (count_by i 1 (channels d))" using that by simp
    then obtain x where x: "x \<in> set (channels d)"
      "c = (if h_id x = i then x\<lparr>h_subscriber_count := h_subscriber_count x + 1\<rparr> else x)"
      unfolding in_count_by by blast
    have "h_id x \<le> hd_seq d ''channels''" "h_subscriber_count x = int (length (subs_in d (h_id x)))"
      using assms(1) x(1) by (simp_all add: channel_inv_def)
    then show ?thesis using x(2) by (cases "h_id x = i") (simp_all add: subs)
  qed
  moreover have "\<forall>x\<in>set (h_subscriptions ?d'). hs_id x \<le> hd_seq ?d' ''channel_subscriptions''"
    using bound assms(5) by (auto simp: nextval_def)
  ultimately show ?thesis
    using assms(1-4,6) by (simp add: channel_inv_def subscription_of_None)
qed

lemma remove_subscription:
  assumes "channel_inv d" and "subscription_of d i u = Some s"
  shows "filter (\<lambda>x. hs_id x \<noteq> hs_id s) (h_subscriptions d) =
    filter (\<lambda>x. \<not> (hs_channel_id x = i \<and> hs_user_id x = u)) (h_subscriptions d)"
proof (rule filter_cong)
  fix x assume x: "x \<in> set (h_subscriptions d)"
  have s: "s \<in> set (h_subscriptions d)" "hs_channel_id s = i" "hs_user_id s = u"
    using subscription_ofD [OF assms(2)] by auto
  have "inj_on hs_id (set (h_subscriptions d))"
    "inj_on (\<lambda>s. (hs_channel_id s, hs_user_id s)) (set (h_subscriptions d))"
    using assms(1) by (simp_all add: channel_inv_def distinct_map)
  then show "hs_id x \<noteq> hs_id s \<longleftrightarrow> \<not> (hs_channel_id x = i \<and> hs_user_id x = u)"
    using x s by (auto dest: inj_onD)
qed simp

lemma subs_in_remove:
  assumes "channel_inv d" and "subscription_of d i u = Some s"
  shows "int (length (filter (\<lambda>x. hs_channel_id x = j) (filter (\<lambda>x. hs_id x \<noteq> hs_id s) (h_subscriptions d)))) =
    int (length (subs_in d j)) - (if j = i then 1 else 0)"
proof -
  have s: "s \<in> set (h_subscriptions d)" "hs_channel_id s = i" using subscription_ofD [OF assms(2)] by auto
  have d: "distinct (map hs_id (h_subscriptions d))" using assms(1) by (simp add: channel_inv_def)
  have "filter (\<lambda>x. hs_id x \<noteq> hs_id s) (subs_in d j) = (if j = i then remove1 s (subs_in d j) else subs_in d j)"
  proof (cases "j = i")
    case True
    have "distinct (map hs_id (subs_in d j))" using d unfolding subs_in_def by (rule distinct_map_filter)
    moreover have "s \<in> set (subs_in d j)" using s True by (simp add: subs_in_def)
    ultimately have "filter (\<lambda>x. hs_id x \<noteq> hs_id s) (subs_in d j) = filter (\<lambda>x. x \<noteq> s) (subs_in d j)"
      by (intro filter_cong) (auto simp: distinct_map dest: inj_onD)
    with True \<open>distinct (map hs_id (subs_in d j))\<close> show ?thesis
      by (simp add: distinct_remove1_removeAll distinct_map removeAll_filter_not_eq)
        (simp add: eq_commute)
  next
    case False
    have "hs_id x \<noteq> hs_id s" if "x \<in> set (subs_in d j)" for x
    proof
      assume "hs_id x = hs_id s"
      then have "x = s" using that s(1) d by (auto simp: subs_in_def distinct_map dest: inj_onD)
      then show False using that s(2) False by (simp add: subs_in_def)
    qed
    with False show ?thesis by (simp add: filter_id_conv)
  qed
  moreover have "int (length (subs_in d j) - 1) = int (length (subs_in d j)) - 1" if "j = i"
    using s that by (cases "subs_in d j") (auto simp: subs_in_def filter_empty_conv)
  moreover have "s \<in> set (subs_in d j)" if "j = i" using s that by (simp add: subs_in_def)
  moreover have "filter (\<lambda>x. hs_channel_id x = j) (filter (\<lambda>x. hs_id x \<noteq> hs_id s) (h_subscriptions d)) =
      filter (\<lambda>x. hs_id x \<noteq> hs_id s) (subs_in d j)"
    by (simp add: subs_in_def conj_commute)
  ultimately show ?thesis by (simp add: length_remove1 of_nat_diff)
qed

lemma inv_unsubscribe:
  assumes "channel_inv d" and "subscription_of d i u = Some s"
    and "hdb_ok (d\<lparr>h_subscriptions := filter (\<lambda>x. hs_id x \<noteq> hs_id s) (h_subscriptions d),
      channels := count_by i (- 1) (channels d)\<rparr>)"
  shows "channel_inv (d\<lparr>h_subscriptions := filter (\<lambda>x. hs_id x \<noteq> hs_id s) (h_subscriptions d),
      channels := count_by i (- 1) (channels d)\<rparr>)" (is "channel_inv ?d'")
proof -
  have "h_id c \<le> hd_seq ?d' ''channels'' \<and> h_subscriber_count c = int (length (subs_in ?d' (h_id c)))"
    if "c \<in> set (channels ?d')" for c
  proof -
    have "c \<in> set (count_by i (- 1) (channels d))" using that by simp
    then obtain x where x: "x \<in> set (channels d)"
      "c = (if h_id x = i then x\<lparr>h_subscriber_count := h_subscriber_count x + - 1\<rparr> else x)"
      unfolding in_count_by by blast
    have "h_id x \<le> hd_seq d ''channels''" "h_subscriber_count x = int (length (subs_in d (h_id x)))"
      using assms(1) x(1) by (simp_all add: channel_inv_def)
    moreover have "int (length (subs_in ?d' j)) = int (length (subs_in d j)) - (if j = i then 1 else 0)" for j
      using subs_in_remove [OF assms(1,2), of j] by (simp add: subs_in_def)
    ultimately show ?thesis using x(2) by (cases "h_id x = i") simp_all
  qed
  moreover have "distinct (map hs_id (h_subscriptions ?d'))"
    "distinct (map (\<lambda>s. (hs_channel_id s, hs_user_id s)) (h_subscriptions ?d'))"
    using assms(1) by (simp_all add: channel_inv_def distinct_map_filter)
  ultimately show ?thesis using assms(1,3) by (simp add: channel_inv_def)
qed

lemma inv_delete:
  assumes "channel_inv d"
    and "hdb_ok (d\<lparr>channels := filter (\<lambda>x. h_id x \<noteq> i) (channels d), h_posts := filter (\<lambda>p. hp_channel_id p \<noteq> i) (h_posts d),
      h_subscriptions := filter (\<lambda>s. hs_channel_id s \<noteq> i) (h_subscriptions d)\<rparr>)"
  shows "channel_inv (d\<lparr>channels := filter (\<lambda>x. h_id x \<noteq> i) (channels d), h_posts := filter (\<lambda>p. hp_channel_id p \<noteq> i) (h_posts d),
      h_subscriptions := filter (\<lambda>s. hs_channel_id s \<noteq> i) (h_subscriptions d)\<rparr>)" (is "channel_inv ?d'")
proof -
  have "subs_in ?d' j = subs_in d j" if "j \<noteq> i" for j
    using that unfolding subs_in_def by (simp, intro filter_cong) auto
  then show ?thesis
    using assms by (simp add: channel_inv_def distinct_map_filter)
qed

lemma updated_channel_sel [simp]:
  "h_id (updated_channel b c) = h_id c" "h_owner_id (updated_channel b c) = h_owner_id c"
  "h_subscriber_count (updated_channel b c) = h_subscriber_count c"
  by (simp_all add: updated_channel_def)

lemma channel_step_inv:
  assumes "channel_step d d'" and "channel_inv d"
  shows "channel_inv d'"
  using assms(1)
proof cases
  case (create now u b r)
  show ?thesis
  proof (cases "d' = d")
    case False
    then obtain c where c: "h_commit d (d\<lparr>hd_seq := advance ''channels'' (hd_seq d), channels := channels d @ [c]\<rparr>) c = (r, d')"
      "h_id c = nextval ''channels'' (hd_seq d)" "h_subscriber_count c = 0"
      using create by (auto simp: create_channel_def Let_def split: sum.splits)
    show ?thesis
      by (rule channel_inv_commit [OF c(1) assms(2)]) (simp, rule inv_new_channel [OF assms(2) c(2,3)])
  qed (simp add: assms(2))
next
  case (update u i b r)
  show ?thesis
  proof (cases "d' = d")
    case False
    let ?d' = "d\<lparr>channels := update_where (\<lambda>x. h_id x = i) (updated_channel b) (channels d)\<rparr>"
    obtain r1 where c: "h_commit d ?d' () = (r1, d')"
      using update False
      by (auto simp: update_channel_def ChannelUpdate_def split: if_splits option.splits prod.splits sum.splits)
    have "map h_id (channels ?d') = map h_id (channels d)" by (simp, rule map_update_where) simp
    moreover have "\<exists>c\<in>set (channels d). h_id c = h_id c' \<and> h_subscriber_count c = h_subscriber_count c'"
      if "c' \<in> set (channels ?d')" for c'
      using that by (auto simp: in_update_where)
    ultimately show ?thesis
      by (intro channel_inv_commit [OF c assms(2)] channel_inv_frame [OF assms(2)]) simp_all
  qed (simp add: assms(2))
next
  case (delete u i r)
  show ?thesis
  proof (cases "d' = d")
    case False
    then obtain r1 where c: "h_commit d (d\<lparr>channels := filter (\<lambda>x. h_id x \<noteq> i) (channels d),
        h_posts := filter (\<lambda>p. hp_channel_id p \<noteq> i) (h_posts d),
        h_subscriptions := filter (\<lambda>s. hs_channel_id s \<noteq> i) (h_subscriptions d)\<rparr>) () = (r1, d')"
      using delete by (auto simp: delete_channel_def split: if_splits option.splits prod.splits sum.splits)
    show ?thesis by (rule channel_inv_commit [OF c assms(2)]) (simp, rule inv_delete [OF assms(2)])
  qed (simp add: assms(2))
next
  case (post now u i p rp)
  show ?thesis
  proof (cases "d' = d")
    case False
    then obtain q where c: "h_commit d (d\<lparr>hd_seq := advance ''channel_posts'' (hd_seq d), h_posts := h_posts d @ [q]\<rparr>) q = (rp, d')"
      using post by (auto simp: create_channel_post_def Let_def split: if_splits)
    show ?thesis by (intro channel_inv_commit [OF c assms(2)] channel_inv_frame [OF assms(2)]) auto
  qed (simp add: assms(2))
next
  case (subscribe now u i plan rs)
  show ?thesis
  proof (cases "d' = d")
    case False
    then obtain s where c: "h_commit d (d\<lparr>hd_seq := advance ''channel_subscriptions'' (hd_seq d),
        h_subscriptions := h_subscriptions d @ [s], channels := count_by i 1 (channels d)\<rparr>) s = (rs, d')"
      and s: "subscription_of d i u = None" "hs_channel_id s = i" "hs_user_id s = u"
        "hs_id s = nextval ''channel_subscriptions'' (hd_seq d)"
      using subscribe by (auto simp: subscribe_to_channel_def Let_def split: if_splits)
    show ?thesis by (rule channel_inv_commit [OF c assms(2)]) (simp, rule inv_subscribe [OF assms(2) s])
  qed (simp add: assms(2))
next
  case (unsubscribe u i ru)
  show ?thesis
  proof (cases "d' = d")
    case False
    then obtain s x where c: "h_commit d (d\<lparr>h_subscriptions := filter (\<lambda>x. hs_id x \<noteq> hs_id s) (h_subscriptions d),
        channels := count_by i (- 1) (channels d)\<rparr>) x = (ru, d')" and s: "subscription_of d i u = Some s"
      using unsubscribe by (auto simp: unsubscribe_from_channel_def split: if_splits option.splits)
    show ?thesis by (rule channel_inv_commit [OF c assms(2)]) (simp, rule inv_unsubscribe [OF assms(2) s])
  qed (simp add: assms(2))
next
  case (analytics now i ra)
  show ?thesis
  proof (cases "d' = d")
    case False
    then obtain a where c: "h_commit d (d\<lparr>hd_seq := advance ''channel_analytics'' (hd_seq d), h_analytics := h_analytics d @ [a]\<rparr>) a = (ra, d')"
      using analytics by (auto simp: read_channel_analytics_def Let_def split: if_splits option.splits)
    show ?thesis by (intro channel_inv_commit [OF c assms(2)] channel_inv_frame [OF assms(2)]) auto
  qed (simp add: assms(2))
qed

lemma channel_reachable_inv: "channel_reachable us ps d \<Longrightarrow> channel_inv d"
proof (induction rule: channel_reachable.induct)
  case start
  then show ?case by (simp add: channel_inv_def empty_hdb_def hdb_ok_def)
qed (blast intro: channel_step_inv)

lemma channel_steps_inv: "channel_step\<^sup>*\<^sup>* d d' \<Longrightarrow> channel_inv d \<Longrightarrow> channel_inv d'"
  by (induction rule: rtranclp_induct) (auto intro: channel_step_inv)

text \<open>The specification of the subscriptions: the set of pairs of channel and user.\<close>

definition subscribed :: "hdb \<Rightarrow> (int \<times> int) set" where
  "subscribed d = (\<lambda>s. (hs_channel_id s, hs_user_id s)) ` set (h_subscriptions d)"

lemma subscription_of_subscribed: "subscription_of d i u = None \<longleftrightarrow> (i, u) \<notin> subscribed d"
  by (simp add: subscription_of_None subscribed_def)

lemma subscribe_eq:
  assumes "hdb_ok d"
  shows "subscribe_to_channel now u i plan d =
    (let s = \<lparr>hs_id = nextval ''channel_subscriptions'' (hd_seq d), hs_channel_id = i, hs_user_id = u,
           hs_subscribed_at = now, hs_is_active = True, hs_plan_id = plan\<rparr>;
         d' = d\<lparr>hd_seq := advance ''channel_subscriptions'' (hd_seq d), h_subscriptions := h_subscriptions d @ [s],
           channels := count_by i 1 (channels d)\<rparr>
     in if i \<notin> h_id ` set (channels d) then (Inl channel_not_found, d)
        else if (i, u) \<in> subscribed d then (Inl (HTTPException 400 ''Already subscribed to this channel''), d)
        else if u \<in> set (hd_users d) \<and> set_option plan \<subseteq> set (hd_plans d) then (Inr s, d')
        else (Inl IntegrityError, d\<lparr>hd_seq := advance ''channel_subscriptions'' (hd_seq d)\<rparr>))"
proof -
  have "h_owner_id c \<in> set (hd_users d)" if "c \<in> set (count_by i 1 (channels d))" for c
    using that assms unfolding in_count_by hdb_ok_def by auto
  then show ?thesis
    using assms
    by (auto simp: subscribe_to_channel_def h_commit_def Let_def channel_by_id_None subscription_of_subscribed hdb_ok_def)
qed

lemma unsubscribe_ok:
  assumes "channel_inv d" and "subscription_of d i u = Some s"
  shows "hdb_ok (d\<lparr>h_subscriptions := filter (\<lambda>x. hs_id x \<noteq> hs_id s) (h_subscriptions d),
      channels := count_by i (- 1) (channels d)\<rparr>)"
proof -
  have "h_owner_id c \<in> set (hd_users d)" if "c \<in> set (count_by i (- 1) (channels d))" for c
    using that assms(1) unfolding in_count_by channel_inv_def hdb_ok_def by auto
  then show ?thesis using assms(1) by (simp add: channel_inv_def hdb_ok_def)
qed

text \<open>Once a channel has an analytics row, it keeps one, and its deletion fails.\<close>

definition pinned :: "int \<Rightarrow> hdb \<Rightarrow> bool" where
  "pinned i d \<longleftrightarrow> (\<exists>a\<in>set (h_analytics d). ha_channel_id a = i)"

lemma analytics_kept:
  assumes "channel_step d d'" shows "set (h_analytics d) \<subseteq> set (h_analytics d')"
  using assms
proof cases
  case (create now u b r)
  then show ?thesis by (auto simp: create_channel_def h_commit_def Let_def split: sum.splits if_splits)
next
  case (update u i b r)
  then show ?thesis by (auto simp: update_channel_def h_commit_def split: sum.splits option.splits if_splits)
next
  case (delete u i r)
  then show ?thesis by (auto simp: delete_channel_def h_commit_def split: sum.splits option.splits if_splits)
next
  case (post now u i p rp)
  then show ?thesis by (auto simp: create_channel_post_def h_commit_def Let_def split: if_splits)
next
  case (subscribe now u i plan rs)
  then show ?thesis by (auto simp: subscribe_to_channel_def h_commit_def Let_def split: if_splits)
next
  case (unsubscribe u i ru)
  then show ?thesis by (auto simp: unsubscribe_from_channel_def h_commit_def split: option.splits if_splits)
next
  case (analytics now i ra)
  then show ?thesis by (auto simp: read_channel_analytics_def h_commit_def Let_def split: option.splits if_splits)
qed

lemma pinned_steps: "channel_step\<^sup>*\<^sup>* d d' \<Longrightarrow> pinned i d \<Longrightarrow> pinned i d'"
  by (induction rule: rtranclp_induct) (auto simp: pinned_def dest: analytics_kept)

lemma read_analytics_pins:
  assumes "channel_inv d" and "channel_by_id d i \<noteq> None" and "read_channel_analytics now i d = (r, d')"
  shows "pinned i d'"
proof (cases "latest_analytics i d")
  case None
  have "i \<in> h_id ` set (channels d)" using assms(2) by (simp add: channel_by_id_None)
  then show ?thesis
    using assms None by (auto simp: read_channel_analytics_def Let_def h_commit_def hdb_ok_def channel_inv_def pinned_def split: if_splits)
next
  case (Some a)
  let ?l = "sort_key (\<lambda>a. - ha_date a) (scalars (\<lambda>a. ha_channel_id a = i) (h_analytics d))"
  have "set ?l = {a \<in> set (h_analytics d). ha_channel_id a = i}" by (simp only: set_sort set_filter)
  moreover have "a \<in> set ?l" using Some by (cases ?l) (simp_all add: latest_analytics_def)
  ultimately have "a \<in> set (h_analytics d)" "ha_channel_id a = i" by simp_all
  with Some assms show ?thesis by (auto simp: read_channel_analytics_def pinned_def)
qed

section \<open>Properties\<close>

text \<open>
  In every reachable database the subscriber count of a channel is the number of users that
  are subscribed to it, and nobody is subscribed twice.
\<close>

theorem channels_invariant:
  assumes "channel_reachable us ps d"
  shows "(\<forall>c\<in>set (channels d). h_subscriber_count c = int (card {u. (h_id c, u) \<in> subscribed d})) \<and>
    distinct (map (\<lambda>s. (hs_channel_id s, hs_user_id s)) (h_subscriptions d))"
proof
  have inv: "channel_inv d" by (rule channel_reachable_inv [OF assms])
  then show unique: "distinct (map (\<lambda>s. (hs_channel_id s, hs_user_id s)) (h_subscriptions d))"
    by (simp add: channel_inv_def)
  show "\<forall>c\<in>set (channels d). h_subscriber_count c = int (card {u. (h_id c, u) \<in> subscribed d})"
  proof
    fix c assume c: "c \<in> set (channels d)"
    have "distinct (map hs_user_id (subs_in d (h_id c)))"
      using unique by (auto simp: subs_in_def distinct_map inj_on_def)
    then have "card (set (map hs_user_id (subs_in d (h_id c)))) = length (subs_in d (h_id c))"
      by (simp only: distinct_card length_map)
    moreover have "{u. (h_id c, u) \<in> subscribed d} = set (map hs_user_id (subs_in d (h_id c)))"
      by (auto simp: subscribed_def subs_in_def intro: rev_image_eqI)
    ultimately show "h_subscriber_count c = int (card {u. (h_id c, u) \<in> subscribed d})"
      using inv c by (simp add: channel_inv_def)
  qed
qed

text \<open>
  C38. The subscription routes implement a set of pairs: subscribing succeeds exactly for an
  existing channel, user and plan whose pair is not in the set and inserts it, unsubscribing succeeds exactly
  for a pair in the set and removes it, and a refused request leaves the set as it is.
\<close>

theorem subscriptions_refine_set:
  assumes "channel_reachable us ps d"
  shows "(case subscribe_to_channel now u i plan d of (r, d') \<Rightarrow>
      if i \<in> h_id ` set (channels d) \<and> (i, u) \<notin> subscribed d \<and> u \<in> set (hd_users d) \<and> set_option plan \<subseteq> set (hd_plans d)
      then (\<exists>s. r = Inr s) \<and> subscribed d' = insert (i, u) (subscribed d)
      else (\<exists>e. r = Inl e) \<and> subscribed d' = subscribed d) \<and>
    (case unsubscribe_from_channel u i d of (r, d') \<Rightarrow>
      if (i, u) \<in> subscribed d then (\<exists>x. r = Inr x) \<and> subscribed d' = subscribed d - {(i, u)}
      else (\<exists>e. r = Inl e) \<and> subscribed d' = subscribed d)" (is "?sub \<and> ?unsub")
proof
  have inv: "channel_inv d" by (rule channel_reachable_inv [OF assms])
  then have ok: "hdb_ok d" by (simp add: channel_inv_def)
  show ?sub unfolding subscribe_eq [OF ok] Let_def by (simp add: subscribed_def)
  have channel: "channel_by_id d i \<noteq> None" if "(i, u) \<in> subscribed d"
    using that ok by (auto simp: subscribed_def hdb_ok_def channel_by_id_None)
  show ?unsub
  proof (cases "subscription_of d i u")
    case None
    then have "(i, u) \<notin> subscribed d" by (simp add: subscription_of_subscribed)
    with None show ?thesis by (simp add: unsubscribe_from_channel_def)
  next
    case (Some s)
    then have here: "(i, u) \<in> subscribed d" using subscription_of_subscribed [of d i u] by simp
    have "subscribed (d\<lparr>h_subscriptions := filter (\<lambda>x. hs_id x \<noteq> hs_id s) (h_subscriptions d),
        channels := count_by i (- 1) (channels d)\<rparr>) = subscribed d - {(i, u)}"
      unfolding subscribed_def by (auto simp: remove_subscription [OF inv Some])
    then show ?thesis
      using channel [OF here] here Some unsubscribe_ok [OF inv Some]
      by (auto simp: unsubscribe_from_channel_def h_commit_def)
  qed
qed

text \<open>
  Unsubscribing undoes a subscription: every table is as before, the subscriber count
  included; only the number of the deleted row is not used again.
\<close>

theorem subscribe_round_trip:
  assumes "channel_reachable us ps d" and "subscribe_to_channel now u i plan d = (Inr s, d1)"
  shows "case unsubscribe_from_channel u i d1 of (r, d2) \<Rightarrow> (\<exists>x. r = Inr x) \<and> d2\<lparr>hd_seq := hd_seq d\<rparr> = d"
proof -
  have inv: "channel_inv d" by (rule channel_reachable_inv [OF assms(1)])
  then have ok: "hdb_ok d" by (simp add: channel_inv_def)
  have inv1: "channel_inv d1"
    using channel_step_inv [OF channel_step.subscribe [OF assms(2)] inv] .
  have i: "i \<in> h_id ` set (channels d)" "(i, u) \<notin> subscribed d"
    and s: "hs_channel_id s = i" "hs_user_id s = u" "hs_id s = hd_seq d ''channel_subscriptions'' + 1"
    and d1: "d1 = d\<lparr>hd_seq := advance ''channel_subscriptions'' (hd_seq d), h_subscriptions := h_subscriptions d @ [s],
        channels := count_by i 1 (channels d)\<rparr>"
    using assms(2) unfolding subscribe_eq [OF ok] Let_def by (auto simp: nextval_def split: if_splits)
  have "subscription_of d i u = None" using i(2) by (simp add: subscription_of_subscribed)
  then have found: "subscription_of d1 i u = Some s"
    using s by (simp add: subscription_of_def d1 find_append)
  have "\<forall>x\<in>set (h_subscriptions d). hs_id x \<noteq> hs_id s"
    using inv s(3) by (fastforce simp: channel_inv_def)
  then have rest: "filter (\<lambda>x. hs_id x \<noteq> hs_id s) (h_subscriptions d1) = h_subscriptions d"
    by (simp add: d1 filter_id_conv)
  have "channel_by_id d1 i \<noteq> None" using i(1) by (simp add: channel_by_id_None d1)
  moreover have "count_by i (- 1) (channels d1) = channels d" using count_by_back [of i 1] by (simp add: d1)
  ultimately show ?thesis
    using unsubscribe_ok [OF inv1 found] found rest
    by (auto simp: unsubscribe_from_channel_def h_commit_def d1)
qed

text \<open>
  Looking at the analytics of a channel, which every user may do, makes the channel
  permanent: from then on, whatever requests follow, the channel exists and its owner's request to
  delete it ends in an integrity error that changes nothing.
\<close>

theorem analytics_pin_channel:
  assumes "channel_reachable us ps d" and "channel_by_id d i \<noteq> None"
    and "read_channel_analytics now i d = (r, d1)" and "channel_step\<^sup>*\<^sup>* d1 d2"
  shows "\<exists>c. channel_by_id d2 i = Some c \<and> delete_channel (h_owner_id c) i d2 = (Inl IntegrityError, d2)"
proof -
  have inv: "channel_inv d" by (rule channel_reachable_inv [OF assms(1)])
  have "pinned i d2" by (rule pinned_steps [OF assms(4) read_analytics_pins [OF inv assms(2,3)]])
  moreover have "channel_inv d2"
    by (rule channel_steps_inv [OF assms(4) channel_step_inv [OF channel_step.analytics [OF assms(3)] inv]])
  ultimately obtain c where "channel_by_id d2 i = Some c"
    by (cases "channel_by_id d2 i") (auto simp: channel_inv_def hdb_ok_def pinned_def channel_by_id_None)
  with \<open>pinned i d2\<close> show ?thesis by (simp add: delete_channel_def pinned_def)
qed

text \<open>
  Neither the type of a channel nor a schedule restricts anything: any user posts into any
  existing channel, private ones included, without a subscription, and the post is in the listing
  of the channel for every reader at once, also when it is scheduled for later.
\<close>

theorem channel_posts_open:
  assumes "hdb_ok d" and "channel_by_id d i \<noteq> None" and "u \<in> set (hd_users d)"
  shows "case create_channel_post now u i b d of (r, d') \<Rightarrow>
    \<exists>p posts. r = Inr p \<and> hp_author_id p = u \<and> hp_scheduled_at p = hq_scheduled_at b \<and> hp_content p = hq_content b \<and>
      read_channel_posts i 0 (int (length (h_posts d')) ) d' = Inr posts \<and> p \<in> set posts"
proof -
  let ?p = "\<lparr>hp_id = nextval ''channel_posts'' (hd_seq d), hp_channel_id = i, hp_author_id = u,
    hp_content = hq_content b, hp_media_key = hq_media_key b, hp_mime_type = hq_mime_type b, hp_created_at = now,
    hp_scheduled_at = hq_scheduled_at b,
    hp_is_scheduled = (if hq_scheduled_at b \<noteq> None then hq_is_scheduled b else False), hp_view_count = 0\<rparr>"
  let ?d' = "d\<lparr>hd_seq := advance ''channel_posts'' (hd_seq d), h_posts := h_posts d @ [?p]\<rparr>"
  have "hdb_ok ?d'" using assms by (simp add: hdb_ok_def channel_by_id_None)
  moreover have "channel_by_id ?d' i = channel_by_id d i" by (simp add: channel_by_id_def)
  moreover have "page 0 (int (length (h_posts ?d'))) (scalars (\<lambda>p. hp_channel_id p = i) (h_posts ?d')) =
      Inr (scalars (\<lambda>p. hp_channel_id p = i) (h_posts ?d'))"
    by (rule page_all [OF length_filter_le])
  then have "read_channel_posts i 0 (int (length (h_posts ?d'))) ?d' = Inr (scalars (\<lambda>p. hp_channel_id p = i) (h_posts ?d'))"
    using assms(2) by (simp only: read_channel_posts_def) (simp add: channel_by_id_def)
  moreover have "?p \<in> set (scalars (\<lambda>p. hp_channel_id p = i) (h_posts ?d'))" by simp
  ultimately have "create_channel_post now u i b d = (Inr ?p, ?d') \<and>
      (\<exists>posts. read_channel_posts i 0 (int (length (h_posts ?d'))) ?d' = Inr posts \<and> ?p \<in> set posts)"
    using assms(2) by (simp only: create_channel_post_def h_commit_def Let_def) simp
  then show ?thesis by fastforce
qed

section \<open>Witnesses\<close>

definition demo_hdb :: hdb where
  "demo_hdb = snd (create_channel 0 1 \<lparr>hc_name = ''news'', hc_description = None, hc_type = PRIVATE, hc_category = None\<rparr>
     (empty_hdb [1, 2] []))"

definition demo_channel :: channel where
  "demo_channel = \<lparr>h_id = 1, h_name = ''news'', h_description = None, h_type = PRIVATE, h_owner_id = 1, h_created_at = 0,
     h_is_verified = Some False, h_category = None, h_subscriber_count = 0\<rparr>"

lemma demo_hdb_eq:
  "demo_hdb = (empty_hdb [1, 2] [])\<lparr>hd_seq := advance ''channels'' (\<lambda>_. 0), channels := [demo_channel]\<rparr>"
  by (simp add: demo_hdb_def create_channel_def ChannelCreate_def max_len_def h_commit_def hdb_ok_def Let_def nextval_def
      demo_channel_def empty_hdb_def)

lemma demo_hdb_reachable: "channel_reachable [1, 2] [] demo_hdb"
  unfolding demo_hdb_def
  by (rule channel_reachable.step [OF channel_reachable.start channel_step.create [OF surjective_pairing]])

lemma demo_hdb_sel:
  "channels demo_hdb = [demo_channel]" "hd_users demo_hdb = [1, 2]" "h_subscriptions demo_hdb = []"
  "subscribed demo_hdb = {}" "channel_by_id demo_hdb 1 = Some demo_channel" "hdb_ok demo_hdb"
  by (simp_all add: demo_hdb_eq empty_hdb_def subscribed_def channel_by_id_def demo_channel_def hdb_ok_def)

theorem channels_invariant_witness:
  "\<exists>c\<in>set (channels demo_hdb). h_subscriber_count c = int (card {u. (h_id c, u) \<in> subscribed demo_hdb})"
  using channels_invariant [OF demo_hdb_reachable] by (simp add: demo_hdb_sel)

theorem subscriptions_refine_set_witness:
  "subscribed (snd (subscribe_to_channel 0 2 1 None demo_hdb)) = {(1, 2)}"
  using subscriptions_refine_set [OF demo_hdb_reachable, where u = 2 and i = 1 and now = 0 and plan = None]
  by (simp add: case_prod_beta demo_hdb_sel demo_channel_def)

theorem subscribe_round_trip_witness:
  "\<exists>x. fst (unsubscribe_from_channel 2 1 (snd (subscribe_to_channel 0 2 1 None demo_hdb))) = Inr x"
proof -
  obtain s d1 where "subscribe_to_channel 0 2 1 None demo_hdb = (Inr s, d1)"
    by (simp add: subscribe_eq [OF demo_hdb_sel(6)] demo_hdb_sel demo_channel_def Let_def)
  with subscribe_round_trip [OF demo_hdb_reachable this] show ?thesis by (auto simp: case_prod_beta)
qed

theorem analytics_pin_channel_witness:
  "fst (delete_channel 1 1 (snd (read_channel_analytics 0 1 demo_hdb))) = Inl IntegrityError"
  using analytics_pin_channel [OF demo_hdb_reachable _ surjective_pairing rtranclp.rtrancl_refl, of 1 0]
  by (auto simp: demo_hdb_sel read_channel_analytics_def latest_analytics_def h_commit_def Let_def demo_hdb_eq
      empty_hdb_def channel_by_id_def demo_channel_def split: if_splits)

theorem channel_posts_open_witness:
  "\<exists>p. fst (create_channel_post 0 2 1 \<lparr>hq_content = ''later'', hq_media_key = None, hq_mime_type = None,
     hq_scheduled_at = Some 1000, hq_is_scheduled = True\<rparr> demo_hdb) = Inr p \<and> hp_author_id p = 2"
  using channel_posts_open [OF demo_hdb_sel(6), where i = 1 and u = 2 and now = 0 and b = "\<lparr>hq_content = ''later'', hq_media_key = None, hq_mime_type = None,
     hq_scheduled_at = Some 1000, hq_is_scheduled = True\<rparr>"]
  by (auto simp: demo_hdb_sel case_prod_beta)

end
