(* ===== verification/Ai_Service.thy ===== *)
theory Ai_Service
  imports Redis Json
begin

text \<open>
  \<^verbatim>\<open>backend/app/services/ai_service.py\<close> and \<^verbatim>\<open>backend/app/api/routes/chats.py\<close>: summaries,
  translations, reply suggestions and moderation scores computed by a remote model and cached in
  Redis, and the routes that feed messages to them. The HTTP client is a parameter
  \<open>http url headers body\<close> that yields a status with a JSON document or an exception; \<open>hash\<close> is Python's
  \<^verbatim>\<open>hash\<close> of the process. The Redis client stores a string or a number and raises on
  any other value. The routes check no membership, so the caller is not an argument.
\<close>

section \<open>The service\<close>

type_synonym http = "string \<Rightarrow> payload \<Rightarrow> json \<Rightarrow> (nat \<times> json) res"

definition HF_API_URL :: string where
  "HF_API_URL = ''https://api-inference.huggingface.co/models''"

definition SUMMARIZATION_MODEL :: string where "SUMMARIZATION_MODEL = ''facebook/bart-large-cnn''"
definition TRANSLATION_MODEL :: string where "TRANSLATION_MODEL = ''facebook/nllb-200-distilled-600M''"
definition SMART_REPLY_MODEL :: string where "SMART_REPLY_MODEL = ''microsoft/DialoGpt-medium''"
definition MODERATION_MODEL :: string where "MODERATION_MODEL = ''unitary/toxic-bert''"

definition get_hf_headers :: "string \<Rightarrow> payload" where
  "get_hf_headers token = (if token = [] then [] else [(''Authorization'', JStr (''Bearer '' @ token))])"

definition call_hf_api :: "http \<Rightarrow> string \<Rightarrow> string \<Rightarrow> json \<Rightarrow> json res" where
  "call_hf_api http token model body =
     (case http (HF_API_URL @ ''/'' @ model) (get_hf_headers token) body of
        Inl e \<Rightarrow> Inl e
      | Inr (status, doc) \<Rightarrow> if status \<noteq> 200 then Inl (HTTPException status ''HF API request failed'') else Inr doc)"

text \<open>\<^verbatim>\<open>result[0][key] if isinstance(result, list) and len(result) > 0 else ""\<close>\<close>

definition first_item :: "string \<Rightarrow> json \<Rightarrow> json res" where
  "first_item key result =
     (case result of
        JArr (x # _) \<Rightarrow>
          (case x of
             JObj p \<Rightarrow> (case map_of p key of None \<Rightarrow> Inl (KeyError key) | Some v \<Rightarrow> Inr v)
           | _ \<Rightarrow> Inl TypeError)
      | _ \<Rightarrow> Inr (JStr []))"

text \<open>\<^verbatim>\<open>setex\<close> of a JSON value: the text that is stored.\<close>

definition redis_text :: "json \<Rightarrow> string option" where
  "redis_text v = (case v of JStr s \<Rightarrow> Some s | JInt i \<Rightarrow> Some (py_str (JInt i)) | JFloat l \<Rightarrow> Some l | _ \<Rightarrow> None)"

definition setex :: "'s redis \<Rightarrow> string \<Rightarrow> nat \<Rightarrow> json \<Rightarrow> 's \<Rightarrow> 's option" where
  "setex R key ttl v s = map_option (\<lambda>t. r_set R key t (Some ttl) s) (redis_text v)"

text \<open>\<^verbatim>\<open>if cached: return cached.decode('utf-8')\<close>\<close>

definition cached_text :: "'s redis \<Rightarrow> string \<Rightarrow> 's \<Rightarrow> string option" where
  "cached_text R key s = (case r_get R key s of None \<Rightarrow> None | Some v \<Rightarrow> if v = [] then None else Some v)"

definition combined_of :: "string list \<Rightarrow> string" where
  "combined_of texts = join '' '' (tail_of 100 texts)"

definition summary_key :: "(string \<Rightarrow> int) \<Rightarrow> string \<Rightarrow> string" where
  "summary_key hash combined = ''ai:summary:'' @ str_int (hash combined)"

definition summary_fallback :: "string \<Rightarrow> string" where
  "summary_fallback combined = (if 200 < length combined then take 200 combined @ ''...'' else combined)"

definition summarize_messages ::
  "'s redis \<Rightarrow> (string \<Rightarrow> int) \<Rightarrow> http \<Rightarrow> string \<Rightarrow> string list \<Rightarrow> int \<Rightarrow> 's \<Rightarrow> json \<times> 's" where
  "summarize_messages R hash http token texts max_length s =
     (if texts = [] then (JStr [], s)
      else
        let combined = combined_of texts; key = summary_key hash combined
        in (case cached_text R key s of
              Some v \<Rightarrow> (JStr v, s)
            | None \<Rightarrow>
                let body = JObj [(''inputs'', JStr combined),
                      (''parameters'', JObj [(''max_length'', JInt max_length), (''min_length'', JInt 30), (''do_sample'', JBool False)])]
                in (case call_hf_api http token SUMMARIZATION_MODEL body of
                      Inl e \<Rightarrow> (JStr (summary_fallback combined), s)
                    | Inr result \<Rightarrow>
                        (case first_item ''summary_text'' result of
                           Inl e \<Rightarrow> (JStr (summary_fallback combined), s)
                         | Inr summary \<Rightarrow>
                             (case setex R key 300 summary s of
                                None \<Rightarrow> (JStr (summary_fallback combined), s)
                              | Some s' \<Rightarrow> (summary, s'))))))"

definition translate_key :: "(string \<Rightarrow> int) \<Rightarrow> string \<Rightarrow> string \<Rightarrow> string" where
  "translate_key hash t lang = ''ai:translate:'' @ str_int (hash t) @ '':'' @ lang"

definition ai_translate ::
  "'s redis \<Rightarrow> (string \<Rightarrow> int) \<Rightarrow> http \<Rightarrow> string \<Rightarrow> string \<Rightarrow> string \<Rightarrow> 's \<Rightarrow> json \<times> 's" where
  "ai_translate R hash http token t target_lang s =
     (if t = [] then (JStr [], s)
      else (case cached_text R (translate_key hash t target_lang) s of
          Some v \<Rightarrow> (JStr v, s)
        | None \<Rightarrow>
            let body = JObj [(''inputs'', JStr t),
                  (''parameters'', JObj [(''src_lang'', JStr ''eng_Latn''), (''tgt_lang'', JStr target_lang)])]
            in (case call_hf_api http token TRANSLATION_MODEL body of
                  Inl e \<Rightarrow> (JStr t, s)
                | Inr result \<Rightarrow>
                    (case first_item ''translation_text'' result of
                       Inl e \<Rightarrow> (JStr t, s)
                     | Inr translation \<Rightarrow>
                         (case setex R (translate_key hash t target_lang) 86400 translation s of
                            None \<Rightarrow> (JStr t, s)
                          | Some s' \<Rightarrow> (translation, s'))))))"

text \<open>
  One candidate of \<^verbatim>\<open>generate_smart_replies\<close>: the context a model repeats in front of its answer is
  cut off. A candidate that is no object, or whose text is no string, ends the loop with an exception.
\<close>

definition reply_of :: "string \<Rightarrow> json \<Rightarrow> string option" where
  "reply_of context item =
     (case item of
        JObj p \<Rightarrow>
          (case map_of p ''generated_text'' of
             None \<Rightarrow> Some []
           | Some (JStr g) \<Rightarrow> Some (if starts_with g context then strip (drop (length context) g) else g)
           | Some _ \<Rightarrow> None)
      | _ \<Rightarrow> None)"

fun collect_replies :: "string \<Rightarrow> string list \<Rightarrow> json list \<Rightarrow> string list option" where
  "collect_replies context replies [] = Some replies"
| "collect_replies context replies (item # items) =
     (case reply_of context item of
        None \<Rightarrow> None
      | Some g \<Rightarrow> collect_replies context (if g \<noteq> [] \<and> g \<notin> set replies then replies @ [g] else replies) items)"

definition DEFAULT_REPLIES :: "string list" where
  "DEFAULT_REPLIES = [''Thanks!'', ''Sounds good'', ''Let me know'']"

definition replies_key :: "(string \<Rightarrow> int) \<Rightarrow> string \<Rightarrow> int \<Rightarrow> string" where
  "replies_key hash context n = ''ai:smartreply:'' @ str_int (hash context) @ '':'' @ str_int n"

definition json_strings :: "string list \<Rightarrow> json" where
  "json_strings xs = JArr (map JStr xs)"

definition ai_smart_replies ::
  "'s redis \<Rightarrow> (string \<Rightarrow> int) \<Rightarrow> http \<Rightarrow> string \<Rightarrow> string \<Rightarrow> nat \<Rightarrow> ('s, json) handler" where
  "ai_smart_replies R hash http token context num_replies s =
     (if context = [] then (Inr (JArr []), s)
      else
        let key = replies_key hash context (int num_replies)
        in (case cached_text R key s of
              Some v \<Rightarrow> (case loads v of None \<Rightarrow> Inl (ValueError ''invalid JSON document'') | Some x \<Rightarrow> Inr x, s)
            | None \<Rightarrow>
                let body = JObj [(''inputs'', JStr context),
                      (''parameters'', JObj [(''max_length'', JInt 50), (''num_return_sequences'', JInt (int num_replies)),
                         (''temperature'', JFloat ''0.7'')])]
                in (case call_hf_api http token SMART_REPLY_MODEL body of
                      Inl e \<Rightarrow> (Inr (json_strings DEFAULT_REPLIES), s)
                    | Inr result \<Rightarrow>
                        (case collect_replies context [] (case result of JArr items \<Rightarrow> items | _ \<Rightarrow> []) of
                           None \<Rightarrow> (Inr (json_strings DEFAULT_REPLIES), s)
                         | Some replies0 \<Rightarrow>
                             let replies = (if replies0 = [] then DEFAULT_REPLIES else replies0)
                             in (Inr (json_strings (take num_replies replies)),
                                 r_set R key (dumps (json_strings replies)) (Some 600) s)))))"

fun collect_scores :: "payload \<Rightarrow> json list \<Rightarrow> payload option" where
  "collect_scores scores [] = Some scores"
| "collect_scores scores (item # items) =
     (case item of
        JObj p \<Rightarrow>
          (case (case map_of p ''label'' of None \<Rightarrow> JStr [] | Some l \<Rightarrow> l) of
             JStr l \<Rightarrow> collect_scores (jset (lower l) (case map_of p ''score'' of None \<Rightarrow> JFloat ''0.0'' | Some v \<Rightarrow> v) scores) items
           | _ \<Rightarrow> None)
      | _ \<Rightarrow> None)"

definition moderation_key :: "(string \<Rightarrow> int) \<Rightarrow> string \<Rightarrow> string" where
  "moderation_key hash t = ''ai:moderation:'' @ str_int (hash t)"

definition ai_moderate :: "'s redis \<Rightarrow> (string \<Rightarrow> int) \<Rightarrow> http \<Rightarrow> string \<Rightarrow> string \<Rightarrow> ('s, json) handler" where
  "ai_moderate R hash http token t s =
     (if t = [] then (Inr (JObj []), s)
      else (case cached_text R (moderation_key hash t) s of
          Some v \<Rightarrow> (case loads v of None \<Rightarrow> Inl (ValueError ''invalid JSON document'') | Some x \<Rightarrow> Inr x, s)
        | None \<Rightarrow>
            (case call_hf_api http token MODERATION_MODEL (JObj [(''inputs'', JStr t)]) of
               Inl e \<Rightarrow> (Inr (JObj []), s)
             | Inr result \<Rightarrow>
                 (case collect_scores [] (case result of JArr items \<Rightarrow> items | _ \<Rightarrow> []) of
                    None \<Rightarrow> (Inr (JObj []), s)
                  | Some scores \<Rightarrow>
                      (Inr (JObj scores), r_set R (moderation_key hash t) (dumps (JObj scores)) (Some 3600) s)))))"

section \<open>The routes\<close>

record chat_message =
  k_id :: int
  k_chat_id :: int
  k_content :: "string option"
  k_created_at :: instant

definition latest_first :: "chat_message list \<Rightarrow> chat_message list" where
  "latest_first ms = sort_key (\<lambda>m. - k_created_at m) ms"

definition recent :: "int \<Rightarrow> int \<Rightarrow> chat_message list \<Rightarrow> chat_message list res" where
  "recent chat_id limit ms =
     (if limit < 0 then Inl DataError
      else Inr (take (nat limit) (latest_first (scalars (\<lambda>m. k_chat_id m = chat_id) ms))))"

definition read_chat_messages :: "int \<Rightarrow> int \<Rightarrow> chat_message list \<Rightarrow> chat_message list res" where
  "read_chat_messages chat_id limit ms =
     (case recent chat_id limit ms of Inl e \<Rightarrow> Inl e | Inr xs \<Rightarrow> Inr (rev xs))"

definition message_texts :: "chat_message list \<Rightarrow> string list" where
  "message_texts ms = map (\<lambda>m. the (k_content m)) (filter (\<lambda>m. truthy_str (k_content m)) ms)"

definition get_chat_summary ::
  "'s redis \<Rightarrow> (string \<Rightarrow> int) \<Rightarrow> http \<Rightarrow> string \<Rightarrow> int \<Rightarrow> int \<Rightarrow> chat_message list \<Rightarrow> ('s, payload) handler" where
  "get_chat_summary R hash http token chat_id limit ms s =
     (case recent chat_id limit ms of
        Inl e \<Rightarrow> (Inl e, s)
      | Inr xs \<Rightarrow>
          if xs = [] then (Inr [(''summary'', JStr [])], s)
          else
            let (summary, s') = summarize_messages R hash http token (message_texts xs) 150 s
            in (Inr [(''summary'', summary)], s'))"

definition generate_smart_replies ::
  "'s redis \<Rightarrow> (string \<Rightarrow> int) \<Rightarrow> http \<Rightarrow> string \<Rightarrow> int \<Rightarrow> chat_message list \<Rightarrow> ('s, payload) handler" where
  "generate_smart_replies R hash http token chat_id ms s =
     (case recent chat_id 10 ms of
        Inl e \<Rightarrow> (Inl e, s)
      | Inr xs \<Rightarrow>
          if xs = [] then (Inr [(''replies'', json_strings DEFAULT_REPLIES)], s)
          else
            (case ai_smart_replies R hash http token (join '' '' (rev (message_texts xs))) 3 s of
               (Inl e, s') \<Rightarrow> (Inl e, s')
             | (Inr replies, s') \<Rightarrow> (Inr [(''replies'', replies)], s')))"

definition translate_message ::
  "'s redis \<Rightarrow> (string \<Rightarrow> int) \<Rightarrow> http \<Rightarrow> string \<Rightarrow> string \<Rightarrow> string \<Rightarrow> ('s, payload) handler" where
  "translate_message R hash http token t target_lang s =
     (let (translation, s') = ai_translate R hash http token t target_lang s in (Inr [(''translation'', translation)], s'))"

definition moderate_message ::
  "'s redis \<Rightarrow> (string \<Rightarrow> int) \<Rightarrow> http \<Rightarrow> string \<Rightarrow> string \<Rightarrow> ('s, payload) handler" where
  "moderate_message R hash http token t s =
     (case ai_moderate R hash http token t s of
        (Inl e, s') \<Rightarrow> (Inl e, s')
      | (Inr scores, s') \<Rightarrow> (Inr [(''scores'', scores)], s'))"

section \<open>Facts about the pieces\<close>

lemma summary_fallback_length: "length (summary_fallback c) \<le> 203"
  by (simp add: summary_fallback_def)

lemma tail_of_append: "n \<le> length ys \<Longrightarrow> tail_of n (xs @ ys) = tail_of n ys"
  by (simp add: tail_of_def)

lemma message_texts_append: "message_texts (xs @ ys) = message_texts xs @ message_texts ys"
  by (simp add: message_texts_def)

lemma jplain_json_strings [simp]: "jplain (json_strings xs)"
  by (auto simp: json_strings_def list_all_iff)

lemma collect_replies_distinct: "collect_replies c rs items = Some rs' \<Longrightarrow> distinct rs \<Longrightarrow> distinct rs'"
  by (induction c rs items rule: collect_replies.induct) (auto split: option.splits if_splits)

context redis
begin

lemma cached_hit:
  "members s key = {||} \<Longrightarrow> v \<noteq> [] \<Longrightarrow> cached_text R key (r_set R key v ex s) = Some v"
  by (simp add: cached_text_def value_laws)

lemma cached_kept:
  "members s key = {||} \<Longrightarrow> v \<noteq> [] \<Longrightarrow> n < ex * 1000 \<Longrightarrow>
     cached_text R key (r_elapse R n (r_set R key v (Some ex) s)) = Some v"
  by (simp add: cached_text_def value_laws ttl_laws elapse_laws)

lemma cached_gone:
  "members s key = {||} \<Longrightarrow> ex * 1000 \<le> n \<Longrightarrow> cached_text R key (r_elapse R n (r_set R key v (Some ex) s)) = None"
  by (simp add: cached_text_def value_laws ttl_laws elapse_laws)

end

section \<open>Properties\<close>

text \<open>
  A summary is computed once in five minutes: after the model answered, the same messages
  get the same summary without another request, whatever the remote service would answer, until
  the five minutes are over, when the service is asked again.
\<close>

theorem summary_cached:
  assumes "redis R strs members ttl" and "texts \<noteq> []"
    and "members s (summary_key hash (combined_of texts)) = {||}"
    and "cached_text R (summary_key hash (combined_of texts)) s = None"
    and "\<And>u h b. http u h b = Inr (200, JArr [JObj [(''summary_text'', JStr v)]])" and "v \<noteq> []"
  shows "case summarize_messages R hash http token texts n s of (r, s1) \<Rightarrow> r = JStr v \<and>
    (ms < 300000 \<longrightarrow> summarize_messages R hash other token texts n' (r_elapse R ms s1) = (JStr v, r_elapse R ms s1)) \<and>
    (300000 \<le> ms \<longrightarrow>
       fst (summarize_messages R hash (\<lambda>_ _ _. Inl e) token texts n' (r_elapse R ms s1)) = JStr (summary_fallback (combined_of texts)))"
proof -
  let ?key = "summary_key hash (combined_of texts)"
  have first: "summarize_messages R hash http token texts n s = (JStr v, r_set R ?key v (Some 300) s)"
    using assms(2,4,5)
    by (simp add: summarize_messages_def Let_def call_hf_api_def first_item_def setex_def redis_text_def)
  have kept: "cached_text R ?key (r_elapse R ms (r_set R ?key v (Some 300) s)) = Some v" if "ms < 300000"
    by (rule redis.cached_kept [OF assms(1,3,6)]) (use that in simp)
  have gone: "cached_text R ?key (r_elapse R ms (r_set R ?key v (Some 300) s)) = None" if "300000 \<le> ms"
    by (rule redis.cached_gone [OF assms(1,3)]) (use that in simp)
  show ?thesis
    unfolding first using assms(2) kept gone
    by (simp add: summarize_messages_def Let_def call_hf_api_def)
qed

text \<open>
  C39. When the remote service fails, each operation on a non-empty input answers from the cache, if there is a
  non-empty entry under the key of the request, and with its fallback otherwise: the summary is the text itself, cut to 203
  characters, a translation is the original, the replies are the three defaults and the moderation scores are
  empty. Nothing is written to the cache, so a fallback is never cached. The only exception is a cached entry for replies or scores
  that is no JSON document.
\<close>

theorem ai_failures_contained:
  assumes "\<And>u h b. (case http u h b of Inl e \<Rightarrow> True | Inr (status, doc) \<Rightarrow> status \<noteq> 200)"
    and "texts \<noteq> []" and "t \<noteq> []"
  shows "summarize_messages R hash http token texts n s =
      (JStr (case cached_text R (summary_key hash (combined_of texts)) s of None \<Rightarrow> summary_fallback (combined_of texts) | Some v \<Rightarrow> v), s) \<and>
    length (summary_fallback (combined_of texts)) \<le> 203 \<and>
    ai_translate R hash http token t lang s =
      (JStr (case cached_text R (translate_key hash t lang) s of None \<Rightarrow> t | Some v \<Rightarrow> v), s) \<and>
    ai_smart_replies R hash http token t k s =
      (case cached_text R (replies_key hash t (int k)) s of
         None \<Rightarrow> Inr (json_strings DEFAULT_REPLIES)
       | Some v \<Rightarrow> (case loads v of None \<Rightarrow> Inl (ValueError ''invalid JSON document'') | Some x \<Rightarrow> Inr x), s) \<and>
    ai_moderate R hash http token t s =
      (case cached_text R (moderation_key hash t) s of
         None \<Rightarrow> Inr (JObj [])
       | Some v \<Rightarrow> (case loads v of None \<Rightarrow> Inl (ValueError ''invalid JSON document'') | Some x \<Rightarrow> Inr x), s)"
proof -
  have "\<exists>e. call_hf_api http token model body = Inl e" for model body
    using assms(1) [of "HF_API_URL @ ''/'' @ model" "get_hf_headers token" body]
    by (auto simp: call_hf_api_def split: sum.splits prod.splits)
  then obtain E where fails: "\<And>model body. call_hf_api http token model body = Inl (E model body)" by metis
  show ?thesis
    using assms(2,3)
    by (simp add: summarize_messages_def ai_translate_def ai_smart_replies_def ai_moderate_def Let_def fails
        summary_fallback_length split: option.split)
qed

text \<open>
  The number of suggested replies is bounded by the number asked for on the first request
  only: the whole list is cached, so that for the next ten minutes the same request gets all of it.
\<close>

theorem cached_replies_exceed:
  assumes "redis R strs members ttl" and "ctxt \<noteq> []"
    and "members s (replies_key hash ctxt (int k)) = {||}"
    and "cached_text R (replies_key hash ctxt (int k)) s = None"
    and "\<And>u h b. http u h b = Inr (200, JArr items)" and "collect_replies ctxt [] items = Some replies"
    and "replies \<noteq> []" and "ms < 600000"
  shows "case ai_smart_replies R hash http token ctxt k s of (r, s1) \<Rightarrow>
    r = Inr (json_strings (take k replies)) \<and> distinct replies \<and>
    ai_smart_replies R hash other token ctxt k (r_elapse R ms s1) = (Inr (json_strings replies), r_elapse R ms s1)"
proof -
  let ?key = "replies_key hash ctxt (int k)"
  let ?s1 = "r_set R ?key (dumps (json_strings replies)) (Some 600) s"
  have first: "ai_smart_replies R hash http token ctxt k s = (Inr (json_strings (take k replies)), ?s1)"
    using assms(2,4-7) by (simp add: ai_smart_replies_def Let_def call_hf_api_def)
  have "dumps (json_strings replies) \<noteq> []" by (simp add: dumps_start)
  then have "cached_text R ?key (r_elapse R ms ?s1) = Some (dumps (json_strings replies))"
    by (rule redis.cached_kept [OF assms(1,3)]) (use assms(8) in simp)
  moreover have "loads (dumps (json_strings replies)) = Some (json_strings replies)"
    by (rule loads_dumps) simp
  ultimately show ?thesis
    unfolding first using assms(2) collect_replies_distinct [OF assms(6)]
    by (simp add: ai_smart_replies_def Let_def)
qed

text \<open>
  The message route is the specification \<open>the last n messages of the chat in the order they
  were sent\<close>: fetching the newest \<open>n\<close> and reversing them gives the same list, when no two messages of
  the chat carry the same time.
\<close>

theorem chat_messages_chronological:
  assumes "distinct (map k_created_at (filter (\<lambda>m. k_chat_id m = chat_id) ms))" and "0 \<le> limit"
  shows "read_chat_messages chat_id limit ms =
    Inr (tail_of (nat limit) (sort_key k_created_at (filter (\<lambda>m. k_chat_id m = chat_id) ms)))"
  using assms(2) sort_key_rev [OF assms(1)]
  by (simp add: read_chat_messages_def recent_def latest_first_def rev_take_rev)

text \<open>
  The summary route passes the messages newest first to a service that keeps the last
  hundred: once the older ones fill that hundred, the newest messages of the chat have no
  influence on its summary.
\<close>

theorem summary_ignores_newest:
  assumes "recent chat_id limit ms = Inr (newest @ old)" and "recent chat_id limit ms' = Inr (newest' @ old)"
    and "100 \<le> length (message_texts old)"
  shows "get_chat_summary R hash http token chat_id limit ms s = get_chat_summary R hash http token chat_id limit ms' s"
proof -
  have "old \<noteq> []" "message_texts old \<noteq> []" using assms(3) by (auto simp: message_texts_def)
  moreover have "combined_of (message_texts (xs @ old)) = combined_of (message_texts old)" for xs
    using assms(3) by (simp add: combined_of_def message_texts_append tail_of_append)
  ultimately show ?thesis
    using assms(1,2)
    by (simp add: get_chat_summary_def summarize_messages_def message_texts_append)
qed

section \<open>Witnesses\<close>

definition answers :: "json \<Rightarrow> http" where
  "answers doc = (\<lambda>_ _ _. Inr (200, doc))"

definition down :: http where
  "down = (\<lambda>_ _ _. Inl FirebaseError)"

definition no_cache :: store where
  "no_cache = (\<lambda>_. None)"

definition chat_text :: "int \<Rightarrow> string \<Rightarrow> chat_message" where
  "chat_text i t = \<lparr>k_id = i, k_chat_id = 1, k_content = Some t, k_created_at = - i\<rparr>"

lemma no_cache_simps [simp]:
  "ref_members no_cache k = {||}" "r_get ref_redis k no_cache = None" "cached_text ref_redis k no_cache = None"
  by (simp_all add: no_cache_def ref_defs cached_text_def)

theorem summary_cached_witness:
  "fst (summarize_messages ref_redis (\<lambda>_. 7) down [] [''hi''] 150
     (r_elapse ref_redis 1000 (snd (summarize_messages ref_redis (\<lambda>_. 7)
       (answers (JArr [JObj [(''summary_text'', JStr ''short'')]])) [] [''hi''] 150 no_cache)))) = JStr ''short''"
  using summary_cached [OF ref.redis_axioms, where texts = "[''hi'']" and s = no_cache and hash = "\<lambda>_. 7"
      and http = "answers (JArr [JObj [(''summary_text'', JStr ''short'')]])" and v = "''short''" and token = "[]"
      and n = 150 and n' = 150 and other = down and ms = 1000]
  by (simp add: answers_def case_prod_beta)

theorem ai_failures_contained_witness:
  "summarize_messages ref_redis (\<lambda>_. 7) down [] [''hi''] 150 no_cache = (JStr ''hi'', no_cache) \<and>
   ai_translate ref_redis (\<lambda>_. 7) down [] ''hi'' ''fra_Latn'' (r_set ref_redis ''ai:translate:7:fra_Latn'' ''salut'' (Some 60) no_cache) =
     (JStr ''salut'', r_set ref_redis ''ai:translate:7:fra_Latn'' ''salut'' (Some 60) no_cache)"
proof -
  have key: "translate_key (\<lambda>_. 7) ''hi'' ''fra_Latn'' = ''ai:translate:7:fra_Latn''"
    unfolding translate_key_def by code_simp
  let ?s = "r_set ref_redis ''ai:translate:7:fra_Latn'' ''salut'' (Some 60) no_cache"
  have hit: "cached_text ref_redis ''ai:translate:7:fra_Latn'' ?s = Some ''salut''"
    by (simp add: cached_text_def ref_defs)
  note f = ai_failures_contained [where http = down and R = ref_redis and texts = "[''hi'']" and t = "''hi''"
      and hash = "\<lambda>_. 7" and token = "[]" and n = 150 and lang = "''fra_Latn''" and k = 3]
  show ?thesis
    using f [of no_cache] f [of ?s] hit
    by (simp add: key) (simp add: down_def combined_of_def tail_of_def summary_fallback_def cached_text_def)
qed

theorem cached_replies_exceed_witness:
  "let items = map (\<lambda>t. JObj [(''generated_text'', JStr t)]) [''a'', ''b''];
       (r, s1) = ai_smart_replies ref_redis (\<lambda>_. 7) (answers (JArr items)) [] ''hi'' 1 no_cache
   in r = Inr (json_strings [''a'']) \<and>
      fst (ai_smart_replies ref_redis (\<lambda>_. 7) down [] ''hi'' 1 (r_elapse ref_redis 5 s1)) = Inr (json_strings [''a'', ''b''])"
proof -
  let ?items = "map (\<lambda>t. JObj [(''generated_text'', JStr t)]) [''a'', ''b'']"
  have "collect_replies ''hi'' [] ?items = Some [''a'', ''b'']"
    by (simp add: reply_of_def starts_with_def)
  then show ?thesis
    using cached_replies_exceed [OF ref.redis_axioms, where ctxt = "''hi''" and s = no_cache and hash = "\<lambda>_. 7" and k = 1
        and http = "answers (JArr ?items)" and items = ?items and replies = "[''a'', ''b'']" and ms = 5 and token = "[]"
        and other = down]
    by (simp add: answers_def case_prod_beta Let_def)
qed

theorem chat_messages_chronological_witness:
  "read_chat_messages 1 2 [chat_text 3 ''c'', chat_text 1 ''a'', chat_text 2 ''b''] =
     Inr (tail_of 2 (sort_key k_created_at [chat_text 3 ''c'', chat_text 1 ''a'', chat_text 2 ''b'']))"
  using chat_messages_chronological [where chat_id = 1 and limit = 2
      and ms = "[chat_text 3 ''c'', chat_text 1 ''a'', chat_text 2 ''b'']"]
  by (simp add: chat_text_def)

lemma recent_hundred:
  "recent 1 101 (chat_text 0 t # map (\<lambda>i. chat_text i ''x'') [1..100]) = Inr ([chat_text 0 t] @ map (\<lambda>i. chat_text i ''x'') [1..100])"
proof -
  let ?ms = "chat_text 0 t # map (\<lambda>i. chat_text i ''x'') [1..100]"
  have "map (\<lambda>m. - k_created_at m) ?ms = 0 # [1..100]" by (simp add: chat_text_def comp_def)
  then have "sorted (map (\<lambda>m. - k_created_at m) ?ms)" by simp
  then have "sort_key (\<lambda>m. - k_created_at m) ?ms = ?ms" by (rule sort_key_id_if_sorted)
  moreover have "scalars (\<lambda>m. k_chat_id m = 1) ?ms = ?ms" by (simp add: filter_id_conv chat_text_def)
  ultimately have "recent 1 101 ?ms = Inr (take 101 ?ms)" by (simp only: recent_def latest_first_def) simp
  then show ?thesis by simp
qed

theorem summary_ignores_newest_witness:
  "get_chat_summary ref_redis (\<lambda>_. 7) down [] 1 101 (chat_text 0 ''urgent'' # map (\<lambda>i. chat_text i ''x'') [1..100]) no_cache =
   get_chat_summary ref_redis (\<lambda>_. 7) down [] 1 101 (chat_text 0 ''other'' # map (\<lambda>i. chat_text i ''x'') [1..100]) no_cache"
proof (rule summary_ignores_newest [OF recent_hundred recent_hundred])
  have "filter (\<lambda>m. truthy_str (k_content m)) (map (\<lambda>i. chat_text i ''x'') [1..100]) = map (\<lambda>i. chat_text i ''x'') [1..100]"
    by (simp add: filter_id_conv chat_text_def truthy_str_def)
  then show "100 \<le> length (message_texts (map (\<lambda>i. chat_text i ''x'') [1..100]))"
    by (simp only: message_texts_def length_map) simp
qed

end
