(* ===== verification/Legacy_Media.thy ===== *)
theory Legacy_Media
  imports World Config
begin

text \<open>
  \<^verbatim>\<open>backend/app/api/routes/media.py\<close>: the upload of the legacy backend and its keyword alerts with
  debouncing and a bounded history per user. The Redis server is a parameter as in \<open>Redis\<close>, with
  the list commands; the laws are a locale over the string, set, list and life time under a key. The
  sets of Python have no order: the order in which the users are visited and the matching keyword
  that is taken first are arguments. The attributes the connection manager has and the names the
  module binds are arguments too: \<open>MANAGER_METHODS\<close> and \<open>LEGACY_MEDIA_GLOBALS\<close> are the program as
  it is. Text extraction is the placeholder of the source.
\<close>

section \<open>Redis with lists\<close>

record 's alert_redis =
  a_exists :: "string \<Rightarrow> 's \<Rightarrow> bool"
  a_setex :: "string \<Rightarrow> nat \<Rightarrow> string \<Rightarrow> 's \<Rightarrow> 's"
  a_smembers :: "string \<Rightarrow> 's \<Rightarrow> string fset"
  a_lpush :: "string \<Rightarrow> string \<Rightarrow> 's \<Rightarrow> 's"
  a_ltrim :: "string \<Rightarrow> nat \<Rightarrow> nat \<Rightarrow> 's \<Rightarrow> 's"
  a_expire :: "string \<Rightarrow> nat \<Rightarrow> 's \<Rightarrow> 's"
  a_elapse :: "nat \<Rightarrow> 's \<Rightarrow> 's"

locale redis_lists =
  fixes A :: "'s alert_redis"
    and used :: "'s \<Rightarrow> string \<Rightarrow> bool"
    and members :: "'s \<Rightarrow> string \<Rightarrow> string fset"
    and items :: "'s \<Rightarrow> string \<Rightarrow> string list"
    and ttl :: "'s \<Rightarrow> string \<Rightarrow> nat option"
  assumes exists_iff: "a_exists A k s \<longleftrightarrow> used s k"
    and smembers: "items s k = [] \<Longrightarrow> a_smembers A k s = members s k"
    and used_setex: "0 < n \<Longrightarrow> used (a_setex A k n v s) = (used s)(k := True)"
    and members_setex: "0 < n \<Longrightarrow> members (a_setex A k n v s) = (members s)(k := {||})"
    and items_setex: "0 < n \<Longrightarrow> items (a_setex A k n v s) = (items s)(k := [])"
    and ttl_setex: "0 < n \<Longrightarrow> ttl (a_setex A k n v s) = (ttl s)(k \<mapsto> n * 1000)"
    and used_lpush: "items s k \<noteq> [] \<or> \<not> used s k \<Longrightarrow> used (a_lpush A k v s) = (used s)(k := True)"
    and members_lpush: "items s k \<noteq> [] \<or> \<not> used s k \<Longrightarrow> members (a_lpush A k v s) = members s"
    and items_lpush: "items s k \<noteq> [] \<or> \<not> used s k \<Longrightarrow> items (a_lpush A k v s) = (items s)(k := v # items s k)"
    and ttl_lpush: "items s k \<noteq> [] \<or> \<not> used s k \<Longrightarrow> ttl (a_lpush A k v s) = ttl s"
    and used_ltrim: "items s k \<noteq> [] \<Longrightarrow> used (a_ltrim A k 0 n s) = used s"
    and members_ltrim: "items s k \<noteq> [] \<Longrightarrow> members (a_ltrim A k 0 n s) = members s"
    and items_ltrim: "items s k \<noteq> [] \<Longrightarrow> items (a_ltrim A k 0 n s) = (items s)(k := take (Suc n) (items s k))"
    and ttl_ltrim: "items s k \<noteq> [] \<Longrightarrow> ttl (a_ltrim A k 0 n s) = ttl s"
    and used_expire: "0 < n \<Longrightarrow> used (a_expire A k n s) = used s"
    and members_expire: "0 < n \<Longrightarrow> members (a_expire A k n s) = members s"
    and items_expire: "0 < n \<Longrightarrow> items (a_expire A k n s) = items s"
    and ttl_expire: "0 < n \<Longrightarrow> used s k \<Longrightarrow> ttl (a_expire A k n s) = (ttl s)(k \<mapsto> n * 1000)"
    and used_elapse: "used (a_elapse A n s) k \<longleftrightarrow> used s k \<and> (case ttl s k of None \<Rightarrow> True | Some t \<Rightarrow> n < t)"
    and items_elapse: "items (a_elapse A n s) k =
      (case ttl s k of None \<Rightarrow> items s k | Some t \<Rightarrow> if n < t then items s k else [])"
    and ttl_elapse: "ttl (a_elapse A n s) k =
      (case ttl s k of None \<Rightarrow> None | Some t \<Rightarrow> if n < t then Some (t - n) else None)"
begin

lemmas list_laws =
  exists_iff smembers used_setex members_setex items_setex ttl_setex used_lpush members_lpush items_lpush ttl_lpush
  used_ltrim members_ltrim items_ltrim ttl_ltrim used_expire members_expire items_expire ttl_expire

end

section \<open>Model\<close>

definition OCR_DEBOUNCE_SECONDS :: nat where "OCR_DEBOUNCE_SECONDS = 5"
definition OCR_ALERT_HISTORY_LIMIT :: nat where "OCR_ALERT_HISTORY_LIMIT = 50"
definition OCR_ALERT_HISTORY_TTL :: nat where "OCR_ALERT_HISTORY_TTL = 24 * 60 * 60"

definition legacy_extract_text :: "string \<Rightarrow> string" where
  "legacy_extract_text file_path = ''This is a sample text with the word urgent and another word.''"

definition legacy_keywords_key :: "int \<Rightarrow> string" where
  "legacy_keywords_key u = ''user:'' @ str_int u @ '':ocr_keywords''"

definition history_key :: "int \<Rightarrow> string" where
  "history_key u = ''user:'' @ str_int u @ '':ocr_alerts''"

definition debounce_key :: "string \<Rightarrow> int \<Rightarrow> string" where
  "debounce_key file_id u = ''ocr:debounce:'' @ file_id @ '':'' @ str_int u"

definition legacy_user_keywords :: "'s alert_redis \<Rightarrow> int \<Rightarrow> 's \<Rightarrow> string fset" where
  "legacy_user_keywords A u s = lower |`| a_smembers A (legacy_keywords_key u) s"

definition add_ocr_alert :: "'s alert_redis \<Rightarrow> int \<Rightarrow> payload \<Rightarrow> 's \<Rightarrow> 's" where
  "add_ocr_alert A u alert s =
     (let key = history_key u
      in a_expire A key OCR_ALERT_HISTORY_TTL
           (a_ltrim A key 0 (OCR_ALERT_HISTORY_LIMIT - 1) (a_lpush A key (dumps (JObj alert)) s)))"

definition is_ocr_debounced :: "'s alert_redis \<Rightarrow> string \<Rightarrow> int \<Rightarrow> 's \<Rightarrow> bool \<times> 's" where
  "is_ocr_debounced A file_id u s =
     (let key = debounce_key file_id u
      in if a_exists A key s then (True, s) else (False, a_setex A key OCR_DEBOUNCE_SECONDS ''1'' s))"

text \<open>The index of the first occurrence, \<^verbatim>\<open>s.find(sub)\<close>.\<close>

fun find_sub :: "string \<Rightarrow> string \<Rightarrow> nat option" where
  "find_sub sub [] = (if sub = [] then Some 0 else None)"
| "find_sub sub (c # cs) = (if starts_with (c # cs) sub then Some 0 else map_option Suc (find_sub sub cs))"

definition snippet_of :: "string \<Rightarrow> string \<Rightarrow> string \<Rightarrow> string" where
  "snippet_of text text_lower keyword =
     (case find_sub keyword text_lower of
        Some idx \<Rightarrow>
          let start = idx - 20; stop = min (length text) (idx + length keyword + 20)
          in drop start (take stop text)
      | None \<Rightarrow> take 100 text)"

text \<open>\<^verbatim>\<open>datetime.utcnow().isoformat() + "Z"\<close>: the time zone of an aware timestamp is cut off.\<close>

definition utc_stamp :: "instant \<Rightarrow> string" where
  "utc_stamp now = take (length (isoformat now) - 6) (isoformat now) @ ''Z''"

definition jopt :: "int option \<Rightarrow> json" where
  "jopt v = (case v of None \<Rightarrow> JNull | Some i \<Rightarrow> JInt i)"

definition legacy_alert ::
  "instant \<Rightarrow> string \<Rightarrow> string \<Rightarrow> string \<Rightarrow> int option \<Rightarrow> int option \<Rightarrow> string \<Rightarrow> int \<Rightarrow> payload" where
  "legacy_alert now file_id file_name keyword group_id chat_id snippet user_id =
     [(''type'', JStr ''ocr_alert''), (''file_id'', JStr file_id), (''file_name'', JStr file_name),
      (''matched_keyword'', JStr keyword), (''group_id'', jopt group_id), (''chat_id'', jopt chat_id),
      (''snippet'', JStr snippet), (''user_id'', JInt user_id), (''timestamp'', JStr (utc_stamp now))]"

text \<open>The tables the task reads: members of groups and the two users of a direct chat.\<close>

record legacy_chats =
  lc_group_members :: "(int \<times> int) list"
  lc_chats :: "(int \<times> int \<times> int) list"

definition users_to_check :: "legacy_chats \<Rightarrow> int \<Rightarrow> int option \<Rightarrow> int option \<Rightarrow> int set" where
  "users_to_check d uploader chat_id group_id =
     (case group_id of
        Some g \<Rightarrow> snd ` set (filter (\<lambda>m. fst m = g) (lc_group_members d))
      | None \<Rightarrow>
          (case chat_id of
             Some c \<Rightarrow> (case scalar (\<lambda>r. fst r = c) (lc_chats d) of
                 Some (_, u1, u2) \<Rightarrow> {u1, u2} - {uploader}
               | None \<Rightarrow> {})
           | None \<Rightarrow> {uploader}))"

definition MANAGER_METHODS :: "string list" where
  "MANAGER_METHODS = [''register'', ''heartbeat'', ''unregister'', ''online_count'', ''is_online'', ''send_local'',
     ''listen_ocr_alerts'', ''broadcast_typing'', ''broadcast_delivered'', ''broadcast_read'']"

text \<open>
  The body of the loop for one user: the new Redis state, the alert that was sent, if any, and
  whether an exception ended the task.
\<close>

record ocr_file =
  of_id :: string
  of_name :: string
  of_chat :: "int option"
  of_group :: "int option"

definition check_user ::
  "'s alert_redis \<Rightarrow> string list \<Rightarrow> (string fset \<Rightarrow> string) \<Rightarrow> instant \<Rightarrow> ocr_file \<Rightarrow> string \<Rightarrow> int \<Rightarrow> 's
     \<Rightarrow> (int \<times> payload) option res \<times> 's" where
  "check_user A methods pick now f text u s =
     (let (debounced, s1) = is_ocr_debounced A (of_id f) u s
      in if debounced then (Inr None, s1)
         else
           let keywords = legacy_user_keywords A u s1
           in if keywords = {||} then (Inr None, s1)
              else
                let matched = ffilter (\<lambda>k. k \<in> set (split_ws (lower text))) keywords
                in if matched = {||} then (Inr None, s1)
                   else
                     let keyword = pick matched;
                         alert = legacy_alert now (of_id f) (of_name f) keyword (of_group f) (of_chat f)
                                   (snippet_of text (lower text) keyword) u;
                         s2 = add_ocr_alert A u alert s1
                     in if ''send_personal_message'' \<in> set methods then (Inr (Some (u, alert)), s2)
                        else (Inl AttributeError, s2))"

fun check_users ::
  "'s alert_redis \<Rightarrow> string list \<Rightarrow> (string fset \<Rightarrow> string) \<Rightarrow> instant \<Rightarrow> ocr_file \<Rightarrow> string \<Rightarrow> int list \<Rightarrow> 's
     \<Rightarrow> (int \<times> payload) list \<times> unit res \<times> 's" where
  "check_users A methods pick now f text [] s = ([], Inr (), s)"
| "check_users A methods pick now f text (u # us) s =
     (case check_user A methods pick now f text u s of
        (Inl e, s1) \<Rightarrow> ([], Inl e, s1)
      | (Inr sent, s1) \<Rightarrow>
          let (rest, r, s2) = check_users A methods pick now f text us s1
          in ((case sent of None \<Rightarrow> rest | Some a \<Rightarrow> a # rest), r, s2))"

text \<open>
  The task: the alerts sent, how it ended, the Redis state, and whether the temporary file was
  removed, which only a task that reaches its end does.
\<close>

definition legacy_process_ocr ::
  "'s alert_redis \<Rightarrow> string list \<Rightarrow> (string fset \<Rightarrow> string) \<Rightarrow> (int set \<Rightarrow> int list) \<Rightarrow> instant \<Rightarrow> legacy_chats
     \<Rightarrow> ocr_file \<Rightarrow> string \<Rightarrow> int \<Rightarrow> 's \<Rightarrow> ((int \<times> payload) list \<times> unit res \<times> 's) \<times> bool" where
  "legacy_process_ocr A methods pick order now d f file_path uploader s =
     (let text = legacy_extract_text file_path;
          out = check_users A methods pick now f text (order (users_to_check d uploader (of_chat f) (of_group f))) s
      in (out, case out of (_, Inr _, _) \<Rightarrow> True | _ \<Rightarrow> False))"

subsection \<open>The upload route\<close>

text \<open>\<^verbatim>\<open>os.path.splitext(name)[1]\<close>\<close>

definition splitext :: "string \<Rightarrow> string" where
  "splitext name =
     (let base = rev (takeWhile (\<lambda>c. c \<noteq> CHR ''/'') (rev name));
          ext = rev (takeWhile (\<lambda>c. c \<noteq> CHR ''.'') (rev base));
          stem = take (length base - length ext - 1) base
      in if CHR ''.'' \<in> set base \<and> (\<exists>c\<in>set stem. c \<noteq> CHR ''.'') then CHR ''.'' # ext else [])"

definition LEGACY_MEDIA_GLOBALS :: "string list" where
  "LEGACY_MEDIA_GLOBALS = [''APIRouter'', ''Depends'', ''File'', ''Form'', ''HTTPException'', ''UploadFile'', ''status'',
     ''Session'', ''List'', ''Optional'', ''uuid'', ''asyncio'', ''deps'', ''get_redis'', ''redis_conn'', ''minio_client'',
     ''BUCKET_NAME'', ''Chat'', ''User'', ''GroupMember'', ''manager'', ''json'', ''os'', ''datetime'', ''timedelta'',
     ''router'', ''OCR_DEBOUNCE_SECONDS'', ''OCR_ALERT_HISTORY_LIMIT'', ''OCR_ALERT_HISTORY_TTL'', ''extract_text'',
     ''get_user_keywords'', ''add_ocr_alert'', ''is_ocr_debounced'', ''process_ocr'', ''upload_media'']"

text \<open>
  The object store and the temporary directory are handlers that may fail; \<open>ue_text\<close> is the text
  of an exception. The answer carries the arguments of the task that was started.
\<close>

record ('o, 'f) upload_env =
  ue_put :: "string \<Rightarrow> string \<Rightarrow> string \<Rightarrow> ('o, unit) handler"
  ue_remove :: "string \<Rightarrow> ('o, unit) handler"
  ue_write :: "string \<Rightarrow> string \<Rightarrow> ('f, unit) handler"
  ue_text :: "error \<Rightarrow> string"

definition upload_media ::
  "string list \<Rightarrow> ('o, 'f) upload_env \<Rightarrow> uuid \<Rightarrow> string \<Rightarrow> string \<Rightarrow> string \<Rightarrow> int option \<Rightarrow> int option \<Rightarrow> int
     \<Rightarrow> ('o \<times> 'f, payload \<times> ocr_file \<times> string \<times> int) handler" where
  "upload_media globals env new_id filename content_type content chat_id group_id current_user w =
     (let file_id = uuid_str new_id;
          object_name = file_id @ splitext filename;
          temp_file_path = ''/tmp/'' @ object_name
      in case with_name globals ''io'' (ue_put env object_name content content_type) (fst w) of
           (Inl e, o1) \<Rightarrow> (Inl (HTTPException 500 (''Failed to upload file to MinIO: '' @ ue_text env e)), (o1, snd w))
         | (Inr _, o1) \<Rightarrow>
             (case ue_write env temp_file_path content (snd w) of
                (Inl e, f1) \<Rightarrow>
                  (case ue_remove env object_name o1 of
                     (Inl e', o2) \<Rightarrow> (Inl e', (o2, f1))
                   | (Inr _, o2) \<Rightarrow>
                       (Inl (HTTPException 500 (''Failed to create temporary file: '' @ ue_text env e)), (o2, f1)))
              | (Inr _, f1) \<Rightarrow>
                  (Inr ([(''file_id'', JStr file_id), (''object_name'', JStr object_name),
                         (''message'', JStr ''File uploaded successfully. OCR processing started.'')],
                        \<lparr>of_id = file_id, of_name = filename, of_chat = chat_id, of_group = group_id\<rparr>,
                        temp_file_path, current_user),
                   (o1, f1))))"

section \<open>Histories and debouncing\<close>

lemma legacy_keys [key_simps]:
  "history_key u = history_key v \<longleftrightarrow> u = v" "legacy_keywords_key u = legacy_keywords_key v \<longleftrightarrow> u = v"
  "debounce_key f u = debounce_key f v \<longleftrightarrow> u = v"
  "history_key u \<noteq> debounce_key f v" "debounce_key f v \<noteq> history_key u"
  "legacy_keywords_key u \<noteq> debounce_key f v" "debounce_key f v \<noteq> legacy_keywords_key u"
  by (simp_all add: history_key_def legacy_keywords_key_def debounce_key_def)

lemma str_int_cut: "str_int u @ CHR '':'' # x = str_int v @ CHR '':'' # y \<longleftrightarrow> u = v \<and> x = y"
proof
  assume eq: "str_int u @ CHR '':'' # x = str_int v @ CHR '':'' # y"
  have "takeWhile (\<lambda>c. c \<noteq> CHR '':'') (str_int w @ CHR '':'' # z) = str_int w" for w z
    using slash_not_in_str_int(2) [of w] by (subst takeWhile_append2) auto
  from this [of u x] this [of v y] eq show "u = v \<and> x = y" by simp
qed simp

lemma history_keywords [key_simps]:
  "history_key u \<noteq> legacy_keywords_key v" "legacy_keywords_key v \<noteq> history_key u"
  by (auto simp: history_key_def legacy_keywords_key_def str_int_cut)

lemma debounce_key_user: "u \<noteq> v \<Longrightarrow> debounce_key f u \<noteq> debounce_key g v"
proof
  assume "u \<noteq> v" and "debounce_key f u = debounce_key g v"
  then have "rev (str_int u) @ CHR '':'' # rev f = rev (str_int v) @ CHR '':'' # rev g"
    by (simp add: debounce_key_def) (metis rev_append rev.simps(2) append_assoc append.simps rev_rev_ident)
  moreover have "takeWhile (\<lambda>c. c \<noteq> CHR '':'') (rev (str_int w) @ CHR '':'' # z) = rev (str_int w)" for w z
    using slash_not_in_str_int(2) [of w] by (subst takeWhile_append2) auto
  ultimately have "rev (str_int u) = rev (str_int v)" by metis
  with \<open>u \<noteq> v\<close> show False by simp
qed

definition histories_ok :: "('s \<Rightarrow> string \<Rightarrow> bool) \<Rightarrow> ('s \<Rightarrow> string \<Rightarrow> string list) \<Rightarrow> 's \<Rightarrow> bool" where
  "histories_ok used items s \<longleftrightarrow>
     (\<forall>u. items s (legacy_keywords_key u) = [] \<and> (items s (history_key u) \<noteq> [] \<or> \<not> used s (history_key u)))"

lemma take_append_take: "take n (xs @ take n ys) = take n (xs @ ys)"
  by (simp add: min_def)

context redis_lists
begin

lemma add_alert_views:
  assumes "items s (history_key u) \<noteq> [] \<or> \<not> used s (history_key u)"
  shows "items (add_ocr_alert A u alert s) =
      (items s)(history_key u := take OCR_ALERT_HISTORY_LIMIT (dumps (JObj alert) # items s (history_key u)))"
    and "used (add_ocr_alert A u alert s) = (used s)(history_key u := True)"
    and "members (add_ocr_alert A u alert s) = members s"
    and "ttl (add_ocr_alert A u alert s) = (ttl s)(history_key u \<mapsto> OCR_ALERT_HISTORY_TTL * 1000)"
  using assms
  by (simp_all add: add_ocr_alert_def Let_def list_laws OCR_ALERT_HISTORY_LIMIT_def OCR_ALERT_HISTORY_TTL_def del: dumps.simps)

lemma add_alert_ok: "histories_ok used items s \<Longrightarrow> histories_ok used items (add_ocr_alert A u alert s)"
  by (simp add: histories_ok_def add_alert_views OCR_ALERT_HISTORY_LIMIT_def key_simps del: dumps.simps)

lemma history_after:
  "histories_ok used items s \<Longrightarrow>
     items (fold (\<lambda>(u, a). add_ocr_alert A u a) alerts s) (history_key u) =
       (if \<exists>a. (u, a) \<in> set alerts
        then take OCR_ALERT_HISTORY_LIMIT (rev (map (\<lambda>x. dumps (JObj (snd x))) (filter (\<lambda>x. fst x = u) alerts)) @ items s (history_key u))
        else items s (history_key u))"
proof (induction alerts arbitrary: s)
  case (Cons x alerts)
  obtain v a where x: "x = (v, a)" by (cases x)
  have step: "items (add_ocr_alert A v a s) (history_key u) =
      (if u = v then take OCR_ALERT_HISTORY_LIMIT (dumps (JObj a) # items s (history_key u)) else items s (history_key u))"
    using Cons.prems by (simp add: histories_ok_def add_alert_views key_simps del: dumps.simps)
  have none: "filter (\<lambda>x. fst x = u) alerts = []" if "\<nexists>a. (u, a) \<in> set alerts"
    using that by (auto simp: filter_empty_conv)
  note IH = Cons.IH [OF add_alert_ok [OF Cons.prems, of v a]]
  show ?case
  proof (cases "u = v")
    case True
    with IH step none show ?thesis
      by (cases "\<exists>a. (u, a) \<in> set alerts") (auto simp: x take_append_take simp del: dumps.simps)
  next
    case False
    with IH step show ?thesis by (simp add: x del: dumps.simps)
  qed
qed simp

lemma debounce_views:
  "is_ocr_debounced A f u s =
     (if used s (debounce_key f u) then (True, s) else (False, a_setex A (debounce_key f u) OCR_DEBOUNCE_SECONDS ''1'' s))"
  "used (a_setex A (debounce_key f u) OCR_DEBOUNCE_SECONDS v s) = (used s)(debounce_key f u := True)"
  "members (a_setex A (debounce_key f u) OCR_DEBOUNCE_SECONDS v s) = (members s)(debounce_key f u := {||})"
  "items (a_setex A (debounce_key f u) OCR_DEBOUNCE_SECONDS v s) = (items s)(debounce_key f u := [])"
  "ttl (a_setex A (debounce_key f u) OCR_DEBOUNCE_SECONDS v s) = (ttl s)(debounce_key f u \<mapsto> 5000)"
  by (simp_all add: is_ocr_debounced_def list_laws Let_def OCR_DEBOUNCE_SECONDS_def)

lemma debounce_ok:
  "histories_ok used items s \<Longrightarrow> histories_ok used items (snd (is_ocr_debounced A f u s))"
  by (simp add: debounce_views histories_ok_def key_simps)

end

text \<open>Whom the task alerts: users who are not debounced and one of whose keywords is a word of the text.\<close>

definition ocr_matches :: "'s alert_redis \<Rightarrow> string \<Rightarrow> int \<Rightarrow> 's \<Rightarrow> string fset" where
  "ocr_matches A text u s = ffilter (\<lambda>k. k \<in> set (split_ws (lower text))) (legacy_user_keywords A u s)"

definition to_alert :: "'s alert_redis \<Rightarrow> string \<Rightarrow> string \<Rightarrow> 's \<Rightarrow> int \<Rightarrow> bool" where
  "to_alert A file_id text s u \<longleftrightarrow> \<not> a_exists A (debounce_key file_id u) s \<and> ocr_matches A text u s \<noteq> {||}"

definition alert_for ::
  "'s alert_redis \<Rightarrow> (string fset \<Rightarrow> string) \<Rightarrow> instant \<Rightarrow> ocr_file \<Rightarrow> string \<Rightarrow> 's \<Rightarrow> int \<Rightarrow> int \<times> payload" where
  "alert_for A pick now f text s u =
     (let k = pick (ocr_matches A text u s)
      in (u, legacy_alert now (of_id f) (of_name f) k (of_group f) (of_chat f) (snippet_of text (lower text) k) u))"

lemma fst_alert_for [simp]: "fst (alert_for A pick now f text s u) = u"
  by (simp add: alert_for_def Let_def)

context redis_lists
begin

lemma keywords_kept:
  assumes "histories_ok used items s"
  shows "legacy_user_keywords A v (a_setex A (debounce_key f u) OCR_DEBOUNCE_SECONDS x s) = legacy_user_keywords A v s"
    and "legacy_user_keywords A v (add_ocr_alert A u alert s) = legacy_user_keywords A v s"
  using assms by (simp_all add: legacy_user_keywords_def histories_ok_def smembers debounce_views add_alert_views key_simps)

lemma setex_ok:
  "histories_ok used items s \<Longrightarrow> histories_ok used items (a_setex A (debounce_key f u) OCR_DEBOUNCE_SECONDS x s)"
  by (simp add: debounce_views histories_ok_def key_simps)

lemma check_user_out:
  assumes "histories_ok used items s"
  shows "fst (check_user A methods pick now f text u s) =
      (if \<not> to_alert A (of_id f) text s u then Inr None
       else if ''send_personal_message'' \<in> set methods then Inr (Some (alert_for A pick now f text s u))
       else Inl AttributeError)"
  by (auto simp: check_user_def debounce_views to_alert_def exists_iff Let_def keywords_kept(1) [OF assms]
      ocr_matches_def alert_for_def)

lemma check_user_state:
  assumes "histories_ok used items s" and "s' = snd (check_user A methods pick now f text u s)"
  shows "histories_ok used items s'"
    and "v \<noteq> u \<Longrightarrow> used s' (debounce_key g v) = used s (debounce_key g v)"
    and "legacy_user_keywords A v s' = legacy_user_keywords A v s"
proof -
  let ?s1 = "a_setex A (debounce_key (of_id f) u) OCR_DEBOUNCE_SECONDS ''1'' s"
  have ok1: "histories_ok used items ?s1" by (rule setex_ok [OF assms(1)])
  let ?a = "snd (alert_for A pick now f text s u)"
  have outcome: "s' = s \<or> s' = ?s1 \<or> s' = add_ocr_alert A u ?a ?s1"
    unfolding assms(2)
    by (simp add: check_user_def debounce_views Let_def keywords_kept(1) [OF assms(1)] ocr_matches_def alert_for_def)
  from outcome consider "s' = s" | "s' = ?s1" | "s' = add_ocr_alert A u ?a ?s1" by blast
  then show "histories_ok used items s'"
    using assms(1) ok1 add_alert_ok [OF ok1] by cases simp_all
  show "legacy_user_keywords A v s' = legacy_user_keywords A v s"
    using outcome keywords_kept [OF assms(1)] keywords_kept(2) [OF ok1] by auto
  show "used s' (debounce_key g v) = used s (debounce_key g v)" if "v \<noteq> u"
  proof -
    have "debounce_key g v \<noteq> debounce_key (of_id f) u"
      using that by (rule debounce_key_user)
    with outcome ok1 show ?thesis
      by (auto simp: debounce_views add_alert_views histories_ok_def key_simps)
  qed
qed

lemma check_user_others:
  assumes "histories_ok used items s" and "s' = snd (check_user A methods pick now f text u s)" and "v \<noteq> u"
  shows "to_alert A g text s' v = to_alert A g text s v" "alert_for A pick now f text s' v = alert_for A pick now f text s v"
  using check_user_state [OF assms(1,2)] assms(3) by (simp_all add: to_alert_def alert_for_def ocr_matches_def exists_iff)

lemma check_users_sent:
  assumes "histories_ok used items s" and "distinct us" and "''send_personal_message'' \<in> set methods"
  shows "\<exists>s'. check_users A methods pick now f text us s =
    (map (alert_for A pick now f text s) (filter (to_alert A (of_id f) text s) us), Inr (), s')"
  using assms(1,2)
proof (induction us arbitrary: s)
  case (Cons u us)
  obtain r s1 where step: "check_user A methods pick now f text u s = (r, s1)" by fastforce
  have r: "r = (if to_alert A (of_id f) text s u then Inr (Some (alert_for A pick now f text s u)) else Inr None)"
    using check_user_out [OF Cons.prems(1), of methods pick now f "text" u] assms(3) by (simp add: step)
  have s1: "s1 = snd (check_user A methods pick now f text u s)" by (simp add: step)
  have same: "to_alert A (of_id f) text s1 v = to_alert A (of_id f) text s v"
    "alert_for A pick now f text s1 v = alert_for A pick now f text s v" if "v \<in> set us" for v
    using check_user_others [OF Cons.prems(1) s1, of v] that Cons.prems(2) by auto
  have "filter (to_alert A (of_id f) text s1) us = filter (to_alert A (of_id f) text s) us"
    by (rule filter_cong) (simp_all add: same)
  moreover have "map (alert_for A pick now f text s1) (filter (to_alert A (of_id f) text s) us) =
      map (alert_for A pick now f text s) (filter (to_alert A (of_id f) text s) us)"
    by (simp add: same)
  moreover obtain s' where "check_users A methods pick now f text us s1 =
      (map (alert_for A pick now f text s1) (filter (to_alert A (of_id f) text s1) us), Inr (), s')"
    using Cons.IH [OF check_user_state(1) [OF Cons.prems(1) s1]] Cons.prems(2) by auto
  ultimately show ?case by (simp add: step r)
qed simp

lemma check_users_unsent:
  assumes "histories_ok used items s" and "distinct us" and "''send_personal_message'' \<notin> set methods"
  shows "\<exists>s'. check_users A methods pick now f text us s =
    ([], if filter (to_alert A (of_id f) text s) us = [] then Inr () else Inl AttributeError, s')"
  using assms(1,2)
proof (induction us arbitrary: s)
  case (Cons u us)
  obtain r s1 where step: "check_user A methods pick now f text u s = (r, s1)" by fastforce
  have r: "r = (if to_alert A (of_id f) text s u then Inl AttributeError else Inr None)"
    using check_user_out [OF Cons.prems(1), of methods pick now f "text" u] assms(3) by (simp add: step)
  have s1: "s1 = snd (check_user A methods pick now f text u s)" by (simp add: step)
  have "filter (to_alert A (of_id f) text s1) us = filter (to_alert A (of_id f) text s) us"
  proof (rule filter_cong)
    fix v assume "v \<in> set us"
    with Cons.prems(2) show "to_alert A (of_id f) text s1 v = to_alert A (of_id f) text s v"
      by (intro check_user_others(1) [OF Cons.prems(1) s1]) auto
  qed simp
  moreover obtain s' where "check_users A methods pick now f text us s1 =
      ([], if filter (to_alert A (of_id f) text s1) us = [] then Inr () else Inl AttributeError, s')"
    using Cons.IH [OF check_user_state(1) [OF Cons.prems(1) s1]] Cons.prems(2) by auto
  ultimately show ?case by (simp add: step r)
qed simp

end

section \<open>Snippets\<close>

lemma find_sub_take: "find_sub sub s = Some i \<Longrightarrow> take (length sub) (drop i s) = sub \<and> i + length sub \<le> length s"
proof (induction s arbitrary: i)
  case (Cons c cs)
  show ?case
  proof (cases "starts_with (c # cs) sub")
    case True
    then have "length sub \<le> length (c # cs)" by (metis starts_with_def length_take min.cobounded1)
    with True Cons.prems show ?thesis by (simp add: starts_with_def)
  next
    case False
    then obtain j where "find_sub sub cs = Some j" "i = Suc j" using Cons.prems by auto
    with Cons.IH show ?thesis by simp
  qed
qed (simp split: if_splits)

lemma find_sub_found: "contains sub s \<Longrightarrow> find_sub sub s \<noteq> None"
  by (induction s) auto

lemma split_ws_contains: "w \<in> set (split_ws s) \<Longrightarrow> contains w s"
proof (induction s rule: split_ws.induct)
  case (2 c cs)
  show ?case
  proof (cases "is_space c")
    case True
    then have "contains w cs" using 2(1) 2(3) by simp
    then obtain a b where "cs = a @ w @ b" by (auto simp: contains_iff)
    then have "c # cs = (c # a) @ w @ b" by simp
    then show ?thesis unfolding contains_iff by blast
  next
    case False
    let ?P = "\<lambda>x. \<not> is_space x"
    consider "w = takeWhile ?P (c # cs)" | "w \<in> set (split_ws (dropWhile ?P cs))" using 2(3) False by auto
    then show ?thesis
    proof cases
      case 1
      then have "c # cs = [] @ w @ dropWhile ?P (c # cs)" by simp
      then show ?thesis unfolding contains_iff by blast
    next
      case 2
      then have "contains w (dropWhile ?P cs)" using "2.IH"(2) False by simp
      then obtain a b where "dropWhile ?P cs = a @ w @ b" by (auto simp: contains_iff)
      then have "c # cs = (c # takeWhile ?P cs @ a) @ w @ b"
        using takeWhile_dropWhile_id [of ?P cs] by simp
      then show ?thesis unfolding contains_iff by blast
    qed
  qed
qed simp

lemma snippet_contains:
  assumes "find_sub k (lower text) = Some i"
  shows "\<exists>u v. lower (snippet_of text (lower text) k) = u @ k @ v"
proof -
  let ?t = "lower text"
  have k: "take (length k) (drop i ?t) = k" and le: "i + length k \<le> length ?t"
    using find_sub_take [OF assms] by auto
  let ?stop = "min (length text) (i + length k + 20)"
  have len: "length ?t = length text" by (simp add: lower_def)
  have stop: "i + length k \<le> ?stop" using le len by simp
  have "take ?stop ?t = take i ?t @ k @ take (?stop - i - length k) (drop (i + length k) ?t)"
  proof -
    have "take ?stop ?t = take (i + (length k + (?stop - i - length k))) ?t" using stop by simp
    also have "\<dots> = take i ?t @ take (length k + (?stop - i - length k)) (drop i ?t)" by (rule take_add)
    also have "take (length k + (?stop - i - length k)) (drop i ?t) =
        k @ take (?stop - i - length k) (drop (i + length k) ?t)"
      by (simp add: take_add k add.commute)
    finally show ?thesis .
  qed
  then have "drop (i - 20) (take ?stop ?t) = drop (i - 20) (take i ?t) @ k @ take (?stop - i - length k) (drop (i + length k) ?t)"
    using le by simp
  moreover have "lower (snippet_of text ?t k) = drop (i - 20) (take ?stop ?t)"
    using assms by (simp add: snippet_of_def lower_def drop_map take_map)
  ultimately show ?thesis by metis
qed

lemma snippet_length: "find_sub k (lower text) = Some i \<Longrightarrow> length (snippet_of text (lower text) k) \<le> length k + 40"
  by (simp add: snippet_of_def)

lemma splitext_no_slash: "CHR ''/'' \<notin> set (splitext name)"
proof -
  have "CHR ''/'' \<notin> set (takeWhile (\<lambda>c. c \<noteq> CHR ''/'') (rev name))" by (auto dest: set_takeWhileD)
  then show ?thesis by (auto simp: splitext_def Let_def dest: set_takeWhileD)
qed

section \<open>The reference store\<close>

datatype aval = AStr string | ASet "string fset" | AList "string list"

type_synonym astore = "string \<Rightarrow> (aval \<times> nat option) option"

definition ref_used :: "astore \<Rightarrow> string \<Rightarrow> bool" where
  "ref_used s k \<longleftrightarrow> s k \<noteq> None"

definition ref_aset :: "astore \<Rightarrow> string \<Rightarrow> string fset" where
  "ref_aset s k = (case s k of Some (ASet f, _) \<Rightarrow> f | _ \<Rightarrow> {||})"

definition ref_items :: "astore \<Rightarrow> string \<Rightarrow> string list" where
  "ref_items s k = (case s k of Some (AList xs, _) \<Rightarrow> xs | _ \<Rightarrow> [])"

definition ref_attl :: "astore \<Rightarrow> string \<Rightarrow> nat option" where
  "ref_attl s k = (case s k of Some (_, t) \<Rightarrow> t | None \<Rightarrow> None)"

definition ref_lists :: "astore alert_redis" where
  "ref_lists = \<lparr>
     a_exists = (\<lambda>k s. ref_used s k),
     a_setex = (\<lambda>k n v s. s(k \<mapsto> (AStr v, Some (n * 1000)))),
     a_smembers = (\<lambda>k s. ref_aset s k),
     a_lpush = (\<lambda>k v s. s(k \<mapsto> (AList (v # ref_items s k), ref_attl s k))),
     a_ltrim = (\<lambda>k a b s. case take (Suc b - a) (drop a (ref_items s k)) of
                  [] \<Rightarrow> s(k := None) | xs \<Rightarrow> s(k \<mapsto> (AList xs, ref_attl s k))),
     a_expire = (\<lambda>k n s. case s k of None \<Rightarrow> s | Some (v, _) \<Rightarrow> s(k \<mapsto> (v, Some (n * 1000)))),
     a_elapse = (\<lambda>n s k. case s k of Some (v, Some t) \<Rightarrow> if t \<le> n then None else Some (v, Some (t - n)) | x \<Rightarrow> x) \<rparr>"

lemmas ref_list_defs = ref_lists_def ref_used_def ref_aset_def ref_items_def ref_attl_def

lemma ref_list_sel [simp]:
  "a_exists ref_lists k s = ref_used s k" "a_smembers ref_lists k s = ref_aset s k"
  "a_setex ref_lists k n v s = s(k \<mapsto> (AStr v, Some (n * 1000)))"
  "a_lpush ref_lists k v s = s(k \<mapsto> (AList (v # ref_items s k), ref_attl s k))"
  by (simp_all add: ref_lists_def)

lemma ref_list_upd [simp]:
  "ref_used (s(k \<mapsto> x)) = (ref_used s)(k := True)"
  "ref_aset (s(k \<mapsto> (v, t))) = (ref_aset s)(k := (case v of ASet f \<Rightarrow> f | _ \<Rightarrow> {||}))"
  "ref_items (s(k \<mapsto> (v, t))) = (ref_items s)(k := (case v of AList xs \<Rightarrow> xs | _ \<Rightarrow> []))"
  "ref_attl (s(k \<mapsto> (v, t))) = (ref_attl s)(k := t)"
  by (simp_all add: fun_eq_iff ref_used_def ref_aset_def ref_items_def ref_attl_def)

lemma ref_items_used: "ref_items s k \<noteq> [] \<Longrightarrow> ref_used s k" "ref_items s k \<noteq> [] \<Longrightarrow> ref_aset s k = {||}"
  "\<not> ref_used s k \<Longrightarrow> ref_aset s k = {||}"
  by (auto simp: ref_used_def ref_aset_def ref_items_def split: option.splits aval.splits)

lemma ref_trim_sel [simp]:
  assumes "ref_items s k \<noteq> []"
  shows "a_ltrim ref_lists k 0 n s = s(k \<mapsto> (AList (take (Suc n) (ref_items s k)), ref_attl s k))"
  using assms by (simp add: ref_lists_def split: list.splits)

lemma ref_list_expire_used: "ref_used (a_expire ref_lists k n s) = ref_used s"
  by (simp add: ref_lists_def ref_used_def fun_eq_iff split: option.splits)

lemma ref_list_expire:
  "ref_aset (a_expire ref_lists k n s) = ref_aset s" "ref_items (a_expire ref_lists k n s) = ref_items s"
  "ref_used s k \<Longrightarrow> ref_attl (a_expire ref_lists k n s) = (ref_attl s)(k \<mapsto> n * 1000)"
  by (cases "s k"; simp add: ref_lists_def ref_used_def case_prod_beta; simp add: fun_eq_iff ref_aset_def ref_items_def)+

lemma ref_list_elapse:
  "ref_used (a_elapse ref_lists n s) k \<longleftrightarrow> ref_used s k \<and> (case ref_attl s k of None \<Rightarrow> True | Some t \<Rightarrow> n < t)"
  "ref_items (a_elapse ref_lists n s) k =
     (case ref_attl s k of None \<Rightarrow> ref_items s k | Some t \<Rightarrow> if n < t then ref_items s k else [])"
  "ref_attl (a_elapse ref_lists n s) k =
     (case ref_attl s k of None \<Rightarrow> None | Some t \<Rightarrow> if n < t then Some (t - n) else None)"
  by (simp_all add: ref_list_defs split: option.splits)

interpretation rl: redis_lists ref_lists ref_used ref_aset ref_items ref_attl
  by unfold_locales
    (auto simp: ref_list_expire_used ref_list_expire ref_list_elapse ref_items_used fun_upd_idem simp del: fun_upd_apply)

section \<open>Properties\<close>

text \<open>
  C40. Under every interleaving of alerts for any users, the history of a user is exactly the last
  fifty alerts for that user, newest first, before what the history already held, and adding
  alerts never makes a history longer than fifty.
\<close>

theorem alert_history_bounded:
  assumes "redis_lists A used members items ttl" and "histories_ok used items s"
    and "s' = fold (\<lambda>(u, a). add_ocr_alert A u a) alerts s"
  shows "items s' (history_key u) =
      (let new = rev (map (\<lambda>x. dumps (JObj (snd x))) (filter (\<lambda>x. fst x = u) alerts)); old = items s (history_key u)
       in if new = [] then old else take 50 (new @ old)) \<and>
    (length (items s (history_key u)) \<le> 50 \<longrightarrow> length (items s' (history_key u)) \<le> 50)"
proof -
  have iff: "filter (\<lambda>x. fst x = u) alerts = [] \<longleftrightarrow> \<not> (\<exists>a. (u, a) \<in> set alerts)"
    by (auto simp: filter_empty_conv)
  show ?thesis
    unfolding assms(3) redis_lists.history_after [OF assms(1,2)] Let_def
    by (auto simp: iff OCR_ALERT_HISTORY_LIMIT_def simp del: dumps.simps)
qed

text \<open>
  Debouncing: a file and user seen for the first time are let through and marked; the next check of
  the same pair is skipped for five seconds and not after; other users of the same file are not affected.
\<close>

theorem debounce_window:
  assumes "redis_lists A used members items ttl" and "is_ocr_debounced A f u s = (False, s1)"
  shows "(fst (is_ocr_debounced A f u (a_elapse A ms s1)) \<longleftrightarrow> ms < 5000) \<and>
    (v \<noteq> u \<longrightarrow> fst (is_ocr_debounced A f v s1) = fst (is_ocr_debounced A f v s))"
proof -
  note views = redis_lists.debounce_views [OF assms(1)]
  have s1: "s1 = a_setex A (debounce_key f u) OCR_DEBOUNCE_SECONDS ''1'' s"
    using assms(2) by (simp add: views(1) split: if_splits)
  show ?thesis
    unfolding s1 by (simp add: views redis_lists.used_elapse [OF assms(1)] legacy_keys(3))
qed

text \<open>
  Whom the task alerts, once the connection manager can send to a user: exactly the users in
  scope (the members of the group, the other user of the direct chat, or the uploader of a file sent to
  no chat) who are not debounced and one of whose keywords is a word of the text, each once, and the
  temporary file is removed.
\<close>

theorem ocr_alerts_sent:
  assumes "redis_lists A used members items ttl" and "histories_ok used items s"
    and "''send_personal_message'' \<in> set methods"
    and "set (order (users_to_check d uploader (of_chat f) (of_group f))) = users_to_check d uploader (of_chat f) (of_group f)"
    and "distinct (order (users_to_check d uploader (of_chat f) (of_group f)))"
    and "legacy_process_ocr A methods pick order now d f path uploader s = ((sent, r, s'), removed)"
  shows "r = Inr () \<and> removed \<and> distinct (map fst sent) \<and>
    set (map fst sent) =
      {u. (case (of_group f, of_chat f) of
             (Some g, _) \<Rightarrow> (g, u) \<in> set (lc_group_members d)
           | (None, Some c) \<Rightarrow> u \<noteq> uploader \<and> (case scalar (\<lambda>x. fst x = c) (lc_chats d) of
                 Some (_, a, b) \<Rightarrow> u = a \<or> u = b | None \<Rightarrow> False)
           | (None, None) \<Rightarrow> u = uploader) \<and>
          to_alert A (of_id f) (legacy_extract_text path) s u}"
proof -
  let ?us = "order (users_to_check d uploader (of_chat f) (of_group f))" and ?text = "legacy_extract_text path"
  have scope: "u \<in> users_to_check d uploader (of_chat f) (of_group f) \<longleftrightarrow>
      (case (of_group f, of_chat f) of
         (Some g, _) \<Rightarrow> (g, u) \<in> set (lc_group_members d)
       | (None, Some c) \<Rightarrow> u \<noteq> uploader \<and> (case scalar (\<lambda>x. fst x = c) (lc_chats d) of
             Some (_, a, b) \<Rightarrow> u = a \<or> u = b | None \<Rightarrow> False)
       | (None, None) \<Rightarrow> u = uploader)" for u
    by (auto simp: users_to_check_def image_iff split: option.splits)
  have ids: "map fst (map (alert_for A pick now f ?text s) us) = us" for us
    by (simp add: comp_def)
  obtain s2 where "check_users A methods pick now f ?text ?us s =
      (map (alert_for A pick now f ?text s) (filter (to_alert A (of_id f) ?text s) ?us), Inr (), s2)"
    using redis_lists.check_users_sent [OF assms(1,2,5,3)] by blast
  then have "sent = map (alert_for A pick now f ?text s) (filter (to_alert A (of_id f) ?text s) ?us)" "r = Inr ()" "removed"
    using assms(6) by (auto simp: legacy_process_ocr_def Let_def)
  then show ?thesis
    using assms(4,5) unfolding ids by (auto simp: ids scope simp del: map_map)
qed

text \<open>
  The connection manager has no \<^verbatim>\<open>send_personal_message\<close>: with the manager as it is no alert is ever
  sent, the task ends with an \<open>AttributeError\<close> at the first user to alert, and the temporary file is removed
  only when nobody was to be alerted.
\<close>

theorem ocr_alert_never_sent:
  assumes "redis_lists A used members items ttl" and "histories_ok used items s"
    and "set (order (users_to_check d uploader (of_chat f) (of_group f))) = users_to_check d uploader (of_chat f) (of_group f)"
    and "distinct (order (users_to_check d uploader (of_chat f) (of_group f)))"
    and "legacy_process_ocr A MANAGER_METHODS pick order now d f path uploader s = ((sent, r, s'), removed)"
  shows "sent = [] \<and>
    (if \<exists>u\<in>users_to_check d uploader (of_chat f) (of_group f). to_alert A (of_id f) (legacy_extract_text path) s u
     then r = Inl AttributeError \<and> \<not> removed else r = Inr () \<and> removed)"
proof -
  let ?us = "order (users_to_check d uploader (of_chat f) (of_group f))" and ?text = "legacy_extract_text path"
  have "''send_personal_message'' \<notin> set MANAGER_METHODS" by (simp add: MANAGER_METHODS_def)
  from redis_lists.check_users_unsent [OF assms(1,2,4) this]
  obtain s2 where run: "check_users A MANAGER_METHODS pick now f ?text ?us s =
      ([], if filter (to_alert A (of_id f) ?text s) ?us = [] then Inr () else Inl AttributeError, s2)"
    by blast
  have "filter (to_alert A (of_id f) ?text s) ?us = [] \<longleftrightarrow>
      \<not> (\<exists>u\<in>users_to_check d uploader (of_chat f) (of_group f). to_alert A (of_id f) ?text s u)"
    using assms(3) by (simp add: filter_empty_conv)
  then show ?thesis
    using assms(5) run by (auto simp: legacy_process_ocr_def Let_def split: if_splits)
qed

text \<open>
  The snippet of an alert: it contains the matched keyword, up to letter case, and is at most forty
  characters longer than it.
\<close>

theorem snippet_around_keyword:
  assumes "k \<in> set (split_ws (lower text))"
  shows "contains k (lower (snippet_of text (lower text) k)) \<and>
    length (snippet_of text (lower text) k) \<le> length k + 40 \<and>
    contains (snippet_of text (lower text) k) text"
proof -
  obtain i where i: "find_sub k (lower text) = Some i"
    using find_sub_found [OF split_ws_contains [OF assms]] by blast
  let ?stop = "min (length text) (i + length k + 20)"
  have "text = take (i - 20) (take ?stop text) @ drop (i - 20) (take ?stop text) @ drop ?stop text"
    by (simp only: append_assoc [symmetric] append_take_drop_id)
  then show ?thesis
    using snippet_contains [OF i] snippet_length [OF i] i
    unfolding contains_iff by (simp add: snippet_of_def Let_def) blast
qed

text \<open>
  The module does not import \<^verbatim>\<open>io\<close>, so as it is every upload ends with status 500 before anything is
  stored. With the name bound, an upload that succeeds stores the content under the fresh identifier with the
  extension of the file name, a name without a slash, so that the temporary file stays in \<^verbatim>\<open>/tmp\<close>; when
  the temporary file cannot be written the object is removed again.
\<close>

theorem legacy_upload:
  "upload_media LEGACY_MEDIA_GLOBALS env i name ct content chat gid u w =
     (Inl (HTTPException 500 (''Failed to upload file to MinIO: '' @ ue_text env (NameError ''io''))), w) \<and>
   (let obj = uuid_str i @ splitext name in
    CHR ''/'' \<notin> set obj \<and>
    upload_media (''io'' # LEGACY_MEDIA_GLOBALS) env i name ct content chat gid u w =
      (case ue_put env obj content ct (fst w) of
         (Inl e, o1) \<Rightarrow> (Inl (HTTPException 500 (''Failed to upload file to MinIO: '' @ ue_text env e)), (o1, snd w))
       | (Inr _, o1) \<Rightarrow>
           (case ue_write env (''/tmp/'' @ obj) content (snd w) of
              (Inr _, f1) \<Rightarrow>
                (Inr ([(''file_id'', JStr (uuid_str i)), (''object_name'', JStr obj),
                       (''message'', JStr ''File uploaded successfully. OCR processing started.'')],
                      \<lparr>of_id = uuid_str i, of_name = name, of_chat = chat, of_group = gid\<rparr>, ''/tmp/'' @ obj, u), (o1, f1))
            | (Inl e, f1) \<Rightarrow>
                (case ue_remove env obj o1 of
                   (Inr _, o2) \<Rightarrow> (Inl (HTTPException 500 (''Failed to create temporary file: '' @ ue_text env e)), (o2, f1))
                 | (Inl e', o2) \<Rightarrow> (Inl e', (o2, f1))))))"
proof -
  have "CHR ''/'' \<notin> set (uuid_str i)" by (rule uuid_str_no) (simp_all add: digit_of_def)
  then show ?thesis
    using splitext_no_slash [of name]
    by (simp add: upload_media_def with_name_def LEGACY_MEDIA_GLOBALS_def Let_def split: sum.splits prod.splits)
qed

section \<open>Witnesses\<close>

definition no_alerts :: astore where
  "no_alerts = Map.empty"

definition one_reader :: astore where
  "one_reader = [legacy_keywords_key 2 \<mapsto> (ASet {|''Urgent''|}, None)]"

definition demo_chat :: legacy_chats where
  "demo_chat = \<lparr>lc_group_members = [], lc_chats = [(9, 1, 2)]\<rparr>"

definition scan_file :: ocr_file where
  "scan_file = \<lparr>of_id = ''f'', of_name = ''scan.png'', of_chat = Some 9, of_group = None\<rparr>"

lemma no_alerts_ok: "histories_ok ref_used ref_items no_alerts"
  by (simp add: histories_ok_def no_alerts_def ref_items_def ref_used_def)

lemma one_reader_ok: "histories_ok ref_used ref_items one_reader"
  by (simp add: histories_ok_def one_reader_def ref_items_def ref_used_def key_simps)

lemma reader_alerted:
  "to_alert ref_lists ''f'' (legacy_extract_text path) one_reader u \<longleftrightarrow> u = 2"
proof -
  have "set (split_ws (lower (legacy_extract_text path))) =
      {''this'', ''is'', ''a'', ''sample'', ''text'', ''with'', ''the'', ''word'', ''urgent'', ''and'', ''another'', ''word.''}"
    unfolding legacy_extract_text_def by code_simp
  moreover have "lower ''Urgent'' = ''urgent''" by code_simp
  then have "fset (legacy_user_keywords ref_lists u one_reader) = (if u = 2 then {''urgent''} else {})"
    by (simp add: legacy_user_keywords_def one_reader_def ref_aset_def key_simps)
  ultimately have "fset (ocr_matches ref_lists (legacy_extract_text path) u one_reader) = (if u = 2 then {''urgent''} else {})"
    by (auto simp: ocr_matches_def)
  then have "ocr_matches ref_lists (legacy_extract_text path) u one_reader \<noteq> {||} \<longleftrightarrow> u = 2"
    by (cases "u = 2") auto
  moreover have "\<not> ref_used one_reader (debounce_key ''f'' u)"
    by (simp add: one_reader_def ref_used_def key_simps)
  ultimately show ?thesis by (simp add: to_alert_def)
qed

lemma direct_scope: "users_to_check demo_chat 1 (of_chat scan_file) (of_group scan_file) = {2}"
  by (auto simp: users_to_check_def demo_chat_def scan_file_def)

theorem alert_history_bounded_witness:
  "ref_items (fold (\<lambda>(u, a). add_ocr_alert ref_lists u a) [(1, [(''n'', JInt 1)]), (2, []), (1, [(''n'', JInt 2)])] no_alerts)
     (history_key 1) = [dumps (JObj [(''n'', JInt 2)]), dumps (JObj [(''n'', JInt 1)])]"
  using alert_history_bounded [OF rl.redis_lists_axioms no_alerts_ok refl,
      where alerts = "[(1, [(''n'', JInt 1)]), (2, []), (1, [(''n'', JInt 2)])]" and u = 1]
  by (simp add: no_alerts_def ref_items_def del: dumps.simps fold_simps)

theorem debounce_window_witness:
  "let s1 = snd (is_ocr_debounced ref_lists ''f'' 1 no_alerts)
   in fst (is_ocr_debounced ref_lists ''f'' 1 (a_elapse ref_lists 4999 s1)) \<and>
      \<not> fst (is_ocr_debounced ref_lists ''f'' 1 (a_elapse ref_lists 5000 s1)) \<and>
      \<not> fst (is_ocr_debounced ref_lists ''f'' 2 s1)"
proof -
  have first: "is_ocr_debounced ref_lists ''f'' u no_alerts =
      (False, a_setex ref_lists (debounce_key ''f'' u) OCR_DEBOUNCE_SECONDS ''1'' no_alerts)" for u
    by (simp add: is_ocr_debounced_def no_alerts_def ref_used_def Let_def)
  show ?thesis
    using debounce_window [OF rl.redis_lists_axioms first [of 1], of 4999]
      debounce_window [OF rl.redis_lists_axioms first [of 1], where ms = 5000 and v = 2]
    by (simp add: first [of 1] first [of 2] Let_def del: ref_list_sel)
qed

theorem ocr_alerts_sent_witness:
  "set (map fst (fst (fst (legacy_process_ocr ref_lists (''send_personal_message'' # MANAGER_METHODS) (\<lambda>_. ''urgent'')
     sorted_list_of_set 0 demo_chat scan_file ''/tmp/f'' 1 one_reader)))) = {2}"
proof -
  obtain sent r s' removed where run: "legacy_process_ocr ref_lists (''send_personal_message'' # MANAGER_METHODS)
      (\<lambda>_. ''urgent'') sorted_list_of_set 0 demo_chat scan_file ''/tmp/f'' 1 one_reader = ((sent, r, s'), removed)"
    by (metis surj_pair)
  have "set (map fst sent) = {u. u \<noteq> 1 \<and> (u = 1 \<or> u = 2) \<and> u = 2}"
    using ocr_alerts_sent [OF rl.redis_lists_axioms one_reader_ok _ _ _ run]
    unfolding direct_scope by (simp add: reader_alerted scan_file_def demo_chat_def)
  then have "set (map fst sent) = {2}" by auto
  then show ?thesis by (simp add: run)
qed

theorem ocr_alert_never_sent_witness:
  "case legacy_process_ocr ref_lists MANAGER_METHODS (\<lambda>_. ''urgent'')
     sorted_list_of_set 0 demo_chat scan_file ''/tmp/f'' 1 one_reader of
     ((sent, r, _), removed) \<Rightarrow> sent = [] \<and> r = Inl AttributeError \<and> \<not> removed"
proof -
  obtain sent r s' removed where run: "legacy_process_ocr ref_lists MANAGER_METHODS
      (\<lambda>_. ''urgent'') sorted_list_of_set 0 demo_chat scan_file ''/tmp/f'' 1 one_reader = ((sent, r, s'), removed)"
    by (metis surj_pair)
  have "to_alert ref_lists (of_id scan_file) (legacy_extract_text ''/tmp/f'') one_reader 2"
    by (simp add: reader_alerted scan_file_def)
  then show ?thesis
    using ocr_alert_never_sent [OF rl.redis_lists_axioms one_reader_ok _ _ run] by (simp add: direct_scope run)
qed

theorem snippet_around_keyword_witness:
  "contains ''urgent'' (lower (snippet_of ''This is URGENT news'' (lower ''This is URGENT news'') ''urgent''))"
proof -
  have "''urgent'' \<in> set (split_ws (lower ''This is URGENT news''))" by code_simp
  from snippet_around_keyword [OF this] show ?thesis by (rule conjunct1)
qed

end
