(* ===== verification/Application.thy ===== *)
theory Application
  imports Self_Destruct
begin

text \<open>
  The assembly of the two applications, \<^verbatim>\<open>app/main.py\<close> and \<^verbatim>\<open>backend/app/main.py\<close>: the
  route tables of the routers in the order in which they are included, the pages that only a debug
  build serves, the middleware in front of the router, and the lifespan that starts and stops
  the background tasks.

  The framework is a parameter, with what the code relies on as named laws: \<open>routing\<close> (the routes are tried
  in order and the first whose method and path match handles the request; \<^verbatim>\<open>{name}\<close> stands for a
  non-empty segment) and \<open>host_law\<close> (\<^verbatim>\<open>allowed_hosts\<close> holds host names, with a leading \<^verbatim>\<open>*.\<close> for subdomains
  and \<^verbatim>\<open>*\<close> for any; a host listed with \<^verbatim>\<open>www.\<close> in front is redirected, any other refused). CORS and the answer to a request without a route are arguments.
\<close>

section \<open>Paths\<close>

text \<open>The segments of a path between its slashes, a template with its parameters, and matching.\<close>

fun segments :: "string \<Rightarrow> string list" where
  "segments [] = [[]]"
| "segments (c # cs) = (if c = CHR ''/'' then [] # segments cs
     else (case segments cs of [] \<Rightarrow> [[c]] | s # ss \<Rightarrow> (c # s) # ss))"

datatype seg = Lit string | Param string

definition parse_seg :: "string \<Rightarrow> seg" where
  "parse_seg s = (if s \<noteq> [] \<and> hd s = CHR ''{'' then Param (butlast (tl s)) else Lit s)"

definition template :: "string \<Rightarrow> seg list" where
  "template path = map parse_seg (segments path)"

fun matches :: "seg list \<Rightarrow> string list \<Rightarrow> bool" where
  "matches [] [] = True"
| "matches (Lit l # ts) (x # xs) = (x = l \<and> matches ts xs)"
| "matches (Param n # ts) (x # xs) = (x \<noteq> [] \<and> matches ts xs)"
| "matches _ _ = False"

section \<open>Routers\<close>

text \<open>A route: the method (\<open>WEBSOCKET\<close> for a socket), the path template and the name of the handler.\<close>

record route =
  rt_method :: string
  rt_path :: string
  rt_endpoint :: string

definition on :: "string \<Rightarrow> string \<Rightarrow> string \<Rightarrow> route" where
  "on m p e = \<lparr>rt_method = m, rt_path = p, rt_endpoint = e\<rparr>"

text \<open>\<^verbatim>\<open>include_router\<close>, and the prefix a router gives its own routes.\<close>

definition include_router :: "route list \<Rightarrow> string \<Rightarrow> route list" where
  "include_router rs prefix = map (\<lambda>r. r\<lparr>rt_path := prefix @ rt_path r\<rparr>) rs"

definition auth_router :: "route list" where
  "auth_router = include_router
     [on ''POST'' ''/request-otp'' ''request_otp'', on ''POST'' ''/verify'' ''verify'', on ''POST'' ''/ws-ticket'' ''create_ws_ticket'',
      on ''GET'' ''/sessions'' ''list_sessions'', on ''DELETE'' ''/sessions/{session_id}'' ''revoke_session''] ''/auth''"

definition chats_router :: "route list" where
  "chats_router = include_router
     [on ''GET'' '''' ''list_conversations'', on ''GET'' ''/{peer_id}/messages'' ''message_history''] ''/chats''"

definition groups_router :: "route list" where
  "groups_router = include_router
     [on ''GET'' '''' ''my_groups'', on ''POST'' '''' ''create_group'', on ''GET'' ''/{group_id}/members'' ''group_members'',
      on ''POST'' ''/{group_id}/join'' ''request_join'', on ''GET'' ''/{group_id}/join-requests'' ''pending_requests'',
      on ''POST'' ''/{group_id}/join-requests/{request_id}'' ''decide_request''] ''/groups''"

definition media_router :: "route list" where
  "media_router = include_router
     [on ''POST'' ''/upload/init'' ''upload_init'', on ''PUT'' ''/upload/{upload_id}/chunk/{chunk_index}'' ''upload_chunk'',
      on ''GET'' ''/upload/{upload_id}'' ''upload_status'', on ''POST'' ''/upload/{upload_id}/complete'' ''upload_complete'',
      on ''GET'' ''/{media_key}/url'' ''presigned_view_url''] ''/media''"

definition broadcasts_router :: "route list" where
  "broadcasts_router = include_router
     [on ''GET'' ''/unacked'' ''unacked_broadcasts'', on ''POST'' ''/{broadcast_id}/ack'' ''ack_broadcast'',
      on ''POST'' ''/fcm-token'' ''register_fcm_token''] ''/broadcasts''"

definition admin_router :: "route list" where
  "admin_router = include_router
     [on ''GET'' ''/users'' ''list_users'', on ''POST'' ''/users/{user_id}/status'' ''set_user_status'',
      on ''GET'' ''/stats'' ''live_stats'', on ''POST'' ''/broadcast'' ''send_broadcast''] ''/admin''"

definition ocr_router :: "route list" where
  "ocr_router =
     [on ''GET'' ''/ocr/keywords'' ''get_ocr_keywords'', on ''POST'' ''/ocr/keywords'' ''set_ocr_keywords'',
      on ''DELETE'' ''/ocr/keywords'' ''delete_ocr_keywords'']"

definition receipts_router :: "route list" where
  "receipts_router =
     [on ''POST'' ''/chats/{chat_id}/messages/{message_id}/delivered'' ''mark_message_delivered'',
      on ''POST'' ''/chats/{chat_id}/messages/{message_id}/read'' ''mark_message_read'',
      on ''POST'' ''/chats/{chat_id}/typing'' ''update_typing'']"

definition keys_router :: "route list" where
  "keys_router =
     [on ''GET'' ''/keys/prekeys/{user_id}'' ''get_prekeys'', on ''POST'' ''/keys/identity'' ''register_identity_key'',
      on ''POST'' ''/keys/prekey'' ''upload_prekey'', on ''POST'' ''/keys/signed_prekey'' ''upload_signed_prekey'']"

definition websocket_router :: "route list" where
  "websocket_router = [on ''WEBSOCKET'' ''/ws/chat'' ''chat_socket'']"

section \<open>app/main.py\<close>

text \<open>The pages of the API documentation, whose URLs are \<^verbatim>\<open>None\<close> without \<open>DEBUG\<close>.\<close>

definition docs_routes :: "settings \<Rightarrow> route list" where
  "docs_routes c =
     (if DEBUG c then [on ''GET'' ''/api/openapi.json'' ''openapi'', on ''GET'' ''/api/docs'' ''docs'', on ''GET'' ''/api/redoc'' ''redoc'']
      else [])"

definition included :: "settings \<Rightarrow> route list" where
  "included c =
     include_router auth_router (API_PREFIX c) @ include_router chats_router (API_PREFIX c) @
     include_router groups_router (API_PREFIX c) @ include_router media_router (API_PREFIX c) @
     include_router broadcasts_router (API_PREFIX c) @ include_router admin_router (API_PREFIX c) @
     include_router ocr_router (API_PREFIX c) @ include_router receipts_router (API_PREFIX c) @
     include_router keys_router (API_PREFIX c) @ include_router websocket_router []"

definition app_routes :: "settings \<Rightarrow> route list" where
  "app_routes c = docs_routes c @ included c @ [on ''GET'' ''/health'' ''health_check'']"

definition health_check :: "settings \<Rightarrow> payload" where
  "health_check c = [(''status'', JStr ''ok''), (''env'', JStr (ENV c))]"

text \<open>The routes tried in order.\<close>

type_synonym dispatcher = "route list \<Rightarrow> string \<Rightarrow> string \<Rightarrow> string option"

definition first_match :: dispatcher where
  "first_match rs m p =
     map_option rt_endpoint (scalar (\<lambda>r. rt_method r = m \<and> matches (template (rt_path r)) (segments p)) rs)"

locale routing =
  fixes dispatch :: dispatcher
  assumes in_order: "dispatch rs m p =
    map_option rt_endpoint (scalar (\<lambda>r. rt_method r = m \<and> matches (template (rt_path r)) (segments p)) rs)"

interpretation first: routing first_match
  by unfold_locales (simp add: first_match_def)

text \<open>
  The middleware: CORS around the router, and in production the check of the host around both.
  \<open>unmatched\<close> is the framework's answer when no route matches.
\<close>

record http_request =
  hr_method :: string
  hr_path :: string
  hr_host :: string
  hr_origin :: "string option"

datatype http_response = Handled string | Status nat | Redirect string

record cors_options =
  allow_origins :: "string list"
  allow_credentials :: bool
  allow_methods :: "string list"
  allow_headers :: "string list"

type_synonym middleware = "(http_request \<Rightarrow> http_response) \<Rightarrow> http_request \<Rightarrow> http_response"

definition serve :: "(cors_options \<Rightarrow> middleware) \<Rightarrow> (string list \<Rightarrow> middleware) \<Rightarrow> dispatcher \<Rightarrow>
    (http_request \<Rightarrow> http_response) \<Rightarrow> settings \<Rightarrow> http_request \<Rightarrow> http_response" where
  "serve cors trusted_host dispatch unmatched c req =
     (let router = (\<lambda>r. case dispatch (app_routes c) (hr_method r) (hr_path r) of None \<Rightarrow> unmatched r | Some e \<Rightarrow> Handled e);
          options = \<lparr>allow_origins = ALLOWED_ORIGINS c, allow_credentials = True,
            allow_methods = [''GET'', ''POST'', ''PUT'', ''PATCH'', ''DELETE''],
            allow_headers = [''Authorization'', ''Content-Type'', ''X-Request-ID'']\<rparr>;
          app = cors options router
      in if ENV c = ''production'' then trusted_host (ALLOWED_ORIGINS c) app req else app req)"

text \<open>
  The documented behaviour of \<^verbatim>\<open>TrustedHostMiddleware\<close>: a host that is listed, or matched by a wildcard, is let
  through; a host whose \<^verbatim>\<open>www.\<close> form is listed is redirected to it; any other is refused.
\<close>

definition host_listed :: "string list \<Rightarrow> string \<Rightarrow> bool" where
  "host_listed hosts h \<longleftrightarrow> (\<exists>p\<in>set hosts. p = ''*'' \<or> p = h \<or> (\<exists>d x. p = ''*.'' @ d \<and> h = x @ ''.'' @ d))"

definition host_law :: "(string list \<Rightarrow> middleware) \<Rightarrow> bool" where
  "host_law trusted_host \<longleftrightarrow> (\<forall>hosts app r. trusted_host hosts app r =
     (if host_listed hosts (hr_host r) then app r
      else if ''www.'' @ hr_host r \<in> set hosts then Redirect (''www.'' @ hr_host r) else Status 400))"

definition host_matches :: "string list \<Rightarrow> string \<Rightarrow> bool" where
  "host_matches hosts h \<longleftrightarrow>
     list_ex (\<lambda>p. p = ''*'' \<or> p = h \<or> starts_with p ''*.'' \<and> starts_with (rev h) (rev (tl p))) hosts"

definition trusted_host_ref :: "string list \<Rightarrow> middleware" where
  "trusted_host_ref hosts app r =
     (if host_matches hosts (hr_host r) then app r
      else if List.member hosts (''www.'' @ hr_host r) then Redirect (''www.'' @ hr_host r) else Status 400)"

lemma host_matches_law: "host_law trusted_host_ref"
proof -
  have "starts_with p ''*.'' \<and> starts_with (rev h) (rev (tl p)) \<longleftrightarrow> (\<exists>d x. p = ''*.'' @ d \<and> h = x @ ''.'' @ d)" for p h
    unfolding starts_with_iff by (auto simp: rev_swap) (metis rev_rev_ident)+
  then have "host_matches hosts h = host_listed hosts h" for hosts h
    by (simp add: host_listed_def host_matches_def list_ex_iff)
  then show ?thesis by (simp add: host_law_def trusted_host_ref_def)
qed

text \<open>The tasks and connection pools of a running application, and its lifespan.\<close>

record app_state =
  as_worker :: worker
  as_listeners :: "nat list"
  as_pools :: "string list"

definition MAIN_GLOBALS :: "string list" where
  "MAIN_GLOBALS = [''annotations'', ''asynccontextmanager'', ''AsyncGenerator'', ''FastAPI'', ''CORSMiddleware'',
     ''TrustedHostMiddleware'', ''admin'', ''auth'', ''broadcasts'', ''chats'', ''groups'', ''media'', ''websocket'', ''ocr'',
     ''receipts'', ''keys'', ''manager'', ''settings'', ''close_redis'', ''SelfDestructWorker'', ''_self_destruct'',
     ''lifespan'', ''app'', ''health_check'']"

definition lifespan_start :: "string list \<Rightarrow> nat \<Rightarrow> nat \<Rightarrow> (app_state, unit) handler" where
  "lifespan_start globals sweeper listener s =
     with_name globals ''asyncio'' (\<lambda>s. (Inr (), s\<lparr>as_listeners := as_listeners s @ [listener]\<rparr>))
       (s\<lparr>as_worker := worker_start sweeper (as_worker s)\<rparr>)"

definition close_redis :: "app_state \<Rightarrow> app_state" where
  "close_redis s = s\<lparr>as_pools := removeAll ''sessions'' (removeAll ''otp'' (removeAll ''pubsub'' (as_pools s)))\<rparr>"

definition lifespan_stop :: "app_state \<Rightarrow> app_state" where
  "lifespan_stop s = close_redis (s\<lparr>as_worker := worker_stop (as_worker s)\<rparr>)"

text \<open>The server: it serves nothing when the start of the lifespan raises.\<close>

definition run_app :: "string list \<Rightarrow> (http_request \<Rightarrow> http_response) \<Rightarrow> nat \<Rightarrow> nat \<Rightarrow> http_request list \<Rightarrow>
    (app_state, http_response list) handler" where
  "run_app globals handle sweeper listener reqs s =
     (case lifespan_start globals sweeper listener s of
        (Inl e, s1) \<Rightarrow> (Inl e, s1)
      | (Inr _, s1) \<Rightarrow> (Inr (map handle reqs), lifespan_stop s1))"

section \<open>Filling a template\<close>

fun fill_seg :: "(string \<Rightarrow> string) \<Rightarrow> seg \<Rightarrow> string" where
  "fill_seg args (Lit l) = l"
| "fill_seg args (Param n) = args n"

fun join_segments :: "string list \<Rightarrow> string" where
  "join_segments [] = []"
| "join_segments [s] = s"
| "join_segments (s # ss) = s @ ''/'' @ join_segments ss"

text \<open>The path of a template for given parameters.\<close>

definition fill :: "string \<Rightarrow> (string \<Rightarrow> string) \<Rightarrow> string" where
  "fill path args = join_segments (map (fill_seg args) (template path))"

definition args_ok :: "(string \<Rightarrow> string) \<Rightarrow> bool" where
  "args_ok args \<longleftrightarrow> (\<forall>n. args n \<noteq> [] \<and> CHR ''/'' \<notin> set (args n))"

lemma segments_nonempty [simp]: "segments p \<noteq> []"
  by (induction p) (auto split: list.splits)

lemma segments_slash: "s \<in> set (segments p) \<Longrightarrow> CHR ''/'' \<notin> set s"
proof (induction p arbitrary: s)
  case (Cons c p)
  then show ?case by (cases "segments p") (auto split: if_splits)
qed simp

lemma segments_append: "CHR ''/'' \<notin> set s \<Longrightarrow> segments (s @ CHR ''/'' # p) = s # segments p"
  by (induction s) auto

lemma segments_free: "CHR ''/'' \<notin> set s \<Longrightarrow> segments s = [s]"
  by (induction s) auto

lemma segments_join: "ss \<noteq> [] \<Longrightarrow> (\<And>s. s \<in> set ss \<Longrightarrow> CHR ''/'' \<notin> set s) \<Longrightarrow> segments (join_segments ss) = ss"
  by (induction ss rule: join_segments.induct) (simp_all add: segments_append segments_free)

lemma segments_prefix: "segments (p @ CHR ''/'' # q) = segments p @ segments q"
  by (induction p) (auto split: list.split)

lemma template_slash: "Lit l \<in> set (template path) \<Longrightarrow> CHR ''/'' \<notin> set l"
  using segments_slash by (auto simp: template_def parse_seg_def split: if_splits)

lemma segments_fill: "args_ok args \<Longrightarrow> segments (fill path args) = map (fill_seg args) (template path)"
  unfolding fill_def
proof (rule segments_join)
  show "map (fill_seg args) (template path) \<noteq> []" by (simp add: template_def)
  fix s
  assume a: "args_ok args" and "s \<in> set (map (fill_seg args) (template path))"
  then obtain t where t: "t \<in> set (template path)" "s = fill_seg args t" by auto
  show "CHR ''/'' \<notin> set s"
  proof (cases t)
    case (Lit l)
    with t template_slash [of l path] show ?thesis by simp
  next
    case (Param n)
    with t a show ?thesis by (simp add: args_ok_def)
  qed
qed

lemma matches_filled: "args_ok args \<Longrightarrow> matches ts (map (fill_seg args) ts)"
proof (induction ts)
  case (Cons t ts)
  then show ?case by (cases t) (simp_all add: args_ok_def)
qed simp

section \<open>Overlapping templates\<close>

fun overlap :: "seg list \<Rightarrow> seg list \<Rightarrow> bool" where
  "overlap [] [] = True"
| "overlap (Lit a # s) (Lit b # t) = (a = b \<and> overlap s t)"
| "overlap (Param n # s) (x # t) = overlap s t"
| "overlap (x # s) (Param n # t) = overlap s t"
| "overlap _ _ = False"

lemma matches_overlap: "matches s xs \<Longrightarrow> matches t xs \<Longrightarrow> overlap s t"
proof (induction s xs arbitrary: t rule: matches.induct)
  case 1
  then show ?case by (cases t) auto
next
  case (2 l ts x xs)
  then show ?case by (cases t; cases "hd t") auto
next
  case (3 n ts x xs)
  then show ?case by (cases t) (auto elim: matches.elims)
qed auto

definition routes_apart :: "route \<Rightarrow> route \<Rightarrow> bool" where
  "routes_apart e r \<longleftrightarrow> (rt_method e = rt_method r \<longrightarrow> \<not> overlap (template (rt_path e)) (template (rt_path r)))"

lemma first_of:
  assumes "rt \<in> set rs" and "P rt" and "\<And>e. e \<in> set rs \<Longrightarrow> P e \<Longrightarrow> \<not> Q e rt" and "sorted_wrt Q rs"
  shows "scalar P rs = Some rt"
proof -
  obtain xs ys where rs: "rs = xs @ rt # ys" using assms(1) by (auto dest: split_list)
  then have "Q e rt" if "e \<in> set xs" for e using assms(4) that by (simp add: sorted_wrt_append)
  then have "scalar P xs = None" using assms(3) rs by (auto simp: find_None_iff)
  with assms(2) rs show ?thesis by (simp add: find_append)
qed

text \<open>The only templates of one method that overlap in this order: the state of an upload and a view link.\<close>

definition upload_or_view :: "route \<Rightarrow> route \<Rightarrow> bool" where
  "upload_or_view e r \<longleftrightarrow> rt_path e = ''/api/v1/media/upload/{upload_id}'' \<and> rt_path r = ''/api/v1/media/{media_key}/url''"

lemma full_table:
  "sorted_wrt (\<lambda>e r. routes_apart e r \<or> upload_or_view e r) (app_routes (settings_defaults\<lparr>DEBUG := True\<rparr>))"
  by code_simp

lemma app_routes_table:
  assumes "API_PREFIX c = ''/api/v1''"
  shows "app_routes c = drop (if DEBUG c then 0 else 3) (app_routes (settings_defaults\<lparr>DEBUG := True\<rparr>))"
  using assms by (simp add: app_routes_def included_def docs_routes_def settings_defaults_def)

lemma join_segments_segments: "join_segments (segments p) = p"
proof (induction p)
  case (Cons c p)
  then show ?case by (cases "segments p"; cases "tl (segments p)") auto
qed simp

lemma upload_or_view_path:
  assumes "upload_or_view e r" and "matches (template (rt_path e)) (segments p)" and "matches (template (rt_path r)) (segments p)"
  shows "p = ''/api/v1/media/upload/url''"
proof -
  have t: "template (rt_path e) = [Lit [], Lit ''api'', Lit ''v1'', Lit ''media'', Lit ''upload'', Param ''upload_id'']"
    "template (rt_path r) = [Lit [], Lit ''api'', Lit ''v1'', Lit ''media'', Param ''media_key'', Lit ''url'']"
    using assms(1) by (simp_all add: upload_or_view_def template_def parse_seg_def)
  have "matches [Lit [], Lit ''api'', Lit ''v1'', Lit ''media'', Lit ''upload'', Param ''upload_id''] xs \<Longrightarrow>
      matches [Lit [], Lit ''api'', Lit ''v1'', Lit ''media'', Param ''media_key'', Lit ''url''] xs \<Longrightarrow>
      xs = [[], ''api'', ''v1'', ''media'', ''upload'', ''url'']" for xs
    by (auto elim!: matches.elims)
  then have "segments p = [[], ''api'', ''v1'', ''media'', ''upload'', ''url'']" using assms(2,3) t by simp
  then have "join_segments (segments p) = ''/api/v1/media/upload/url''" by simp
  then show ?thesis unfolding join_segments_segments .
qed

context routing
begin

text \<open>A path that matches a route of the table is handled by it, but for the one exception.\<close>

lemma dispatch_table:
  assumes "API_PREFIX c = ''/api/v1''" and "rt \<in> set (app_routes c)" and "matches (template (rt_path rt)) (segments p)"
    and "p = ''/api/v1/media/upload/url'' \<Longrightarrow> rt_path rt \<noteq> ''/api/v1/media/{media_key}/url''"
  shows "dispatch (app_routes c) (rt_method rt) p = Some (rt_endpoint rt)"
proof -
  let ?P = "\<lambda>r. rt_method r = rt_method rt \<and> matches (template (rt_path r)) (segments p)"
  have "sorted_wrt (\<lambda>e r. routes_apart e r \<or> upload_or_view e r) (app_routes c)"
    unfolding app_routes_table [OF assms(1)] by (rule sorted_wrt_drop [OF full_table])
  then have "scalar ?P (app_routes c) = Some rt"
  proof (rule first_of [rotated 3])
    fix e :: route
    assume e: "rt_method e = rt_method rt \<and> matches (template (rt_path e)) (segments p)"
    then have "overlap (template (rt_path e)) (template (rt_path rt))" using assms(3) matches_overlap by blast
    moreover have "\<not> upload_or_view e rt" using e assms(3,4) upload_or_view_path [of e rt p] by (auto simp: upload_or_view_def)
    ultimately show "\<not> (routes_apart e rt \<or> upload_or_view e rt)" using e by (simp add: routes_apart_def)
  qed (use assms(2,3) in simp_all)
  then show ?thesis by (simp add: in_order)
qed

lemma dispatch_None:
  assumes "\<And>r. r \<in> set rs \<Longrightarrow> rt_method r = m \<Longrightarrow> \<not> matches (template (rt_path r)) (segments p)"
  shows "dispatch rs m p = None"
  using assms by (auto simp: in_order find_None_iff)

end

lemma no_docs_routes:
  "page \<in> {''/api/openapi.json'', ''/api/docs'', ''/api/redoc''} \<Longrightarrow>
   list_all (\<lambda>r. \<not> matches (template (rt_path r)) (segments page)) (drop 3 (app_routes (settings_defaults\<lparr>DEBUG := True\<rparr>)))"
proof -
  have "list_all (\<lambda>page. list_all (\<lambda>r. \<not> matches (template (rt_path r)) (segments page))
      (drop 3 (app_routes (settings_defaults\<lparr>DEBUG := True\<rparr>)))) [''/api/openapi.json'', ''/api/docs'', ''/api/redoc'']"
    by code_simp
  then show "page \<in> {''/api/openapi.json'', ''/api/docs'', ''/api/redoc''} \<Longrightarrow> ?thesis" by auto
qed

section \<open>Properties of app/main.py\<close>

text \<open>
  C18. No route hides another: the request of every endpoint, whatever its parameters, is handled by that
  endpoint, although the routers are included under one prefix and some overlap; the one exception is the view link of
  an object called \<open>upload\<close>, which no stored object is. Without \<open>DEBUG\<close> the API documentation is not served.
\<close>

theorem every_route_reached:
  assumes "routing dispatch" and "API_PREFIX c = ''/api/v1''" and "rt \<in> set (app_routes c)" and "args_ok args"
  shows "(fill (rt_path rt) args \<noteq> ''/api/v1/media/upload/url'' \<longrightarrow>
      dispatch (app_routes c) (rt_method rt) (fill (rt_path rt) args) = Some (rt_endpoint rt)) \<and>
    dispatch (app_routes c) ''GET'' ''/api/v1/media/upload/url'' = Some ''upload_status'' \<and>
    (\<not> DEBUG c \<longrightarrow> (\<forall>page\<in>{''/api/openapi.json'', ''/api/docs'', ''/api/redoc''}. dispatch (app_routes c) ''GET'' page = None))"
proof -
  note rd = assms(1) and v1 = assms(2)
  have m: "matches (template (rt_path rt)) (segments (fill (rt_path rt) args))"
    by (simp add: segments_fill matches_filled assms(4))
  let ?status = "on ''GET'' ''/api/v1/media/upload/{upload_id}'' ''upload_status''"
  have "?status \<in> set (include_router media_router ''/api/v1'')" by code_simp
  then have status: "?status \<in> set (app_routes c)" by (simp add: app_routes_def included_def v1)
  have "matches (template (rt_path ?status)) (segments ''/api/v1/media/upload/url'')" by code_simp
  from routing.dispatch_table [OF rd v1 status this]
  have view: "dispatch (app_routes c) ''GET'' ''/api/v1/media/upload/url'' = Some ''upload_status''" by (simp add: on_def)
  have docs: "dispatch (app_routes c) ''GET'' page = None"
    if "\<not> DEBUG c" "page \<in> {''/api/openapi.json'', ''/api/docs'', ''/api/redoc''}" for page
    using no_docs_routes [OF that(2)] that(1)
    by (intro routing.dispatch_None [OF rd]) (simp add: app_routes_table [OF v1] list_all_iff)
  have one: "dispatch (app_routes c) (rt_method rt) (fill (rt_path rt) args) = Some (rt_endpoint rt)"
    if "fill (rt_path rt) args \<noteq> ''/api/v1/media/upload/url''"
    by (rule routing.dispatch_table [OF rd v1 assms(3) m]) (use that in blast)
  show ?thesis by (intro conjI impI ballI one view docs)
qed

theorem every_route_reached_witness:
  "first_match (app_routes settings_defaults) ''POST'' ''/api/v1/groups/7/join'' = Some ''request_join'' \<and>
   first_match (app_routes settings_defaults) ''GET'' ''/api/docs'' = None"
proof -
  let ?rt = "on ''POST'' ''/api/v1/groups/{group_id}/join'' ''request_join''"
  have v1: "API_PREFIX settings_defaults = ''/api/v1''" "\<not> DEBUG settings_defaults" by (simp_all add: settings_defaults_def)
  have "?rt \<in> set (include_router groups_router ''/api/v1'')" by code_simp
  then have rt: "?rt \<in> set (app_routes settings_defaults)" by (simp add: app_routes_def included_def v1)
  have "args_ok (\<lambda>_. ''7'')" by (simp add: args_ok_def)
  note r = every_route_reached [OF first.routing_axioms v1(1) rt this]
  have "fill (rt_path ?rt) (\<lambda>_. ''7'') = ''/api/v1/groups/7/join''" by code_simp
  with r v1(2) show ?thesis by (simp add: on_def)
qed

text \<open>
  C19. In production the host check reads the list of CORS origins. Origins are URLs and hosts are not, so with a list
  of origins every request is refused, before CORS and the router see it; only a list with
  the wildcard lets the requests through, and then the check does nothing.
\<close>

theorem production_host_check:
  assumes "host_law trusted_host" and "ENV c = ''production''" and "CHR ''/'' \<notin> set (hr_host req)"
  shows "((\<forall>origin\<in>set (ALLOWED_ORIGINS c). CHR ''/'' \<in> set origin) \<longrightarrow>
      serve cors trusted_host dispatch unmatched c req = Status 400) \<and>
    (''*'' \<in> set (ALLOWED_ORIGINS c) \<longrightarrow>
      serve cors trusted_host dispatch unmatched c req =
        serve cors trusted_host dispatch unmatched (c\<lparr>ENV := ''development''\<rparr>) req)"
proof (intro conjI impI)
  assume urls: "\<forall>origin\<in>set (ALLOWED_ORIGINS c). CHR ''/'' \<in> set origin"
  then have "\<not> host_listed (ALLOWED_ORIGINS c) (hr_host req)" using assms(3) by (auto simp: host_listed_def)
  moreover have "CHR ''/'' \<notin> set (''www.'' @ hr_host req)" using assms(3) by simp
  with urls have "''www.'' @ hr_host req \<notin> set (ALLOWED_ORIGINS c)" by blast
  ultimately show "serve cors trusted_host dispatch unmatched c req = Status 400"
    using assms(1,2) by (simp add: serve_def host_law_def Let_def)
next
  assume "''*'' \<in> set (ALLOWED_ORIGINS c)"
  then have "host_listed (ALLOWED_ORIGINS c) (hr_host req)" unfolding host_listed_def by blast
  moreover have "app_routes (c\<lparr>ENV := ''development''\<rparr>) = app_routes c"
    by (simp add: app_routes_def included_def docs_routes_def)
  ultimately show "serve cors trusted_host dispatch unmatched c req =
      serve cors trusted_host dispatch unmatched (c\<lparr>ENV := ''development''\<rparr>) req"
    using assms(1,2) by (simp add: serve_def host_law_def Let_def)
qed

theorem production_host_check_witness:
  "serve (\<lambda>_ app. app) trusted_host_ref first_match (\<lambda>_. Status 404)
     (settings_defaults\<lparr>ENV := ''production'', ALLOWED_ORIGINS := [''http://localhost:3000'', ''https://yourdomain.com'']\<rparr>)
     \<lparr>hr_method = ''GET'', hr_path = ''/health'', hr_host = ''yourdomain.com'', hr_origin = None\<rparr> = Status 400"
  by (rule production_host_check [OF host_matches_law, THEN conjunct1, THEN mp]) simp_all

text \<open>An application before its start.\<close>

definition fresh_app :: app_state where
  "fresh_app = \<lparr>as_worker = \<lparr>wk_task = None, wk_running = {}\<rparr>, as_listeners = [], as_pools = [''pubsub'', ''otp'', ''sessions'']\<rparr>"

text \<open>
  The application does not start: \<^verbatim>\<open>asyncio\<close> is not imported, so the lifespan raises after it has started the worker, no
  request is answered and the worker is not stopped. With the name bound every request is answered, and the
  shutdown stops the worker and closes all pools, but leaves the alert listener running on a closed pool.
\<close>

theorem lifespan_outcome:
  "run_app MAIN_GLOBALS handle sweeper listener reqs fresh_app =
     (Inl (NameError ''asyncio''), fresh_app\<lparr>as_worker := \<lparr>wk_task = Some sweeper, wk_running = {sweeper}\<rparr>\<rparr>) \<and>
   run_app (''asyncio'' # MAIN_GLOBALS) handle sweeper listener reqs fresh_app =
     (Inr (map handle reqs), fresh_app\<lparr>as_worker := \<lparr>wk_task = Some sweeper, wk_running = {}\<rparr>,
        as_listeners := [listener], as_pools := []\<rparr>)"
proof
  have "''asyncio'' \<notin> set MAIN_GLOBALS" by (simp add: MAIN_GLOBALS_def)
  then show "run_app MAIN_GLOBALS handle sweeper listener reqs fresh_app =
     (Inl (NameError ''asyncio''), fresh_app\<lparr>as_worker := \<lparr>wk_task = Some sweeper, wk_running = {sweeper}\<rparr>\<rparr>)"
    by (simp add: run_app_def lifespan_start_def with_name_def fresh_app_def worker_start_def)
  show "run_app (''asyncio'' # MAIN_GLOBALS) handle sweeper listener reqs fresh_app =
     (Inr (map handle reqs), fresh_app\<lparr>as_worker := \<lparr>wk_task = Some sweeper, wk_running = {}\<rparr>,
        as_listeners := [listener], as_pools := []\<rparr>)"
    by (simp add: run_app_def lifespan_start_def lifespan_stop_def close_redis_def with_name_def fresh_app_def
        worker_start_def worker_stop_def)
qed

section \<open>backend/app/main.py\<close>

text \<open>
  The routers of the second backend. Those of its modules that the repository does not hold are parameters. Its key
  module is a Flask blueprint: it has no attribute \<open>router\<close>. Before any router is read the modules are
  imported, in the order of \<open>ROUTE_MODULES\<close>, and the first that raises ends the start: importing \<^verbatim>\<open>channels\<close> compiles
  \<^verbatim>\<open>models/channel.py\<close>, whose second line is no statement, and importing \<^verbatim>\<open>communities\<close> runs \<^verbatim>\<open>models/creator.py\<close>,
  which evaluates the unbound name \<^verbatim>\<open>Enum\<close>.
\<close>

definition backend_chats_router :: "route list" where
  "backend_chats_router =
     [on ''GET'' ''/{chat_id}/messages'' ''read_chat_messages'', on ''GET'' ''/{chat_id}/summary'' ''get_chat_summary'',
      on ''POST'' ''/{chat_id}/ai/smart-replies'' ''generate_smart_replies'',
      on ''POST'' ''/{chat_id}/ai/translate'' ''translate_message'', on ''POST'' ''/{chat_id}/ai/moderate'' ''moderate_message'']"

definition backend_media_router :: "route list" where
  "backend_media_router = [on ''POST'' ''/upload'' ''upload_media'']"

definition backend_keys_router :: "route list option" where
  "backend_keys_router = None"

definition channels_router :: "route list" where
  "channels_router =
     [on ''POST'' ''/'' ''create_channel'', on ''GET'' ''/'' ''read_channels'', on ''GET'' ''/{channel_id}'' ''read_channel'',
      on ''PUT'' ''/{channel_id}'' ''update_channel'', on ''DELETE'' ''/{channel_id}'' ''delete_channel'',
      on ''POST'' ''/{channel_id}/posts'' ''create_channel_post'', on ''GET'' ''/{channel_id}/posts'' ''read_channel_posts'',
      on ''POST'' ''/{channel_id}/subscribe'' ''subscribe_to_channel'',
      on ''DELETE'' ''/{channel_id}/unsubscribe'' ''unsubscribe_from_channel'',
      on ''GET'' ''/{channel_id}/analytics'' ''read_channel_analytics'']"

definition communities_router :: "route list" where
  "communities_router =
     [on ''POST'' ''/'' ''create_community'', on ''GET'' ''/'' ''read_communities'', on ''GET'' ''/{community_id}'' ''read_community'',
      on ''PUT'' ''/{community_id}'' ''update_community'', on ''DELETE'' ''/{community_id}'' ''delete_community'',
      on ''POST'' ''/{community_id}/members'' ''add_community_member'', on ''GET'' ''/{community_id}/members'' ''read_community_members'',
      on ''POST'' ''/{community_id}/events'' ''create_community_event'', on ''GET'' ''/{community_id}/events'' ''read_community_events'',
      on ''POST'' ''/{community_id}/events/{event_id}/rsvp'' ''rsvp_to_community_event'',
      on ''POST'' ''/{community_id}/resources'' ''add_community_resource'', on ''GET'' ''/{community_id}/resources'' ''read_community_resources'']"

record backend_modules =
  bm_auth :: "route list"
  bm_groups :: "route list"
  bm_broadcasts :: "route list"
  bm_admin :: "route list"
  bm_ocr :: "route list"
  bm_receipts :: "route list"
  bm_websocket :: "route list"

text \<open>Including one module after the other; a module without a router raises.\<close>

fun include_all :: "(route list option \<times> string) list \<Rightarrow> route list res" where
  "include_all [] = Inr []"
| "include_all ((None, prefix) # ms) = Inl AttributeError"
| "include_all ((Some rs, prefix) # ms) =
     (case include_all ms of Inl e \<Rightarrow> Inl e | Inr rest \<Rightarrow> Inr (include_router rs prefix @ rest))"

definition backend_routes :: "backend_modules \<Rightarrow> route list option \<Rightarrow> settings \<Rightarrow> route list res" where
  "backend_routes ms keys c =
     (let p = API_PREFIX c
      in case include_all [(Some (bm_auth ms), p), (Some backend_chats_router, p), (Some (bm_groups ms), p),
           (Some backend_media_router, p), (Some (bm_broadcasts ms), p), (Some (bm_admin ms), p), (Some (bm_ocr ms), p),
           (Some (bm_receipts ms), p), (keys, p), (Some channels_router, p), (Some communities_router, p),
           (Some (bm_websocket ms), [])] of
         Inl e \<Rightarrow> Inl e
       | Inr rs \<Rightarrow> Inr (docs_routes c @ rs @ [on ''GET'' ''/health'' ''health_check'']))"

definition ROUTE_MODULES :: "string list" where
  "ROUTE_MODULES = [''admin'', ''auth'', ''broadcasts'', ''chats'', ''groups'', ''media'', ''websocket'', ''ocr'', ''receipts'', ''keys'',
     ''channels'', ''communities'']"

definition module_error :: "string \<Rightarrow> error option" where
  "module_error m =
     (if m = ''channels'' then Some SyntaxError else if m = ''communities'' then Some (NameError ''Enum'') else None)"

text \<open>The start of the module: \<open>fails m\<close> is the exception that importing the module \<open>m\<close> raises.\<close>

definition backend_app ::
  "(string \<Rightarrow> error option) \<Rightarrow> backend_modules \<Rightarrow> route list option \<Rightarrow> settings \<Rightarrow> route list res" where
  "backend_app fails ms keys c =
     (case find (\<lambda>m. fails m \<noteq> None) ROUTE_MODULES of
        Some m \<Rightarrow> Inl (the (fails m))
      | None \<Rightarrow> backend_routes ms keys c)"

lemma backend_app_as_it_is: "backend_app module_error ms keys c = Inl SyntaxError"
  by (simp add: backend_app_def ROUTE_MODULES_def module_error_def)

lemma backend_app_imported [simp]: "backend_app (\<lambda>_. None) ms keys c = backend_routes ms keys c"
  by (simp add: backend_app_def ROUTE_MODULES_def)

lemma backend_app_without_keys: "backend_app (\<lambda>_. None) ms backend_keys_router c = Inl AttributeError"
  by (simp add: backend_routes_def backend_keys_router_def Let_def)

definition shadowed_endpoints :: "string set" where
  "shadowed_endpoints = {''create_community'', ''read_communities'', ''read_community'', ''update_community'', ''delete_community''}"

lemma include_router_append [simp]: "include_router (xs @ ys) p = include_router xs p @ include_router ys p"
  by (simp add: include_router_def)

lemma matches_rename: "matches (ts @ [Param a]) xs = matches (ts @ [Param b]) xs"
proof (induction ts arbitrary: xs)
  case Nil
  show ?case by (cases xs; cases "tl xs") simp_all
next
  case (Cons t ts)
  then show ?case by (cases xs; cases t) simp_all
qed

text \<open>The routes of the communities that carry those names have a channel route of the same shape before them.\<close>

lemma community_twin:
  assumes "r \<in> set (include_router communities_router p)" and "rt_endpoint r \<in> shadowed_endpoints"
  shows "\<exists>q\<in>set (include_router channels_router p). rt_method q = rt_method r \<and>
    (\<forall>xs. matches (template (rt_path r)) xs = matches (template (rt_path q)) xs)"
proof -
  have twin: "\<exists>q\<in>set (include_router channels_router p). rt_method q = rt_method r \<and>
      (\<forall>xs. matches (template (rt_path r)) xs = matches (template (rt_path q)) xs)"
    if "on m path e \<in> set channels_router" "rt_method r = m"
      "\<And>xs. matches (template (rt_path r)) xs = matches (template (p @ path)) xs" for m path e
    using that by (intro bexI [of _ "(on m path e)\<lparr>rt_path := p @ path\<rparr>"])
      (auto simp: include_router_def on_def intro!: rev_image_eqI)
  have par: "matches (template (p @ ''/{community_id}'')) xs = matches (template (p @ ''/{channel_id}'')) xs" for xs
    using matches_rename [of "map parse_seg (segments p)" "''community_id''" xs "''channel_id''"]
    by (simp add: template_def segments_prefix parse_seg_def)
  consider "rt_method r = ''POST'' \<and> rt_path r = p @ ''/''" | "rt_method r = ''GET'' \<and> rt_path r = p @ ''/''"
    | "rt_method r = ''GET'' \<and> rt_path r = p @ ''/{community_id}''" | "rt_method r = ''PUT'' \<and> rt_path r = p @ ''/{community_id}''"
    | "rt_method r = ''DELETE'' \<and> rt_path r = p @ ''/{community_id}''"
    using assms by (auto simp: communities_router_def include_router_def on_def shadowed_endpoints_def)
  then show ?thesis
  proof cases
    case 1
    then show ?thesis by (intro twin [of "''POST''" "''/''" "''create_channel''"]) (simp_all add: channels_router_def)
  next
    case 2
    then show ?thesis by (intro twin [of "''GET''" "''/''" "''read_channels''"]) (simp_all add: channels_router_def)
  next
    case 3
    then show ?thesis by (intro twin [of "''GET''" "''/{channel_id}''" "''read_channel''"]) (simp_all add: channels_router_def par)
  next
    case 4
    then show ?thesis by (intro twin [of "''PUT''" "''/{channel_id}''" "''update_channel''"]) (simp_all add: channels_router_def par)
  next
    case 5
    then show ?thesis by (intro twin [of "''DELETE''" "''/{channel_id}''" "''delete_channel''"]) (simp_all add: channels_router_def par)
  qed
qed

lemma endpoints_include [simp]: "rt_endpoint ` set (include_router rs p) = rt_endpoint ` set rs"
  by (simp add: include_router_def image_image)

lemma own_endpoints_free:
  "rt_endpoint ` set (docs_routes c @ backend_chats_router @ backend_media_router @ channels_router) \<inter> shadowed_endpoints = {}"
  "''health_check'' \<notin> shadowed_endpoints"
  by (cases "DEBUG c", simp_all add: docs_routes_def backend_chats_router_def backend_media_router_def channels_router_def
      on_def shadowed_endpoints_def)

definition module_routes :: "backend_modules \<Rightarrow> route list \<Rightarrow> route list" where
  "module_routes ms keys = bm_auth ms @ bm_groups ms @ bm_broadcasts ms @ bm_admin ms @ bm_ocr ms @ bm_receipts ms @ keys @ bm_websocket ms"

lemma backend_routes_split:
  assumes "backend_routes ms (Some keys) c = Inr rs"
    and "\<forall>r\<in>set (module_routes ms keys). rt_endpoint r \<notin> shadowed_endpoints"
  obtains front rest where "rs = front @ include_router communities_router (API_PREFIX c) @ rest"
    and "set (include_router channels_router (API_PREFIX c)) \<subseteq> set front"
    and "rt_endpoint ` set front \<inter> shadowed_endpoints = {}" and "rt_endpoint ` set rest \<inter> shadowed_endpoints = {}"
proof -
  let ?p = "API_PREFIX c"
  let ?front = "docs_routes c @ include_router (bm_auth ms @ backend_chats_router @ bm_groups ms @ backend_media_router @
    bm_broadcasts ms @ bm_admin ms @ bm_ocr ms @ bm_receipts ms @ keys @ channels_router) ?p"
  let ?rest = "include_router (bm_websocket ms) [] @ [on ''GET'' ''/health'' ''health_check'']"
  let ?own = "docs_routes c @ backend_chats_router @ backend_media_router @ channels_router"
  have "rs = ?front @ include_router communities_router ?p @ ?rest"
    using assms(1) by (simp add: backend_routes_def Let_def)
  moreover have "set (include_router channels_router ?p) \<subseteq> set ?front" by auto
  moreover have free: "rt_endpoint ` set (module_routes ms keys) \<inter> shadowed_endpoints = {}" using assms(2) by blast
  moreover have "rt_endpoint ` set ?front \<inter> shadowed_endpoints = {}"
  proof -
    have "rt_endpoint ` set ?front \<subseteq> rt_endpoint ` set (module_routes ms keys) \<union> rt_endpoint ` set ?own"
      by (simp add: image_Un module_routes_def del: include_router_append) blast
    then show ?thesis using free own_endpoints_free(1) [of c] by blast
  qed
  moreover have "rt_endpoint ` set ?rest \<inter> shadowed_endpoints = {}"
    using free own_endpoints_free(2) by (simp add: image_Un on_def module_routes_def Int_Un_distrib2)
  ultimately show thesis using that by blast
qed

text \<open>
  C20. Suppose the modules of the second backend could be imported and its key module had a router. Whatever that router
  and the missing modules define under other names, no request would ever be handled by the five main routes of
  the communities: the channels are included before them, without a prefix of their own, and take every
  such request.
\<close>

theorem communities_unreachable:
  assumes "routing dispatch" and "backend_app fails ms (Some keys) c = Inr rs"
    and "\<forall>r\<in>set (module_routes ms keys). rt_endpoint r \<notin> shadowed_endpoints"
  shows "\<forall>e\<in>shadowed_endpoints. dispatch rs m p \<noteq> Some e"
proof (intro ballI notI)
  fix e
  assume e: "e \<in> shadowed_endpoints" "dispatch rs m p = Some e"
  let ?P = "\<lambda>r. rt_method r = m \<and> matches (template (rt_path r)) (segments p)"
  obtain front rest where rs: "rs = front @ include_router communities_router (API_PREFIX c) @ rest"
    and channels: "set (include_router channels_router (API_PREFIX c)) \<subseteq> set front"
    and front: "rt_endpoint ` set front \<inter> shadowed_endpoints = {}" and rest: "rt_endpoint ` set rest \<inter> shadowed_endpoints = {}"
    using assms(2) backend_routes_split [OF _ assms(3)] by (auto simp: backend_app_def split: option.splits)
  obtain r where r: "scalar ?P rs = Some r" "rt_endpoint r = e" using e(2) routing.in_order [OF assms(1), of rs m p] by auto
  have "scalar ?P front = None"
  proof (cases "scalar ?P front")
    case (Some q)
    then have "r \<in> set front" using r(1) find_SomeD [OF Some] by (simp add: rs find_append)
    with front e(1) r(2) show ?thesis by blast
  qed simp
  then have "r \<in> set (include_router communities_router (API_PREFIX c)) \<union> set rest" "?P r"
    using r(1) find_SomeD by (fastforce simp: rs find_append split: option.splits)+
  then have "r \<in> set (include_router communities_router (API_PREFIX c))" "?P r" using rest e(1) r(2) by blast+
  moreover from this obtain q where "q \<in> set (include_router channels_router (API_PREFIX c))" "?P q"
    using community_twin [of r "API_PREFIX c"] e(1) r(2) by auto
  ultimately show False using channels \<open>scalar ?P front = None\<close> by (auto simp: find_None_iff)
qed

theorem communities_unreachable_witness:
  "\<exists>rs. backend_app (\<lambda>_. None) (\<lparr>bm_auth = auth_router, bm_groups = groups_router, bm_broadcasts = broadcasts_router, bm_admin = admin_router,
       bm_ocr = ocr_router, bm_receipts = receipts_router, bm_websocket = websocket_router\<rparr>) (Some keys_router) settings_defaults = Inr rs \<and>
     first_match rs ''GET'' ''/api/v1/7'' = Some ''read_channel'' \<and> first_match rs ''GET'' ''/api/v1/7'' \<noteq> Some ''read_community''"
proof -
  let ?ms = "\<lparr>bm_auth = auth_router, bm_groups = groups_router, bm_broadcasts = broadcasts_router, bm_admin = admin_router,
    bm_ocr = ocr_router, bm_receipts = receipts_router, bm_websocket = websocket_router\<rparr> :: backend_modules"
  obtain rs where rs: "backend_app (\<lambda>_. None) ?ms (Some keys_router) settings_defaults = Inr rs"
    by (simp add: backend_routes_def Let_def)
  have "list_all (\<lambda>r. rt_endpoint r \<notin> shadowed_endpoints) (auth_router @ groups_router @ broadcasts_router @ admin_router @ ocr_router @
      receipts_router @ keys_router @ websocket_router)" by code_simp
  then have free: "\<forall>r\<in>set (module_routes ?ms keys_router). rt_endpoint r \<notin> shadowed_endpoints"
    by (simp add: list_all_iff ball_Un module_routes_def)
  have "''read_community'' \<in> shadowed_endpoints" by (simp add: shadowed_endpoints_def)
  then have "first_match rs ''GET'' ''/api/v1/7'' \<noteq> Some ''read_community''"
    using communities_unreachable [OF first.routing_axioms rs free, of "''GET''" "''/api/v1/7''"] by blast
  moreover have "(case backend_app (\<lambda>_. None) ?ms (Some keys_router) settings_defaults of Inr rs \<Rightarrow>
      first_match rs ''GET'' ''/api/v1/7'' = Some ''read_channel'' | Inl e \<Rightarrow> False)" by code_simp
  ultimately show ?thesis using rs by auto
qed

end
