(* ===== verification/Scripts.thy ===== *)
theory Scripts
  imports Auth
begin

text \<open>
  The developer scripts: \<^verbatim>\<open>scripts/seed_dev_users.py\<close>, which creates or updates three
  accounts in one transaction, and \<^verbatim>\<open>scripts/dev_get_otp.py\<close>, which shows an outstanding
  one-time code. Of the text they print only the code is kept. The Arabic names of the seeded
  accounts lie outside the characters represented here and are arguments.

  The transaction of the first script works on the loaded rows and on a list of pending
  objects, whose columns may be missing; \<open>insert_user\<close> is the INSERT of such an object, with
  the column defaults of \<^verbatim>\<open>models/user.py\<close>. The unique index on \<open>username\<close> is
  checked on the rows the transaction leaves.
\<close>

section \<open>Seeding accounts\<close>

record seed_spec =
  sp_phone_number :: string
  sp_full_name :: string
  sp_username :: string
  sp_military_id :: string
  sp_department :: string
  sp_role :: UserRole

record seed_names =
  sn_major :: string
  sn_captain :: string
  sn_supervisor :: string
  sn_operations :: string
  sn_command :: string

definition SEED_USERS :: "seed_names \<Rightarrow> seed_spec list" where
  "SEED_USERS n =
     [\<lparr>sp_phone_number = ''+201000000001'', sp_full_name = sn_major n, sp_username = ''ahmed'',
       sp_military_id = ''MIL-1001'', sp_department = sn_operations n, sp_role = OFFICER\<rparr>,
      \<lparr>sp_phone_number = ''+201000000002'', sp_full_name = sn_captain n, sp_username = ''khaled'',
       sp_military_id = ''MIL-1002'', sp_department = sn_operations n, sp_role = OFFICER\<rparr>,
      \<lparr>sp_phone_number = ''+201000000009'', sp_full_name = sn_supervisor n, sp_username = ''ops_admin'',
       sp_military_id = ''MIL-0000'', sp_department = sn_command n, sp_role = SUPERADMIN\<rparr>]"

text \<open>A \<^verbatim>\<open>User\<close> object that is not in the database yet; \<open>None\<close> is an attribute never assigned.\<close>

record user_draft =
  dr_phone_number :: "string option"
  dr_full_name :: "string option"
  dr_username :: "string option"
  dr_department :: "string option"
  dr_hashed_military_id :: "string option"
  dr_hashed_password :: "string option"
  dr_status :: "string option"
  dr_role :: "string option"

definition new_user :: "string \<Rightarrow> user_draft" where
  "new_user phone = \<lparr>dr_phone_number = Some phone, dr_full_name = None, dr_username = None, dr_department = None,
     dr_hashed_military_id = None, dr_hashed_password = None, dr_status = None, dr_role = None\<rparr>"

definition insert_user :: "uuid \<Rightarrow> instant \<Rightarrow> user_draft \<Rightarrow> user res" where
  "insert_user i now dr =
     (case (dr_phone_number dr, dr_full_name dr, dr_hashed_military_id dr, dr_hashed_password dr) of
        (Some phone, Some name, Some mil, Some pw) \<Rightarrow>
          Inr \<lparr>u_id = i, u_created_at = now, phone_number = phone, full_name = name, username = dr_username dr,
            department = dr_department dr, fcm_token = None, hashed_military_id = mil, hashed_password = pw,
            device_fingerprint = None, token_version = 1,
            u_status = (case dr_status dr of None \<Rightarrow> status_value ACTIVE | Some s \<Rightarrow> s),
            u_role = (case dr_role dr of None \<Rightarrow> role_value SOLDIER | Some r \<Rightarrow> r),
            expiry_date = None, last_seen_at = None, is_online = False, u_avatar_object_key = None,
            mfa_enabled = True\<rparr>
      | _ \<Rightarrow> Inl IntegrityError)"

definition assign_row :: "crypto \<Rightarrow> (string \<Rightarrow> string) \<Rightarrow> seed_spec \<Rightarrow> user \<Rightarrow> user" where
  "assign_row C salt sp u = u\<lparr>full_name := sp_full_name sp, username := Some (sp_username sp),
     department := Some (sp_department sp), u_role := role_value (sp_role sp), u_status := status_value ACTIVE,
     hashed_military_id := hash_military_id C (salt (sp_phone_number sp)) (sp_military_id sp)\<rparr>"

definition assign_draft :: "crypto \<Rightarrow> (string \<Rightarrow> string) \<Rightarrow> seed_spec \<Rightarrow> user_draft \<Rightarrow> user_draft" where
  "assign_draft C salt sp dr = dr\<lparr>dr_full_name := Some (sp_full_name sp), dr_username := Some (sp_username sp),
     dr_department := Some (sp_department sp), dr_role := Some (role_value (sp_role sp)),
     dr_status := Some (status_value ACTIVE),
     dr_hashed_military_id := Some (hash_military_id C (salt (sp_phone_number sp)) (sp_military_id sp))\<rparr>"

text \<open>One round of the loop, on the rows as the session sees them and the pending objects.\<close>

definition seed_user ::
  "crypto \<Rightarrow> (string \<Rightarrow> string) \<Rightarrow> seed_spec \<Rightarrow> user list \<times> user_draft list \<Rightarrow> user list \<times> user_draft list" where
  "seed_user C salt sp = (\<lambda>(rows, drafts).
     case scalar (\<lambda>u. phone_number u = sp_phone_number sp) rows of
       None \<Rightarrow> (rows, drafts @ [assign_draft C salt sp (new_user (sp_phone_number sp))])
     | Some user \<Rightarrow> (update_where (\<lambda>u. u_id u = u_id user) (\<lambda>_. assign_row C salt sp user) rows, drafts))"

text \<open>\<open>salt\<close> is the bcrypt salt drawn for a number, \<open>ids\<close> the ids of the inserted rows.\<close>

definition seed_main ::
  "crypto \<Rightarrow> (string \<Rightarrow> string) \<Rightarrow> (string \<Rightarrow> uuid) \<Rightarrow> instant \<Rightarrow> seed_names \<Rightarrow> (db, unit) handler" where
  "seed_main C salt ids now names d =
     (let (rows, drafts) = fold (seed_user C salt) (SEED_USERS names) (users d, [])
      in case map_res (\<lambda>dr. insert_user (ids (case dr_phone_number dr of None \<Rightarrow> [] | Some p \<Rightarrow> p)) now dr) drafts of
           Inl e \<Rightarrow> (Inl e, d)
         | Inr new \<Rightarrow> commit d (d\<lparr>users := rows @ new\<rparr>) ())"

section \<open>Showing a code\<close>

datatype otp_report = USAGE | REFUSED | NO_USER string | NO_CODE string | SHOWN string string

definition dev_get_otp :: "'s redis \<Rightarrow> settings \<Rightarrow> string \<Rightarrow> 's world \<Rightarrow> nat \<times> otp_report" where
  "dev_get_otp R c phone w =
     (if ENV c \<noteq> ''development'' then (2, REFUSED)
      else case scalar (\<lambda>u. phone_number u = phone) (users (w_db w)) of
        None \<Rightarrow> (1, NO_USER phone)
      | Some user \<Rightarrow>
          (case r_get R (''otp:'' @ uuid_str (u_id user)) (w_otp w) of
             None \<Rightarrow> (1, NO_CODE phone)
           | Some code \<Rightarrow> (0, SHOWN phone code)))"

text \<open>The module as a program: its arguments, with the program name first, and its exit status.\<close>

definition dev_get_otp_program :: "'s redis \<Rightarrow> settings \<Rightarrow> string list \<Rightarrow> 's world \<Rightarrow> nat \<times> otp_report" where
  "dev_get_otp_program R c argv w =
     (if length argv \<noteq> 2 then (2, USAGE) else dev_get_otp R c (argv ! 1) w)"

section \<open>The rows seeding leaves\<close>

definition spec_of :: "seed_spec list \<Rightarrow> user \<Rightarrow> seed_spec option" where
  "spec_of sps u = scalar (\<lambda>sp. sp_phone_number sp = phone_number u) sps"

definition seeded :: "crypto \<Rightarrow> (string \<Rightarrow> string) \<Rightarrow> seed_spec list \<Rightarrow> user \<Rightarrow> user" where
  "seeded C salt sps u = (case spec_of sps u of None \<Rightarrow> u | Some sp \<Rightarrow> assign_row C salt sp u)"

text \<open>Every number has an account; nobody else holds a username of the specification.\<close>

definition seed_phones :: "seed_spec list \<Rightarrow> user list \<Rightarrow> bool" where
  "seed_phones sps us \<longleftrightarrow> sp_phone_number ` set sps \<subseteq> phone_number ` set us"

definition usernames_free :: "seed_spec list \<Rightarrow> user list \<Rightarrow> bool" where
  "usernames_free sps us \<longleftrightarrow>
     (\<forall>u\<in>set us. \<forall>sp\<in>set sps. username u = Some (sp_username sp) \<longrightarrow> phone_number u = sp_phone_number sp)"

text \<open>No account of the specification holds the username of another one.\<close>

definition usernames_kept :: "seed_spec list \<Rightarrow> user list \<Rightarrow> bool" where
  "usernames_kept sps us \<longleftrightarrow>
     (\<forall>u\<in>set us. \<forall>sp\<in>set sps. username u = Some (sp_username sp) \<and> phone_number u \<in> sp_phone_number ` set sps \<longrightarrow>
       phone_number u = sp_phone_number sp)"

lemma assign_row_sel [simp]:
  "u_id (assign_row C salt sp u) = u_id u" "phone_number (assign_row C salt sp u) = phone_number u"
  "username (assign_row C salt sp u) = Some (sp_username sp)" "u_status (assign_row C salt sp u) = status_value ACTIVE"
  "u_role (assign_row C salt sp u) = role_value (sp_role sp)"
  "hashed_military_id (assign_row C salt sp u) = hash_military_id C (salt (sp_phone_number sp)) (sp_military_id sp)"
  "assign_row C salt sp (assign_row C salt' sp u) = assign_row C salt sp u"
  by (simp_all add: assign_row_def)

lemma seeded_sel [simp]:
  "u_id (seeded C salt sps u) = u_id u" "phone_number (seeded C salt sps u) = phone_number u"
  "spec_of sps (seeded C salt sps' u) = spec_of sps u"
  "seeded C salt sps (seeded C salt' sps u) = seeded C salt sps u"
  by (simp_all add: seeded_def spec_of_def split: option.splits)

lemma seed_phones_map [simp]: "seed_phones sps (map (seeded C salt sps') us) \<longleftrightarrow> seed_phones sps us"
  by (simp add: seed_phones_def image_image)

lemma update_by_phone:
  assumes "unique_on u_id us" and "unique_on phone_number us" and "scalar (\<lambda>u. phone_number u = p) us = Some user"
  shows "update_where (\<lambda>u. u_id u = u_id user) (\<lambda>_. f user) us = map (\<lambda>u. if phone_number u = p then f u else u) us"
proof -
  have user: "user \<in> set us" "phone_number user = p" using find_SomeD [OF assms(3)] by simp_all
  have "u_id u = u_id user \<longleftrightarrow> phone_number u = p" "phone_number u = p \<Longrightarrow> u = user" if "u \<in> set us" for u
    using that user unique_onD [OF assms(1)] unique_onD [OF assms(2)] by metis+
  then show ?thesis unfolding update_where_def by (intro map_cong) auto
qed

lemma seeded_Cons:
  assumes "sp_phone_number sp \<notin> sp_phone_number ` set sps"
  shows "seeded C salt (sp # sps) u =
    seeded C salt sps (if phone_number u = sp_phone_number sp then assign_row C salt sp u else u)"
proof (cases "phone_number u = sp_phone_number sp")
  case True
  with assms have "spec_of sps (assign_row C salt sp u) = None"
    by (auto simp: spec_of_def find_None_iff) (metis imageI)
  with True show ?thesis by (simp add: seeded_def) (simp add: spec_of_def)
next
  case False
  then show ?thesis by (auto simp: seeded_def spec_of_def)
qed

text \<open>One round over well-keyed rows: the row with the number is rewritten, or an object is pending.\<close>

definition overwritten :: "crypto \<Rightarrow> (string \<Rightarrow> string) \<Rightarrow> seed_spec \<Rightarrow> user list \<Rightarrow> user list" where
  "overwritten C salt sp us = map (\<lambda>u. if phone_number u = sp_phone_number sp then assign_row C salt sp u else u) us"

lemma overwritten_keys:
  "map u_id (overwritten C salt sp us) = map u_id us"
  "map phone_number (overwritten C salt sp us) = map phone_number us"
  "phone_number ` set (overwritten C salt sp us) = phone_number ` set us"
proof -
  show "map u_id (overwritten C salt sp us) = map u_id us" by (simp add: overwritten_def)
  show p: "map phone_number (overwritten C salt sp us) = map phone_number us" by (simp add: overwritten_def)
  show "phone_number ` set (overwritten C salt sp us) = phone_number ` set us" using p by (metis set_map)
qed

lemma seed_user_step:
  assumes "unique_on u_id us" and "unique_on phone_number us"
  shows "seed_user C salt sp (us, ds) = (overwritten C salt sp us,
    if sp_phone_number sp \<in> phone_number ` set us then ds
    else ds @ [assign_draft C salt sp (new_user (sp_phone_number sp))])"
proof (cases "scalar (\<lambda>u. phone_number u = sp_phone_number sp) us")
  case None
  then have "\<forall>u\<in>set us. phone_number u \<noteq> sp_phone_number sp" by (simp add: find_None_iff)
  then have "overwritten C salt sp us = us" "sp_phone_number sp \<notin> phone_number ` set us"
    by (simp_all add: overwritten_def map_idI) (metis imageE)
  with None show ?thesis by (simp add: seed_user_def)
next
  case (Some user)
  then have "sp_phone_number sp \<in> phone_number ` set us" using find_SomeD [OF Some] by (metis imageI)
  with Some update_by_phone [OF assms Some] show ?thesis by (simp add: seed_user_def overwritten_def)
qed

text \<open>The loop, with accounts for all numbers: every row is rewritten by its specification.\<close>

lemma fold_seed:
  assumes "unique_on u_id us" and "unique_on phone_number us" and "distinct (map sp_phone_number sps)"
    and "seed_phones sps us"
  shows "fold (seed_user C salt) sps (us, ds) = (map (seeded C salt sps) us, ds)"
  using assms
proof (induction sps arbitrary: us)
  case Nil
  then show ?case by (simp add: seeded_def spec_of_def)
next
  case (Cons sp sps)
  let ?us = "overwritten C salt sp us"
  have "fold (seed_user C salt) sps (?us, ds) = (map (seeded C salt sps) ?us, ds)"
  proof (rule Cons.IH)
    show "unique_on u_id ?us" "unique_on phone_number ?us"
      using Cons.prems(1,2) unfolding unique_on_def overwritten_keys .
    show "distinct (map sp_phone_number sps)" using Cons.prems(3) by simp
    show "seed_phones sps ?us" using Cons.prems(4) unfolding seed_phones_def overwritten_keys by simp
  qed
  moreover have "map (seeded C salt sps) ?us = map (seeded C salt (sp # sps)) us"
    using Cons.prems(3) by (simp add: seeded_Cons overwritten_def)
  moreover have "sp_phone_number sp \<in> phone_number ` set us" using Cons.prems(4) by (simp add: seed_phones_def)
  ultimately show ?case
    unfolding fold_Cons comp_def seed_user_step [OF Cons.prems(1,2)] by (simp only: if_True)
qed

text \<open>A number without an account leaves a pending object without a password, which cannot be inserted.\<close>

lemma insert_user_no_password: "dr_hashed_password dr = None \<Longrightarrow> insert_user i now dr = Inl IntegrityError"
  by (simp add: insert_user_def split: option.splits)

lemma fold_drafts:
  assumes "unique_on u_id us" and "unique_on phone_number us" and "\<forall>dr\<in>set ds. dr_hashed_password dr = None"
    and "ds' = snd (fold (seed_user C salt) sps (us, ds))"
  shows "(\<forall>dr\<in>set ds'. dr_hashed_password dr = None) \<and> (ds \<noteq> [] \<or> \<not> seed_phones sps us \<longrightarrow> ds' \<noteq> [])"
  using assms
proof (induction sps arbitrary: us ds)
  case Nil
  then show ?case by (simp add: seed_phones_def)
next
  case (Cons sp sps)
  let ?us = "overwritten C salt sp us"
  let ?ds = "if sp_phone_number sp \<in> phone_number ` set us then ds
    else ds @ [assign_draft C salt sp (new_user (sp_phone_number sp))]"
  have "unique_on u_id ?us" "unique_on phone_number ?us"
    using Cons.prems(1,2) unfolding unique_on_def overwritten_keys .
  moreover have "\<forall>dr\<in>set ?ds. dr_hashed_password dr = None"
    using Cons.prems(3) by (auto simp: assign_draft_def new_user_def)
  moreover have "ds' = snd (fold (seed_user C salt) sps (?us, ?ds))"
    using Cons.prems(4) unfolding fold_Cons comp_def seed_user_step [OF Cons.prems(1,2)] .
  moreover have "seed_phones sps ?us \<longleftrightarrow> seed_phones sps us" by (simp add: seed_phones_def overwritten_keys)
  ultimately have "(\<forall>dr\<in>set ds'. dr_hashed_password dr = None) \<and> (?ds \<noteq> [] \<or> \<not> seed_phones sps us \<longrightarrow> ds' \<noteq> [])"
    using Cons.IH [of ?us ?ds] by blast
  moreover have "ds \<noteq> [] \<or> \<not> seed_phones (sp # sps) us \<Longrightarrow> ?ds \<noteq> [] \<or> \<not> seed_phones sps us"
    by (auto simp: seed_phones_def)
  ultimately show ?case by blast
qed

lemma spec_ofD: "spec_of sps u = Some sp \<Longrightarrow> sp \<in> set sps \<and> sp_phone_number sp = phone_number u"
  unfolding spec_of_def by (drule find_SomeD) simp

lemma username_seeded:
  "username (seeded C salt sps x) = (case spec_of sps x of None \<Rightarrow> username x | Some sp \<Rightarrow> Some (sp_username sp))"
  by (simp add: seeded_def split: option.splits)

text \<open>Usernames of the accounts: NULL or held by one row.\<close>

lemma distinct_usernames:
  assumes "unique_on u_id us"
  shows "distinct (filter (\<lambda>n. n \<noteq> None) (map f us)) \<longleftrightarrow>
    (\<forall>x\<in>set us. \<forall>y\<in>set us. f x = f y \<and> f x \<noteq> None \<longrightarrow> x = y)"
proof -
  have "distinct us" using assms by (auto simp: unique_on_def distinct_map)
  then have "distinct (filter (\<lambda>n. n \<noteq> None) (map f us)) \<longleftrightarrow> inj_on f {x \<in> set us. f x \<noteq> None}"
    by (simp add: filter_map distinct_map comp_def)
  moreover have "inj_on f {x \<in> set us. f x \<noteq> None} \<longleftrightarrow> (\<forall>x\<in>set us. \<forall>y\<in>set us. f x = f y \<and> f x \<noteq> None \<longrightarrow> x = y)"
  proof
    assume "inj_on f {x \<in> set us. f x \<noteq> None}"
    then have "x = y" if "x \<in> set us" "y \<in> set us" "f x = f y" "f x \<noteq> None" for x y
      using that by (elim inj_onD) simp_all
    then show "\<forall>x\<in>set us. \<forall>y\<in>set us. f x = f y \<and> f x \<noteq> None \<longrightarrow> x = y" by blast
  qed (auto intro!: inj_onI)
  ultimately show ?thesis by (simp only:)
qed

lemma users_ok_seeded:
  assumes "users_ok us" and "usernames_free sps us" and "distinct (map sp_username sps)"
  shows "users_ok (map (seeded C salt sps) us)"
proof -
  let ?s = "seeded C salt sps"
  have u: "unique_on u_id us" "unique_on phone_number us" using assms(1) by (simp_all add: users_ok_def)
  have un: "x = y" if "x \<in> set us" "y \<in> set us" "username x = username y" "username x \<noteq> None" for x y
    using assms(1) that unfolding users_ok_def distinct_usernames [OF u(1)] by blast
  have half: "x = y" if "x \<in> set us" "y \<in> set us" "spec_of sps x = Some sp" "username (?s x) = username (?s y)" for x y sp
  proof (cases "spec_of sps y")
    case None
    then have "username y = Some (sp_username sp)" using that by (simp add: username_seeded)
    then have "phone_number y = phone_number x"
      using assms(2) that spec_ofD [OF that(3)] unfolding usernames_free_def by metis
    then show ?thesis using that u(2) by (metis unique_onD)
  next
    case (Some sp')
    then have "sp = sp'"
      using that assms(3) spec_ofD [OF that(3)] spec_ofD [OF Some] by (simp add: username_seeded distinct_map inj_on_def)
    then show ?thesis using that u(2) spec_ofD [OF that(3)] spec_ofD [OF Some] by (metis unique_onD)
  qed
  have "x = y" if "x \<in> set us" "y \<in> set us" "username (?s x) = username (?s y)" "username (?s x) \<noteq> None" for x y
    using half [of x y] half [of y x] un [of x y] that
    by (cases "spec_of sps x"; cases "spec_of sps y") (simp_all add: username_seeded)
  then have "distinct (filter (\<lambda>n. n \<noteq> None) (map (\<lambda>x. username (?s x)) us))"
    unfolding distinct_usernames [OF u(1)] by blast
  with u show ?thesis by (simp add: users_ok_def unique_on_def comp_def)
qed

lemma usernames_free_seeded:
  assumes "usernames_free sps us" and "distinct (map sp_username sps)"
  shows "usernames_free sps (map (seeded C salt sps) us)"
proof -
  have "phone_number x = sp_phone_number sp"
    if "x \<in> set us" "sp \<in> set sps" "username (seeded C salt sps x) = Some (sp_username sp)" for x sp
  proof (cases "spec_of sps x")
    case None
    with that assms(1) show ?thesis by (simp add: username_seeded usernames_free_def)
  next
    case (Some sp')
    with that assms(2) spec_ofD [OF Some] have "sp' = sp" by (simp add: username_seeded distinct_map inj_on_def)
    with spec_ofD [OF Some] show ?thesis by simp
  qed
  then show ?thesis by (simp add: usernames_free_def)
qed

lemma SEED_USERS_distinct:
  "distinct (map sp_phone_number (SEED_USERS n))" "distinct (map sp_username (SEED_USERS n))"
  by (simp_all add: SEED_USERS_def)

lemma integrity_seeded:
  assumes "integrity d" and "usernames_free (SEED_USERS n) (users d)"
  shows "integrity (d\<lparr>users := map (seeded C salt (SEED_USERS n)) (users d)\<rparr>)"
proof -
  have ids: "map (u_id \<circ> seeded C salt (SEED_USERS n)) (users d) = map u_id (users d)" by (simp add: comp_def)
  show ?thesis
    using assms(1) users_ok_seeded [OF _ assms(2) SEED_USERS_distinct(2)] by (simp add: integrity_def ids)
qed

lemma seed_main_update:
  assumes "integrity d" and "usernames_free (SEED_USERS n) (users d)" and "seed_phones (SEED_USERS n) (users d)"
  shows "seed_main C salt ids now n d = (Inr (), d\<lparr>users := map (seeded C salt (SEED_USERS n)) (users d)\<rparr>)"
proof -
  have "unique_on u_id (users d)" "unique_on phone_number (users d)"
    using assms(1) by (simp_all add: integrity_def users_ok_def)
  from fold_seed [OF this SEED_USERS_distinct(1) assms(3)] show ?thesis
    using integrity_seeded [OF assms(1,2)] by (simp add: seed_main_def commit_def)
qed

lemma seed_main_insert:
  assumes "integrity d" and "\<not> seed_phones (SEED_USERS n) (users d)"
  shows "seed_main C salt ids now n d = (Inl IntegrityError, d)"
proof -
  have un: "unique_on u_id (users d)" "unique_on phone_number (users d)"
    using assms(1) by (simp_all add: integrity_def users_ok_def)
  obtain rows drafts where f: "fold (seed_user C salt) (SEED_USERS n) (users d, []) = (rows, drafts)" by force
  with fold_drafts [OF un, of "[]" drafts C salt "SEED_USERS n"] assms(2)
  have "drafts \<noteq> []" "\<forall>dr\<in>set drafts. dr_hashed_password dr = None" by simp_all
  with f show ?thesis by (cases drafts) (simp_all add: seed_main_def insert_user_no_password)
qed

lemma seed_main_taken:
  assumes "integrity d" and "usernames_kept (SEED_USERS n) (users d)" and "seed_phones (SEED_USERS n) (users d)"
    and "\<not> usernames_free (SEED_USERS n) (users d)"
  shows "seed_main C salt ids now n d = (Inl IntegrityError, d)"
proof -
  let ?sps = "SEED_USERS n" and ?s = "seeded C salt (SEED_USERS n)"
  obtain u sp where u: "u \<in> set (users d)" "sp \<in> set ?sps" "username u = Some (sp_username sp)"
      "phone_number u \<noteq> sp_phone_number sp" using assms(4) unfolding usernames_free_def by blast
  then have outside: "phone_number u \<notin> sp_phone_number ` set ?sps" using assms(2) unfolding usernames_kept_def by blast
  have "spec_of ?sps u = None"
  proof (rule ccontr)
    assume "spec_of ?sps u \<noteq> None"
    then obtain sp' where "spec_of ?sps u = Some sp'" by (rule not_None_eq [THEN iffD1, THEN exE])
    from spec_ofD [OF this] have "phone_number u \<in> sp_phone_number ` set ?sps" by (metis imageI)
    with outside show False by (rule notE)
  qed
  moreover have "sp_phone_number sp \<in> phone_number ` set (users d)"
    using assms(3) imageI [OF u(2), of sp_phone_number] unfolding seed_phones_def by (rule subsetD)
  then obtain y where y: "y \<in> set (users d)" "phone_number y = sp_phone_number sp" by (elim imageE) simp
  have "spec_of ?sps y = Some sp"
    unfolding spec_of_def y(2) using find_unique [of sp_phone_number ?sps sp] SEED_USERS_distinct(1) u(2)
    by (simp add: unique_on_def)
  ultimately have same: "username (?s u) = Some (sp_username sp)" "username (?s y) = Some (sp_username sp)"
    using u(3) by (simp_all add: username_seeded)
  have un: "unique_on u_id (users d)" "unique_on phone_number (users d)"
    using assms(1) by (simp_all add: integrity_def users_ok_def)
  have "?s u \<noteq> ?s y" using u(4) y(2) by (metis seeded_sel(2))
  moreover have "unique_on u_id (map ?s (users d))" using un(1) by (simp add: unique_on_def comp_def)
  ultimately have "\<not> distinct (filter (\<lambda>n. n \<noteq> None) (map username (map ?s (users d))))"
    unfolding distinct_usernames [OF \<open>unique_on u_id (map ?s (users d))\<close>] using same u(1) y(1) by force
  then have "\<not> integrity (d\<lparr>users := map ?s (users d)\<rparr>)" by (simp add: integrity_def users_ok_def)
  then show ?thesis
    using fold_seed [OF un SEED_USERS_distinct(1) assms(3)] by (simp add: seed_main_def commit_def)
qed

section \<open>Properties\<close>

text \<open>
  C21. Seeding is all or nothing. Provided that none of the three accounts already holds the username meant for
  another of them, it succeeds exactly when the three numbers have accounts and nobody else holds one of the
  three usernames. It then keeps every other account and every id, makes the three active with their
  roles and military ids, and a second run gives what that run alone would have given. Otherwise it
  fails with an integrity error and changes nothing: with an account missing because the inserted row has no password,
  with a username taken because usernames are unique.
\<close>

theorem seed_users_outcome:
  assumes "crypto_laws C" and "integrity d" and "usernames_kept (SEED_USERS n) (users d)"
    and "seed_main C salt ids now n d = (res, d')"
  shows "(res = Inr () \<longleftrightarrow> seed_phones (SEED_USERS n) (users d) \<and> usernames_free (SEED_USERS n) (users d)) \<and>
    (res = Inr () \<or> res = Inl IntegrityError \<and> d' = d) \<and>
    (res = Inr () \<longrightarrow> integrity d' \<and> map u_id (users d') = map u_id (users d) \<and>
      (\<forall>u\<in>set (users d). spec_of (SEED_USERS n) u = None \<longrightarrow> u \<in> set (users d')) \<and>
      (\<forall>u\<in>set (users d'). \<forall>sp. spec_of (SEED_USERS n) u = Some sp \<longrightarrow>
         u_status u = status_value ACTIVE \<and> u_role u = role_value (sp_role sp) \<and>
         verify_military_id C (sp_military_id sp) (hashed_military_id u)) \<and>
      seed_main C salt' ids' now' n d' = seed_main C salt' ids' now' n d)"
proof (cases "seed_phones (SEED_USERS n) (users d) \<and> usernames_free (SEED_USERS n) (users d)")
  case False
  have "seed_main C salt ids now n d = (Inl IntegrityError, d)"
    using False seed_main_insert [OF assms(2)] seed_main_taken [OF assms(2,3)] by blast
  with False assms(4) show ?thesis by auto
next
  case True
  let ?s = "\<lambda>salt. seeded C salt (SEED_USERS n)"
  have d': "res = Inr ()" "d' = d\<lparr>users := map (?s salt) (users d)\<rparr>"
    using seed_main_update [OF assms(2) conjunct2 [OF True] conjunct1 [OF True]] assms(4) by simp_all
  have i: "integrity d'" using integrity_seeded [OF assms(2) conjunct2 [OF True]] d' by simp
  have free: "usernames_free (SEED_USERS n) (users d')"
    using usernames_free_seeded [OF conjunct2 [OF True] SEED_USERS_distinct(2)] d' by simp
  have again: "seed_main C salt' ids' now' n d' = seed_main C salt' ids' now' n d"
    using seed_main_update [OF assms(2) conjunct2 [OF True] conjunct1 [OF True], of C salt'] seed_main_update [OF i free, of C salt'] True d'
    by (simp add: comp_def)
  have "u \<in> set (users d')" if "u \<in> set (users d)" "spec_of (SEED_USERS n) u = None" for u
    using that d' by (force simp: seeded_def)
  moreover have "u_status u = status_value ACTIVE \<and> u_role u = role_value (sp_role sp) \<and>
      verify_military_id C (sp_military_id sp) (hashed_military_id u)"
    if u: "u \<in> set (users d')" "spec_of (SEED_USERS n) u = Some sp" for u sp
  proof -
    obtain x where x: "u = ?s salt x" using u(1) d' by auto
    with u(2) have "spec_of (SEED_USERS n) x = Some sp" by simp
    with x verify_hash_military_id [OF assms(1)] show ?thesis by (simp add: seeded_def)
  qed
  ultimately show ?thesis using d' True i again by (simp add: comp_def)
qed

text \<open>A database with the three accounts, deactivated and without names.\<close>

definition seed_demo :: db where
  "seed_demo = empty_db\<lparr>users := [demo_user,
     demo_user\<lparr>u_id := 2, phone_number := ''+201000000001'', u_status := ''deactivated''\<rparr>,
     demo_user\<lparr>u_id := 3, phone_number := ''+201000000002'', u_status := ''deactivated''\<rparr>,
     demo_user\<lparr>u_id := 4, phone_number := ''+201000000009'', u_status := ''deactivated''\<rparr>]\<rparr>"

abbreviation demo_names :: seed_names where
  "demo_names \<equiv> \<lparr>sn_major = ''a'', sn_captain = ''k'', sn_supervisor = ''s'', sn_operations = ''o'', sn_command = ''c''\<rparr>"

lemma seed_demo_ok: "integrity seed_demo" "usernames_free (SEED_USERS n) (users seed_demo)"
    "seed_phones (SEED_USERS n) (users seed_demo)" "usernames_kept (SEED_USERS n) (users seed_demo)"
  by (simp_all add: seed_demo_def demo_user_def empty_db_def integrity_defs usernames_free_def usernames_kept_def seed_phones_def SEED_USERS_def)

theorem seed_users_outcome_witness:
  "fst (seed_main plain_crypto id (\<lambda>_. 9) 0 demo_names seed_demo) = Inr () \<and>
   (\<exists>u\<in>set (users (snd (seed_main plain_crypto id (\<lambda>_. 9) 0 demo_names seed_demo))).
      u_status u = ''active'' \<and> u_role u = ''superadmin'' \<and> verify_military_id plain_crypto ''MIL-0000'' (hashed_military_id u)) \<and>
   seed_main plain_crypto id (\<lambda>_. 9) 0 demo_names empty_db = (Inl IntegrityError, empty_db)"
proof -
  let ?run = "seed_main plain_crypto id (\<lambda>_. 9) 0 demo_names"
  let ?sp = "SEED_USERS demo_names"
  obtain res d' where r: "?run seed_demo = (res, d')" by force
  note o = seed_users_outcome [OF plain_crypto_laws seed_demo_ok(1,4) r]
  have ok: "res = Inr ()" using o seed_demo_ok(2,3) by blast
  have d': "d' = seed_demo\<lparr>users := map (seeded plain_crypto id ?sp) (users seed_demo)\<rparr>"
    using seed_main_update [OF seed_demo_ok(1-3)] r by simp
  have "\<exists>u\<in>set (users d'). spec_of ?sp u = Some (?sp ! 2)"
    unfolding d' by (simp add: seed_demo_def demo_user_def spec_of_def SEED_USERS_def)
  then have "\<exists>u\<in>set (users d'). u_status u = ''active'' \<and> u_role u = ''superadmin'' \<and>
      verify_military_id plain_crypto ''MIL-0000'' (hashed_military_id u)"
    using o ok by (fastforce simp: SEED_USERS_def)
  moreover have "?run empty_db = (Inl IntegrityError, empty_db)"
  proof -
    have "usernames_kept ?sp (users empty_db)" "\<not> seed_phones ?sp (users empty_db)"
      by (simp_all add: usernames_kept_def seed_phones_def empty_db_def SEED_USERS_def)
    from seed_users_outcome [OF plain_crypto_laws integrity_empty this(1) surjective_pairing] this(2)
    show ?thesis by (metis prod.collapse)
  qed
  ultimately show ?thesis using r ok by simp
qed

end
