(* ===== verification/Journeys.thy ===== *)
theory Journeys
  imports Scripts Websocket Chats Self_Destruct
begin

text \<open>
  The components together: the properties of this theory follow one user action through the
  modules it passes. A login from the request for a code to an accepted token; a message from
  the socket of its sender to the history of its recipient; a self-destructing message from its
  deadline to its absence from every history. They use the lemmas of the component theories, and
  define nothing of the program.
\<close>

section \<open>Logging in\<close>

lemma code_rate_keys [key_simps]:
  "cooldown_key p \<noteq> code_key u" "code_key u \<noteq> cooldown_key p" "hourly_key p \<noteq> code_key u" "code_key u \<noteq> hourly_key p"
  "ip_key p \<noteq> code_key u" "code_key u \<noteq> ip_key p" "cooldown_key p \<noteq> attempts_key u" "attempts_key u \<noteq> cooldown_key p"
  "hourly_key p \<noteq> attempts_key u" "attempts_key u \<noteq> hourly_key p" "ip_key p \<noteq> attempts_key u" "attempts_key u \<noteq> ip_key p"
proof -
  have n: "uuid_str u \<noteq> ''cooldown:'' @ p" "uuid_str u \<noteq> ''hourly:'' @ p" "uuid_str u \<noteq> ''ip:'' @ p"
    by (rule uuid_str_neq [where c = "CHR '':''"]; simp add: digit_of_def)+
  then show "cooldown_key p \<noteq> code_key u" "hourly_key p \<noteq> code_key u" "ip_key p \<noteq> code_key u"
    unfolding cooldown_key_def hourly_key_def ip_key_def code_key_def by (auto dest: sym)
  then show "code_key u \<noteq> cooldown_key p" "code_key u \<noteq> hourly_key p" "code_key u \<noteq> ip_key p" by metis+
  show "cooldown_key p \<noteq> attempts_key u" "attempts_key u \<noteq> cooldown_key p" "hourly_key p \<noteq> attempts_key u"
    "attempts_key u \<noteq> hourly_key p" "ip_key p \<noteq> attempts_key u" "attempts_key u \<noteq> ip_key p"
    by (simp_all add: cooldown_key_def hourly_key_def ip_key_def attempts_key_def)
qed

context redis_values
begin

lemma otp_typed_rate_limit:
  assumes "rate_typed strs members b phone s" and "b \<le> incr_limit" and "otp_typed strs members u s"
  shows "otp_typed strs members u (snd (rate_limit_otp R phone ip s))"
  using assms(3)
  by (simp add: otp_typed_def strs_rate_limit [OF assms(1,2)] members_rate_limit [OF assms(1,2)] key_simps)

end

text \<open>An admitted request for the number of an active user: a code is outstanding.\<close>

lemma request_otp_admitted:
  assumes "request_otp R c draw phone client w = (Inr out, w1)"
    and "scalar (\<lambda>u. phone_number u = phone) (users (w_db w)) = Some u" and "u_status u = status_value ACTIVE"
  shows "w_db w1 = w_db w \<and> w_otp w1 = snd (issue R c draw (u_id u)
    (snd (rate_limit_otp R phone (case client of None \<Rightarrow> ''unknown'' | Some h \<Rightarrow> h) (w_otp w))))"
  using assms by (auto simp: request_otp_def Let_def case_prod_beta split: sum.splits)

text \<open>While it lives, an issued code is in the store, is accepted, and is gone once accepted.\<close>

context redis
begin

lemma issued_code_live:
  assumes "otp_typed strs members u s0" and "ms < OTP_TTL_SECONDS c * 1000" and "0 < OTP_MAX_ATTEMPTS c"
    and "s = r_elapse R ms (snd (issue R c draw u s0))" and "code = fst (issue R c draw u s0)"
  shows "r_get R (code_key u) s = Some code" and "fst (verify R c u code s)"
    and "r_get R (code_key u) (snd (verify R c u code s)) = None"
proof -
  have inv: "guess_inv strs members ttl c u code 0 s"
    using guess_inv_wait [OF guess_inv_issue [OF assms(1)]] by (simp add: assms(4,5))
  have typed: "otp_typed strs members u s" using guess_inv_typed [OF inv] by simp
  have live: "strs s (code_key u) = Some code"
    using assms(2) by (simp add: assms(4,5) strs_elapse ttl_issue strs_issue [OF assms(1)] key_simps)
  then show "r_get R (code_key u) s = Some code" using typed by (simp add: get otp_typed_def)
  have t: "0 < OTP_TTL_SECONDS c" using assms(2) by (cases "OTP_TTL_SECONDS c") simp_all
  show acc: "fst (verify R c u code s)"
    using verify_result [OF typed t, of code] inv live assms(3) by (simp add: guess_inv_def)
  show "r_get R (code_key u) (snd (verify R c u code s)) = None"
    using strs_verify [OF typed t, of code] members_verify [OF typed t, of code] acc typed
    by (simp add: key_simps otp_typed_def get)
qed

end

text \<open>The ids and the refresh token a login draws are new.\<close>

definition fresh_login :: "crypto \<Rightarrow> login_draws \<Rightarrow> db \<Rightarrow> bool" where
  "fresh_login C r d \<longleftrightarrow> ld_session r \<notin> s_id ` set (sessions d) \<and>
     hash_refresh_token C (ld_refresh r) \<notin> refresh_token_hash ` set (sessions d) \<and>
     ld_audit r \<notin> a_id ` set (audit_logs d) \<and> ld_audit2 r \<notin> a_id ` set (audit_logs d) \<and> ld_audit2 r \<noteq> ld_audit r"

lemma integrity_add_session:
  assumes "integrity d" and "s_id s \<notin> s_id ` set (sessions d)"
    and "refresh_token_hash s \<notin> refresh_token_hash ` set (sessions d)" and "s_user_id s \<in> set (map u_id (users d))"
  shows "integrity (d\<lparr>sessions := sessions d @ [s]\<rparr>)"
  using assms by (auto simp: integrity_def sessions_ok_def)

lemma verify_login_ok:
  assumes "integrity (w_db w)" and "scalar (\<lambda>u. phone_number u = vi_phone_number body) (users (w_db w)) = Some u"
    and "u_status u = status_value ACTIVE" and "\<And>day. expiry_date u = Some day \<Longrightarrow> utc_date now \<le> day"
    and "verify R c (u_id u) (vi_otp_code body) (w_otp w) = (True, s1)"
    and "verify_military_id C (vi_military_id body) (hashed_military_id u)" and "fresh_login C r (w_db w)"
  shows "\<exists>out w'. verify_login R C c r now body client header w = (Inr out, w') \<and> w_otp w' = s1 \<and>
    user_by_id (w_db w') (u_id u) = Some (logged_in now body u) \<and>
    scalar (\<lambda>u. phone_number u = vi_phone_number body) (users (w_db w')) = Some (logged_in now body u) \<and>
    access_token out = create_access_token C c now (ld_jti r) (u_id u) (token_version u + 1) (u_role u) []"
proof -
  let ?u = "logged_in now body u"
  let ?ip = "case client of None \<Rightarrow> ''unknown'' | Some h \<Rightarrow> h" and ?ua = "take 512 (case header of None \<Rightarrow> [] | Some h \<Rightarrow> h)"
  let ?s = "login_session C c r now (u_id u) ?ip ?ua"
  let ?changed = "case device_fingerprint u of None \<Rightarrow> False | Some f \<Rightarrow> f \<noteq> vi_device_fingerprint body"
  let ?d1 = "set_user ?u (w_db w)"
  let ?d2 = "?d1\<lparr>sessions := sessions ?d1 @ [?s]\<rparr>"
  let ?a = "(audit_row (ld_audit r) now (Some (u_id ?u)) (Some (u_role ?u)) (audit_value LOGIN_SUCCESS) True)
      \<lparr>a_ip_address := Some ?ip, a_user_agent := Some ?ua, metadata := Some [(''fingerprint_changed'', JBool ?changed)]\<rparr>"
  let ?b = "(audit_row (ld_audit2 r) now (Some (u_id ?u)) (Some (u_role ?u)) (audit_value DEVICE_FINGERPRINT_CHANGED) True)
      \<lparr>a_ip_address := Some ?ip\<rparr>"
  let ?d4 = "if ?changed then add_audit ?b (add_audit ?a ?d2) else add_audit ?a ?d2"
  have by_id: "user_by_id (w_db w) (u_id u) = Some u" using assms(1,2) by (rule user_by_phone)
  have u: "u_id ?u = u_id u" "u_role ?u = u_role u" "phone_number ?u = phone_number u" "username ?u = username u"
    "token_version ?u = token_version u + 1" by (simp_all add: logged_in_def)
  have ids: "u_id u \<in> set (map u_id (users (w_db w)))" using by_id by (rule in_ids)
  have s: "s_id ?s = ld_session r" "s_user_id ?s = u_id u" "refresh_token_hash ?s = hash_refresh_token C (ld_refresh r)"
    by (simp_all add: login_session_def)
  have i1: "integrity ?d1" by (rule integrity_set_user [OF assms(1), of ?u u]) (simp_all add: u by_id)
  have i2: "integrity ?d2" using ids assms(7) by (intro integrity_add_session [OF i1]) (simp_all add: s fresh_login_def)
  have i3: "integrity (add_audit ?a ?d2)"
    using ids assms(7) by (intro integrity_add_audit [OF i2]) (simp_all add: audit_row_def fresh_login_def u)
  have i4: "integrity (add_audit ?b (add_audit ?a ?d2))"
    using ids assms(7) by (intro integrity_add_audit [OF i3]) (simp_all add: audit_row_def fresh_login_def u)
  have i: "integrity ?d4"
  proof (cases ?changed)
    case True
    show ?thesis unfolding if_P [OF True] by (rule i4)
  next
    case False
    show ?thesis unfolding if_not_P [OF False] by (rule i3)
  qed
  have day: "(case expiry_date u of None \<Rightarrow> False | Some day \<Rightarrow> day < utc_date now) = False"
    using assms(4) by (cases "expiry_date u") auto
  define out where "out = \<lparr>access_token = create_access_token C c now (ld_jti r) (u_id ?u) (token_version ?u) (u_role ?u) [],
      refresh_token = ld_refresh r, token_type = ''bearer'', expires_in = ACCESS_TOKEN_EXPIRE_MINUTES c * 60,
      session_id = s_id ?s, vo_user = UserOut ?u\<rparr>"
  have tok: "access_token out = create_access_token C c now (ld_jti r) (u_id u) (token_version u + 1) (u_role u) []"
    by (simp add: out_def u)
  have eq: "verify_login R C c r now body client header w = commit_world (w\<lparr>w_otp := s1\<rparr>) ?d4 out"
    by (simp add: verify_login_def assms(2,3,5,6) day logged_in_def out_def Let_def)
  have ok: "verify_login R C c r now body client header w = (Inr out, w\<lparr>w_otp := s1, w_db := ?d4\<rparr>)"
    unfolding eq using i by (simp add: commit_world_def commit_def)
  have us: "users ?d4 = users (set_user ?u (w_db w))" by simp
  have row: "user_by_id (set_user ?u (w_db w)) (u_id u) = Some ?u"
    using by_id by (simp add: user_by_id_set_user u)
  have "scalar (\<lambda>x. phone_number x = vi_phone_number body) (users (set_user ?u (w_db w))) = Some ?u"
  proof -
    have "unique_on phone_number (users ?d1)" using i1 by (simp add: integrity_def users_ok_def)
    moreover have "?u \<in> set (users ?d1)" using user_by_idD [OF row] by simp
    moreover have "phone_number ?u = vi_phone_number body" using find_SomeD [OF assms(2)] u(3) by simp
    ultimately show ?thesis using find_unique [of phone_number "users ?d1" ?u] by simp
  qed
  with ok us row tok show ?thesis by (simp add: user_by_id_def)
qed

section \<open>A message from the socket to the history\<close>

lemma insort_key_snoc: "f y \<le> f x \<Longrightarrow> insort_key f y (xs @ [x]) = insort_key f y xs @ [x]"
  by (induction xs) auto

lemma sort_key_snoc: "(\<And>y. y \<in> set xs \<Longrightarrow> f y \<le> f x) \<Longrightarrow> sort_key f (xs @ [x]) = sort_key f xs @ [x]"
  by (induction xs) (simp_all add: insort_key_snoc)

lemma tail_of_snoc: "tail_of (Suc n) (xs @ [x]) = tail_of n xs @ [x]"
  by (simp add: tail_of_def)

text \<open>A content frame that is handled stores its message and changes nothing else in the database.\<close>

lemma content_saved:
  assumes "handle_frame R F c fd u con (JObj frame) k = (Inr (), k')" and "jget frame ''type'' = JStr t"
    and "t \<in> {''text'', ''image'', ''file''}" and "uuid_or_none (jget frame ''to'') = Some to"
  shows "\<exists>b. frame_message u to t frame = Inr b \<and> w_db (k_world k') = (w_db (k_world k))
    \<lparr>messages := messages (w_db (k_world k)) @ [new_message (fd_id fd) (fd_created fd) (fd_now fd) b]\<rparr>"
proof -
  have h: "handle_content R F c fd u t frame k = (Inr (), k')" using assms(1-3) by (auto simp: handle_frame_def)
  obtain b where b: "frame_message u to t frame = Inr b"
    using h assms(4) by (cases "frame_message u to t frame") (simp_all add: handle_content_def)
  obtain r d1 where s: "save_message (fd_id fd) (fd_created fd) (fd_now fd) b (w_db (k_world k)) = (r, d1)"
    by (cases "save_message (fd_id fd) (fd_created fd) (fd_now fd) b (w_db (k_world k))")
  obtain msg where r: "r = Inr msg" using h assms(4) b s by (cases r) (simp_all add: handle_content_def)
  let ?k = "on_world (\<lambda>w. w\<lparr>w_db := d1\<rparr>) k"
  obtain q k1 where o: "offline_push R F c u to t frame ?k = (q, k1)" by (cases "offline_push R F c u to t frame ?k")
  have "w_db (k_world k') = w_db (k_world k1)"
    using h assms(4) b s r o by (cases q) (auto simp: handle_content_def Let_def)
  then have "w_db (k_world k') = d1" using offline_pushD [OF o] by simp
  then show ?thesis
    using b s r by (auto simp: save_message_def commit_def Let_def split: if_splits)
qed

lemma frame_messageD:
  "frame_message u to t frame = Inr b \<Longrightarrow> mi_sender b = u \<and> mi_recipient b = Some to \<and> mi_type b = t \<and>
     text_column (jget frame ''content'') = Inr (mi_content b)"
  by (auto simp: frame_message_def split: sum.splits)

text \<open>A newest message ends every page that reaches to the end of its conversation.\<close>

lemma history_snoc:
  assumes "unique_on m_created_at (messages d)" and "\<And>m. m \<in> set (messages d) \<Longrightarrow> m_created_at m < m_created_at msg"
    and "between (u_id user) peer msg" and "\<not> is_destructed msg" and "user_by_id d peer = Some p"
    and "0 < limit" and "limit \<le> 100" and "d' = d\<lparr>messages := messages d @ [msg]\<rparr>"
  shows "\<exists>page. message_history peer None (limit - 1) user d = Inr page \<and>
    message_history peer None limit user d' = Inr (page @ [MessageOut msg])"
proof -
  let ?conv = "conversation (u_id user) peer"
  have "m_created_at msg \<notin> m_created_at ` set (messages d)" using assms(2) by (metis imageE less_irrefl)
  then have u: "unique_on m_created_at (messages d')" "user_by_id d' peer = Some p"
    using assms(1,5) by (simp_all add: assms(8) user_by_id_def)
  have "?conv d' = ?conv d @ [msg]"
    unfolding conversation_def assms(8) using assms(3,4) by (simp, intro sort_key_snoc less_imp_le assms(2)) simp
  moreover have "nat limit = Suc (nat (limit - 1))" using assms(6) by simp
  ultimately have "tail_of (nat limit) (?conv d') = tail_of (nat (limit - 1)) (?conv d) @ [msg]"
    by (simp only: tail_of_snoc)
  then show ?thesis
    using message_history_eq [OF unique_conversation [OF u(1), of "u_id user" peer] _ assms(7) u(2), of None]
      message_history_eq [OF unique_conversation [OF assms(1), of "u_id user" peer] _ _ assms(5), of "limit - 1" None]
      assms(6,7) by (simp add: earlier_def)
qed

section \<open>From a deadline to the history\<close>

text \<open>Every row the worker leaves is a row it found, or carries the mark of a wiped one.\<close>

definition kept_or_wiped :: "message list \<Rightarrow> message list \<Rightarrow> bool" where
  "kept_or_wiped rows rows' \<longleftrightarrow> (\<forall>m'\<in>set rows'. is_destructed m' \<or> m' \<in> set rows)"

lemma kept_or_wiped_round:
  "kept_or_wiped rows rows' \<Longrightarrow> kept_or_wiped rows (update_where P (destructed now) rows')"
  by (fastforce simp: kept_or_wiped_def in_update_where)

lemma worker_run_rows:
  fixes rm :: "'o remover" and w :: "'s world"
  assumes "integrity (w_db w)" and "fresh_rounds aids n (w_db w)" and "working rm" and "mono clock" and "k \<le> n"
  shows "kept_or_wiped (messages (w_db w)) (messages (w_db (fst (worker_run rm c clock aids k (w, os)))))"
  using assms(5)
proof (induction k)
  case 0
  show ?case by (simp add: kept_or_wiped_def)
next
  case (Suc k)
  from worker_run_inv [OF assms(1-4), of k c os] Suc.prems obtain w1 os1 where
    run: "worker_run rm c clock aids k (w, os) = (w1, os1)" and ok: "integrity (w_db w1)"
    and ids: "a_id ` set (audit_logs (w_db w1)) \<subseteq> a_id ` set (audit_logs (w_db w)) \<union> (\<Union>j<k. aids j ` {..<BATCH_SIZE})"
    by auto
  have fresh: "fresh_audits (aids k) (w_db w1)" using fresh_rounds_audits [OF assms(2) _ ids] Suc.prems by simp
  define b where "b = take BATCH_SIZE (filter (expired (clock k)) (messages (w_db w1)))"
  obtain w2 os2 where "worker_round rm c (clock k) (aids k) (w1, os1) = (w2, os2)"
    and "messages (w_db w2) = update_where (\<lambda>x. m_id x \<in> m_id ` set b) (destructed (clock k)) (messages (w_db w1))"
    by (rule working_round [OF ok fresh assms(3) b_def])
  with run Suc show ?case by (simp add: kept_or_wiped_round)
qed

text \<open>Every entry of a page is a stored message that has not been wiped.\<close>

lemma history_rows:
  assumes "message_history peer before limit user d = Inr page" and "mo \<in> set page"
  shows "\<exists>m\<in>set (messages d). mo = MessageOut m \<and> \<not> is_destructed m"
  using assms by (auto simp: message_history_def newest_first_def Let_def split: if_splits option.splits dest!: in_set_takeD) blast+

section \<open>A ticket and its socket\<close>

definition sends :: "'s sock \<Rightarrow> 's sock \<Rightarrow> bool" where
  "sends k k' \<longleftrightarrow> (\<exists>rest. k_out k' = k_out k @ rest)"

lemma sends_simps [simp]:
  "sends k k" "sends k (on_world f k') = sends k k'" "sends k k' \<Longrightarrow> sends k (send_json p k')"
  by (auto simp: sends_def)

lemma sends_trans: "sends k k1 \<Longrightarrow> sends k1 k2 \<Longrightarrow> sends k k2"
  by (auto simp: sends_def)

lemma sends_push: "offline_push R F c u to t f (on_world g k) = (r, k1) \<Longrightarrow> sends k k1"
  using offline_pushD by (fastforce simp: sends_def)

lemma sends_content: "sends k (snd (handle_content R F c fd u t f k))"
  by (simp add: handle_content_def Let_def split: option.split sum.split prod.split) (auto dest!: sends_push)

lemma sends_receipt: "sends k (snd (handle_receipt now u t f k))"
  by (simp add: handle_receipt_def Let_def split: option.split sum.split prod.split)

lemma sends_unsend: "sends k (snd (handle_unsend now u f k))"
  by (simp add: handle_unsend_def Let_def split: option.split sum.split prod.split error.split)

lemma sends_frame: "sends k (snd (handle_frame R F c fd u con v k))"
proof (cases v)
  case (JObj frame)
  then show ?thesis
    by (cases "jget frame ''type''")
      (simp_all add: handle_frame_def sends_content sends_receipt sends_unsend split: option.split)
qed (simp_all add: handle_frame_def)

lemma sends_loop: "sends k (snd (receive_loop R F c u con fs k))"
proof (induction fs arbitrary: k)
  case (Cons f fs)
  obtain raw fd where f: "f = (raw, fd)" by (cases f)
  show ?case
  proof (cases "loads raw")
    case None
    with f show ?thesis using sends_trans [OF _ Cons.IH] by simp
  next
    case (Some v)
    obtain r k1 where h: "handle_frame R F c fd u con v k = (r, k1)" by (cases "handle_frame R F c fd u con v k")
    then have "sends k k1" using sends_frame [of k R F c fd u con v] by simp
    with f Some h show ?thesis using sends_trans [OF _ Cons.IH] by (cases r) simp_all
  qed
qed simp

section \<open>Properties\<close>

text \<open>
  C4. A development login works from end to end: if the limiter admits the request of an active
  user for a code, then for as long as the code lives the script shows it, a login with that code and
  the user's military id succeeds, the returned token authenticates the user, and the code is used up.
\<close>

theorem login_journey:
  assumes "redis R strs members ttl" and "crypto_laws C" and "TOKEN_ALGORITHM c \<in> set hmac_algorithms"
    and "ENV c = ''development''" and "0 < OTP_MAX_ATTEMPTS c" and "0 \<le> ACCESS_TOKEN_EXPIRE_MINUTES c"
    and "integrity (w_db w)" and "scalar (\<lambda>u. phone_number u = vi_phone_number body) (users (w_db w)) = Some u"
    and "u_status u = status_value ACTIVE" and "\<And>day. expiry_date u = Some day \<Longrightarrow> utc_date now \<le> day"
    and "verify_military_id C (vi_military_id body) (hashed_military_id u)"
    and "rate_typed strs members incr_limit (vi_phone_number body) (w_otp w)" and "otp_typed strs members (u_id u) (w_otp w)"
    and "request_otp R c draw (vi_phone_number body) client w = (Inr out, w1)"
    and "ms < OTP_TTL_SECONDS c * 1000" and "w2 = w1\<lparr>w_otp := r_elapse R ms (w_otp w1)\<rparr>" and "fresh_login C r (w_db w)"
  shows "\<exists>code vo w3. dev_get_otp_program R c [prog, vi_phone_number body] w2 = (0, SHOWN (vi_phone_number body) code) \<and>
    verify_login R C c r now (body\<lparr>vi_otp_code := code\<rparr>) client header w2 = (Inr vo, w3) \<and>
    get_current_user C c now (Some (access_token vo)) (w_db w3) = Inr (logged_in now body u) \<and>
    dev_get_otp_program R c [prog, vi_phone_number body] w3 = (1, NO_CODE (vi_phone_number body))"
proof -
  note rd = assms(1) and rv = redis.axioms(1) [OF assms(1)]
  define s0 where "s0 = snd (rate_limit_otp R (vi_phone_number body) (case client of None \<Rightarrow> ''unknown'' | Some h \<Rightarrow> h) (w_otp w))"
  define code where "code = fst (issue R c draw (u_id u) s0)"
  have w1: "w_db w1 = w_db w" "w_otp w1 = snd (issue R c draw (u_id u) s0)"
    using request_otp_admitted [OF assms(14,8,9)] by (simp_all add: s0_def)
  have t0: "otp_typed strs members (u_id u) s0"
    unfolding s0_def by (rule redis_values.otp_typed_rate_limit [OF rv assms(12) order_refl assms(13)])
  have w2: "w_otp w2 = r_elapse R ms (snd (issue R c draw (u_id u) s0))" by (simp add: assms(16) w1)
  note live = redis.issued_code_live [OF rd t0 assms(15) assms(5) w2 code_def]
  then obtain s1 where v: "verify R c (u_id u) code (w_otp w2) = (True, s1)" by (metis prod.collapse)
  let ?body = "body\<lparr>vi_otp_code := code\<rparr>"
  have l: "logged_in now ?body u = logged_in now body u" by (simp add: logged_in_def)
  have db: "w_db w2 = w_db w" by (simp add: assms(16) w1)
  obtain vo w3 where login: "verify_login R C c r now ?body client header w2 = (Inr vo, w3)" and otp: "w_otp w3 = s1"
    and row: "user_by_id (w_db w3) (u_id u) = Some (logged_in now body u)"
    and phone: "scalar (\<lambda>u. phone_number u = vi_phone_number body) (users (w_db w3)) = Some (logged_in now body u)"
    and tok: "access_token vo = create_access_token C c now (ld_jti r) (u_id u) (token_version u + 1) (u_role u) []"
    using verify_login_ok [of w2 ?body u now R c s1 C r client header] assms(7-11,17) v by (auto simp: db l)
  have used: "r_get R (code_key (u_id u)) s1 = None" and shown: "r_get R (code_key (u_id u)) (w_otp w2) = Some code"
    using live(1,3) v by simp_all
  have "\<not> (now + seconds (60 * ACCESS_TOKEN_EXPIRE_MINUTES c)) div seconds 1 < now div seconds 1"
    using assms(6) zdiv_mono1 [of now "now + seconds (60 * ACCESS_TOKEN_EXPIRE_MINUTES c)" "seconds 1"]
    by (simp add: seconds_def)
  then have "get_current_user C c now (Some (access_token vo)) (w_db w3) = Inr (logged_in now body u)"
    using row assms(9) by (simp add: tok get_current_user_token [OF assms(2,3)] logged_in_def)
  then show ?thesis
    using login used shown otp phone assms(4,8)
    by (intro exI [of _ code] exI [of _ vo] exI [of _ w3])
      (simp add: dev_get_otp_program_def dev_get_otp_def db code_key_def logged_in_def)
qed

theorem login_journey_witness:
  "let (res, w1) = request_otp ref_redis settings_defaults (\<lambda>_. 7) ''+201001234567'' None (demo_world\<lparr>w_otp := Map.empty\<rparr>);
       w2 = w1\<lparr>w_otp := r_elapse ref_redis 299999 (w_otp w1)\<rparr>
   in \<exists>code vo w3. dev_get_otp_program ref_redis settings_defaults [''dev_get_otp.py'', ''+201001234567''] w2 =
        (0, SHOWN ''+201001234567'' code) \<and>
      verify_login ref_redis plain_crypto settings_defaults demo_draws 1000000 (demo_body\<lparr>vi_otp_code := code\<rparr>) None None w2 =
        (Inr vo, w3)"
proof -
  let ?w = "demo_world\<lparr>w_otp := Map.empty\<rparr>"
  have body: "vi_phone_number demo_body = ''+201001234567''" by (simp add: demo_body_def)
  have db: "w_db ?w = demo_db" by (simp add: demo_world_def)
  have u: "scalar (\<lambda>u. phone_number u = vi_phone_number demo_body) (users (w_db ?w)) = Some demo_user"
    by (simp add: db body demo_db_def demo_user_def)
  have typed: "rate_typed ref_strs ref_members incr_limit (vi_phone_number demo_body) (w_otp ?w)"
    "otp_typed ref_strs ref_members (u_id demo_user) (w_otp ?w)"
    by (simp_all add: rate_typed_def otp_typed_def ref_defs)
  have alg: "TOKEN_ALGORITHM settings_defaults \<in> set hmac_algorithms"
    by (simp add: settings_defaults_def hmac_algorithms_def)
  have fresh: "fresh_login plain_crypto demo_draws (w_db ?w)"
    by (simp add: fresh_login_def db demo_db_def empty_db_def demo_draws_def)
  obtain res w1 where r: "request_otp ref_redis settings_defaults (\<lambda>_. 7) (vi_phone_number demo_body) None ?w = (res, w1)" by force
  have "fst (rate_limit_otp ref_redis ''+201001234567'' ''unknown'' Map.empty) = Inr 60"
    by (simp add: rate_limit_otp_def ref_defs key_simps OTP_MAX_PER_HOUR_def OTP_COOLDOWN_SECONDS_def)
  then have "\<exists>out. fst (request_otp ref_redis settings_defaults (\<lambda>_. 7) (vi_phone_number demo_body) None ?w) = Inr out"
    by (simp add: request_otp_fst body)
  then obtain out where "res = Inr out" using r by auto
  note r = r [unfolded this]
  show ?thesis
    using login_journey [where c = settings_defaults and now = 1000000 and ms = 299999 and header = None
        and prog = "''dev_get_otp.py''", OF ref.redis_axioms plain_crypto_laws alg _ _ _ _ u _ _ demo_military_ok typed r _ refl fresh]
      demo_integrity r body
    by (auto simp: db demo_user_def)
qed

text \<open>
  C23. A message sent over the socket is in the histories of both sides at once: the last page of
  the recipient and that of the sender are the earlier pages with the new message at their end, with the
  content of the frame, and the recipient counts one more unread message from the sender.
\<close>

theorem sent_message_in_history:
  assumes "handle_frame R F c fd u con (JObj frame) k = (Inr (), k')" and "jget frame ''type'' = JStr t"
    and "t \<in> {''text'', ''image'', ''file''}" and "uuid_or_none (jget frame ''to'') = Some to"
    and "d = w_db (k_world k)" and "d' = w_db (k_world k')"
    and "unique_on m_created_at (messages d)" and "\<And>m. m \<in> set (messages d) \<Longrightarrow> m_created_at m < fd_created fd"
    and "user_by_id d u = Some su" and "user_by_id d to = Some tu" and "0 < limit" and "limit \<le> 100"
  shows "\<exists>msg theirs mine. text_column (jget frame ''content'') = Inr (mo_content_ciphertext msg) \<and> mo_id msg = fd_id fd \<and>
    mo_message_type msg = t \<and>
    message_history u None (limit - 1) tu d = Inr theirs \<and> message_history u None limit tu d' = Inr (theirs @ [msg]) \<and>
    message_history to None (limit - 1) su d = Inr mine \<and> message_history to None limit su d' = Inr (mine @ [msg]) \<and>
    unread_count to u (messages d') = unread_count to u (messages d) + 1"
proof -
  obtain b where b: "frame_message u to t frame = Inr b"
    and d': "d' = d\<lparr>messages := messages d @ [new_message (fd_id fd) (fd_created fd) (fd_now fd) b]\<rparr>"
    using content_saved [OF assms(1-4)] by (auto simp: assms(5,6))
  let ?m = "new_message (fd_id fd) (fd_created fd) (fd_now fd) b"
  note B = frame_messageD [OF b]
  have m: "m_created_at ?m = fd_created fd" "\<not> is_destructed ?m" "sender_id ?m = Some u" "recipient_id ?m = Some to"
    "m_status ?m = ''sent''" using B by (simp_all add: new_message_def)
  have ids: "u_id su = u" "u_id tu = to" using assms(9,10) by (auto dest: user_by_idD)
  have new: "\<And>x. x \<in> set (messages d) \<Longrightarrow> m_created_at x < m_created_at ?m" using assms(8) m(1) by simp
  have btw: "between (u_id tu) u ?m" "between (u_id su) to ?m" using m ids by (simp_all add: between_def)
  obtain theirs where "message_history u None (limit - 1) tu d = Inr theirs"
    "message_history u None limit tu d' = Inr (theirs @ [MessageOut ?m])"
    using history_snoc [OF assms(7) new btw(1) m(2) assms(9,11,12) d'] by blast
  moreover obtain mine where "message_history to None (limit - 1) su d = Inr mine"
    "message_history to None limit su d' = Inr (mine @ [MessageOut ?m])"
    using history_snoc [OF assms(7) new btw(2) m(2) assms(10,11,12) d'] by blast
  moreover have "unread_count to u (messages d') = unread_count to u (messages d) + 1"
    using m by (simp add: d' unread_count_def)
  moreover have "text_column (jget frame ''content'') = Inr (mo_content_ciphertext (MessageOut ?m))"
    "mo_id (MessageOut ?m) = fd_id fd" "mo_message_type (MessageOut ?m) = t"
    using B by (simp_all add: MessageOut_def new_message_def)
  ultimately show ?thesis by blast
qed

theorem sent_message_in_history_witness:
  "\<exists>k' msg. handle_frame fake_redis working_firebase settings_defaults demo_fd 1 ''c'' (JObj demo_frame) demo_sock = (Inr (), k') \<and>
     message_history 1 None 50 (chat_user 2 ''+2'') (w_db (k_world k')) = Inr [msg] \<and>
     mo_content_ciphertext msg = Some ''c'' \<and> unread_count 2 1 (messages (w_db (k_world k'))) = 1"
proof -
  obtain k' where h: "handle_frame fake_redis working_firebase settings_defaults demo_fd 1 ''c'' (JObj demo_frame) demo_sock = (Inr (), k')"
    using demo_handled by blast
  have d: "w_db (k_world demo_sock) = chat_users" by (simp add: demo_sock_def)
  have m: "messages chat_users = []" by (simp add: chat_users_def empty_db_def)
  have us: "user_by_id chat_users 1 = Some (chat_user 1 ''+1'')" "user_by_id chat_users 2 = Some (chat_user 2 ''+2'')"
    by (simp_all add: user_by_id_def chat_users_def chat_user_def)
  have none: "message_history 1 None 49 (chat_user 2 ''+2'') chat_users = Inr []"
    using us by (simp add: message_history_def m newest_first_def)
  show ?thesis
    using sent_message_in_history [OF h demo_frame_sel(1) _ demo_frame_sel(2) refl refl, of "chat_user 1 ''+1''" "chat_user 2 ''+2''" 50]
      h none us
    by (auto simp: d m demo_frame_sel text_column_def unread_count_def)
qed

text \<open>
  C11. Self-destruction reaches every reader: once the worker, over a working object store, has made
  enough rounds for its backlog, no page of any history, whoever asks for it and however it is
  paged, holds a message that was due at the first round.
\<close>

theorem expired_leave_history:
  fixes rm :: "'o remover" and w :: "'s world"
  assumes "integrity (w_db w)" and "fresh_rounds aids n (w_db w)" and "working rm" and "mono clock"
    and "length (filter (expired (clock n)) (messages (w_db w))) \<le> n * BATCH_SIZE" and "0 < n"
    and "worker_run rm c clock aids n (w, os) = (w', os')"
    and "message_history peer before limit user (w_db w') = Inr page"
  shows "\<forall>m\<in>set (messages (w_db w)). expired (clock 0) m \<longrightarrow> m_id m \<notin> mo_id ` set page"
proof (intro ballI impI notI)
  fix m
  assume m: "m \<in> set (messages (w_db w))" "expired (clock 0) m" "m_id m \<in> mo_id ` set page"
  from worker_run_inv [OF assms(1-4) order_refl, of c os] assms(7)
  have left: "filter (expired (clock 0)) (messages (w_db w')) = [] \<or>
      length (filter (expired (clock n)) (messages (w_db w'))) + n * BATCH_SIZE \<le>
        length (filter (expired (clock n)) (messages (w_db w)))" by auto
  obtain m' where m': "m' \<in> set (messages (w_db w'))" "m_id m' = m_id m" "\<not> is_destructed m'"
    using m(3) history_rows [OF assms(8)] by (fastforce simp: MessageOut_def)
  have "m' \<in> set (messages (w_db w))"
    using worker_run_rows [OF assms(1-4) order_refl, of c os] assms(7) m'(1,3) unfolding kept_or_wiped_def by fastforce
  then have "m' = m" using assms(1) m(1) m'(2) unique_onD [of m_id] by (auto simp: integrity_def messages_ok_def)
  then have due: "expired (clock 0) m'" "expired (clock n) m'"
    using m(2) expired_mono [of "clock 0" "clock n"] assms(4) by (simp_all add: monoD)
  then have "filter (expired (clock 0)) (messages (w_db w')) \<noteq> []" "0 < length (filter (expired (clock n)) (messages (w_db w')))"
    using m'(1) by (auto simp: filter_empty_conv)
  with left assms(5) show False by linarith
qed

theorem expired_leave_history_witness:
  "\<exists>w' os'. worker_run empty_store settings_defaults (\<lambda>k. seconds (60 * (int k + 1))) (\<lambda>k i. of_nat i) 1 (chat_world, ()) = (w', os') \<and>
     (\<forall>page. message_history 1 None 50 (chat_user 2 ''+2'') (w_db w') = Inr page \<longrightarrow> 7 \<notin> mo_id ` set page)"
proof -
  let ?clock = "\<lambda>k. seconds (60 * (int k + 1))"
  have m: "messages (w_db chat_world) = [new_message 7 0 0 chat_in]" by (simp add: chat_world_def chat_db_def)
  then have few: "length (filter (expired (?clock 1)) (messages (w_db chat_world))) \<le> 1 * BATCH_SIZE" by (simp add: BATCH_SIZE_def)
  have "audit_logs (w_db chat_world) = []" by (simp add: chat_world_def chat_db_def chat_users_def empty_db_def)
  then have fresh: "fresh_rounds (\<lambda>k i. of_nat i) 1 (w_db chat_world)"
    using chat_world_ok(2) by (auto simp: fresh_rounds_def fresh_audits_def distinct_map inj_on_def)
  have w: "working empty_store" by (simp add: working_def empty_store_def)
  have c: "mono ?clock" by (simp add: mono_def)
  obtain w' os' where run: "worker_run empty_store settings_defaults ?clock (\<lambda>k i. of_nat i) 1 (chat_world, ()) = (w', os')"
    by (metis surj_pair)
  have "expired (?clock 0) (new_message 7 0 0 chat_in)" "m_id (new_message 7 0 0 chat_in) = 7"
    by (simp_all add: expired_def new_message_def chat_in_def)
  then have "7 \<notin> mo_id ` set page" if "message_history 1 None 50 (chat_user 2 ''+2'') (w_db w') = Inr page" for page
    using expired_leave_history [OF chat_world_ok(1) fresh w c few _ run that] m by simp
  with run show ?thesis by blast
qed

text \<open>
  C8. A ticket is an identity: a socket opened with it within 30 seconds is accepted, greets the client
  first, and whatever is sent on it is published in the name of the user who asked for the ticket; a
  socket opened later is closed without a word.
\<close>

theorem ticket_is_identity:
  assumes "redis R strs members ttl" and "ticket_free members tok s" and "16 \<le> length tok" and "length tok \<le> 64"
    and "create_ws_ticket R tok user s = (out, s1)" and "w_sess (k_world k) = r_elapse R ms s1"
    and "chat_socket R F c now con tok received k = (res, k')"
  shows "if ms < 30 * 1000
    then res \<noteq> Inr None \<and>
      (\<exists>greeting rest. k_out k' = k_out k @ greeting # rest \<and> jget greeting ''type'' = JStr ''welcome'' \<and>
         jget greeting ''connection_id'' = JStr con) \<and>
      (\<exists>new. w_pub (k_world k') = w_pub (k_world k) @ new \<and>
         (\<forall>p\<in>set new. map_of (snd p) ''from'' \<in> {None, Some (JStr (uuid_str (u_id user)))}))
    else res = Inr None \<and> k_out k' = k_out k \<and> w_pub (k_world k') = w_pub (k_world k)"
proof -
  let ?s = "w_sess (k_world k)"
  have f: "ticket_free members tok ?s"
    unfolding assms(6) using redis.ticket_free_step(1,3) [OF assms(1)] assms(2,5) by (metis snd_conv)
  have "strs ?s (ticket_key tok) = (if ms < 30000 then Some (uuid_str (u_id user)) else None)"
    using redis.ticket_after [OF assms(1,2), of ms user] assms(5,6) by simp
  with redis.redeem_fst [OF assms(1) f] obtain s2
    where r: "redeem_ticket R tok ?s = (Inr (if ms < 30000 then Some (u_id user) else None), s2)"
    by (cases "redeem_ticket R tok ?s") auto
  show ?thesis
  proof (cases "ms < 30000")
    case False
    with assms(3,4,7) r show ?thesis by (auto simp: chat_socket_def)
  next
    case True
    let ?u = "u_id user"
    define m1 where "m1 = snd (register R now con ?u () \<lparr>m_local = Map.empty, m_redis = s2\<rparr>)"
    define k1 where "k1 = on_world (\<lambda>w. w\<lparr>w_sess := m_redis m1\<rparr>) k"
    define greeting where "greeting = [(''type'', JStr ''welcome''), (''connection_id'', JStr con),
       (''online_users'', JInt (int (online_count R (w_sess (k_world k1))))), (''server_time'', JStr (isoformat now))]"
    obtain a k3 where l: "receive_loop R F c ?u con received (send_json greeting k1) = (a, k3)" by force
    have res: "res = (case a of Inl e \<Rightarrow> Inl e | Inr _ \<Rightarrow> Inr (Some ()))"
      and k': "k_out k' = k_out k3" "w_pub (k_world k') = w_pub (k_world k3)"
      using assms(3,4,7) r True l by (auto simp: chat_socket_def Let_def m1_def k1_def greeting_def)
    have "sends (send_json greeting k1) k3" using sends_loop [of "send_json greeting k1" R F c ?u con received] l by simp
    then have out: "\<exists>rest. k_out k' = k_out k @ greeting # rest" by (auto simp: sends_def k' k1_def)
    have "own_frames ?u (k_world (send_json greeting k1)) (k_world k3)"
      using loop_own [of ?u "send_json greeting k1" R F c con received] l by simp
    then have "\<exists>new. w_pub (k_world k') = w_pub (k_world k) @ new \<and>
        (\<forall>p\<in>set new. map_of (snd p) ''from'' \<in> {None, Some (JStr (uuid_str ?u))})"
      by (simp add: own_frames_def list_all_iff k' k1_def)
    moreover have "jget greeting ''type'' = JStr ''welcome''" "jget greeting ''connection_id'' = JStr con"
      by (simp_all add: greeting_def jget_def)
    moreover have "res \<noteq> Inr None" unfolding res by (cases a) simp_all
    ultimately show ?thesis using True out by simp blast
  qed
qed

text \<open>A socket over the reference store, whose ticket was just created.\<close>

definition ticket_sock :: "store sock" where
  "ticket_sock = \<lparr>k_world = demo_world\<lparr>w_sess := r_elapse ref_redis 29999
       (snd (create_ws_ticket ref_redis (replicate 20 CHR ''t'') demo_user Map.empty))\<rparr>,
     k_push = \<lparr>p_initialized = False, p_available = False, p_sent = []\<rparr>, k_out = []\<rparr>"

theorem ticket_is_identity_witness:
  "fst (chat_socket ref_redis working_firebase settings_defaults 0 ''c'' (replicate 20 CHR ''t'') [] ticket_sock) \<noteq> Inr None"
proof -
  have "ticket_free ref_members (replicate 20 CHR ''t'') Map.empty" by (simp add: ticket_free_def ref_defs)
  from ticket_is_identity [OF ref.redis_axioms this _ _ surjective_pairing _ surjective_pairing,
      where user = demo_user and k = ticket_sock and ms = 29999 and F = working_firebase and c = settings_defaults
        and now = 0 and con = "''c''" and received = "[]"]
  show ?thesis by (simp add: ticket_sock_def)
qed

end
