(* ===== verification/Spec2Isabelle.thy ===== *)
theory Spec2Isabelle
  imports Self_Destruct Group_Routes Admin Websocket Media Ocr Chats Receipts
    Encryption Signal_Messages Communities Channels Ai_Service Legacy_Media
    Application Scripts Journeys
begin

text \<open>
  A verification library for IronLink, a messaging server (FastAPI, PostgreSQL, Redis,
  MinIO and Firebase) for closed organisations. It models the Python server under
  \<^verbatim>\<open>src/app\<close>: users log in with a one-time code and a military id, open a WebSocket with
  a ticket, exchange messages that can be unsent, expire and carry media, form groups with
  approved membership, and are administered and addressed by broadcast. The second backend of the
  repository, under \<^verbatim>\<open>src/backend/app\<close>, is modelled as far as its code is there.

  \<^bold>\<open>Conventions.\<close>
  \<^item> A handler takes the state and returns \<open>error + 'a\<close> with the new state
    (\<open>handler\<close> in Prelude): every raise and every early return of the source is a branch.
    \<open>HTTPException\<close> carries the status and the detail, the other constructors are the Python exceptions
    that leave a handler. A failed commit is \<open>IntegrityError\<close> and rolls the transaction back.
  \<^item> The clock, random bytes and fresh UUIDs are arguments of the operation that reads
    them. Times are \<open>int\<close> microseconds. UUIDs are \<open>128 word\<close>.
  \<^item> A database table is the list of its rows in insertion order; an SQL query is the list
    function with the same conditions, ordering and limit. Ties of an \<^verbatim>\<open>ORDER BY\<close> are left
    in table order. The unique and foreign keys are \<open>integrity\<close>, checked by \<open>commit\<close>.
  \<^item> Redis, MinIO, Firebase, Pillow, the text extraction libraries, bcrypt, SHA-256 and the
    JWT library are parameters. What the code relies on of Redis and MinIO is stated in locales
    (\<open>redis_values\<close>, \<open>redis\<close>, \<open>minio_store\<close>, \<open>staging\<close>, \<open>minio_staging\<close>) which are
    interpreted on reference stores, and, for Redis, on the \<^verbatim>\<open>FakeRedis\<close> of the test suite. The
    hash commands (\<open>redis_hashes\<close>) and list commands (\<open>redis_lists\<close>) have contracts of their own; what the
    tables of the second backend promise their routes is the locale \<open>transactions\<close>, interpreted on the two
    databases of \<open>Communities\<close> and \<open>Channels\<close>.
  \<^item> Strings are lists of characters below 256. Case conversion, stripping and \<^verbatim>\<open>isalnum\<close>
    treat the letters of that range; characters above it are not represented.
  \<^item> A name that a Python module uses without binding it is a \<open>NameError\<close> at the point where
    the code reads it: the operations concerned take the list of bound names as an argument,
    and the names the module binds are a definition (\<open>MEDIA_GLOBALS\<close>, \<open>WS_GLOBALS\<close>,
    \<open>RECEIPTS_GLOBALS\<close>, \<open>COMMUNITIES_GLOBALS\<close>, \<open>LEGACY_MEDIA_GLOBALS\<close>).

  \<^bold>\<open>Foundations.\<close>
  \<^item> \<open>Prelude\<close>: errors, results, JSON values, tables as lists. \<open>Py_Str\<close>, \<open>Uuid\<close>,
    \<open>Json\<close>: the parts of \<^verbatim>\<open>str\<close>, \<^verbatim>\<open>int\<close>, \<^verbatim>\<open>uuid\<close> and \<^verbatim>\<open>json\<close> the server uses, with \<open>loads_dumps\<close>,
    the round trip every frame, ticket and upload document goes through.
  \<^item> \<open>Redis\<close>: the commands as a record, their laws as locales, two interpretations.
  \<^item> \<open>Models\<close> (\<^verbatim>\<open>app/models/*.py\<close>, \<^verbatim>\<open>core/database.py\<close>): one record per mapped class,
    \<open>integrity\<close> for the keys, \<open>commit\<close> for the transaction of \<^verbatim>\<open>get_db\<close>.
  \<^item> \<open>World\<close>: the state handlers share (database, Redis, published frames).
  \<^item> \<open>Config\<close> (\<^verbatim>\<open>config.py\<close>, \<^verbatim>\<open>core/redis.py\<close>): settings, validators, connection URLs.

  \<^bold>\<open>Accounts.\<close>
  \<^item> \<open>Security\<close> (\<^verbatim>\<open>core/security.py\<close>, \<^verbatim>\<open>api/deps.py\<close>, \<^verbatim>\<open>schemas/auth.py\<close>): hashing, access
    tokens, \<open>get_current_user\<close> with every refusal, the phone number format.
  \<^item> \<open>Otp_Service\<close> (\<^verbatim>\<open>services/otp_service.py\<close>): issue and verify; after one issue at most one
    of the first \<open>OTP_MAX_ATTEMPTS\<close> guesses is accepted.
  \<^item> \<open>Auth\<close> (\<^verbatim>\<open>routes/auth.py\<close>, \<^verbatim>\<open>services/sms_gateway.py\<close>): the rate limiter, requesting a
    code, login, tickets, sessions. A login refuses every earlier token of the user.

  \<^bold>\<open>Messages.\<close>
  \<^item> \<open>Message_Service\<close> (\<^verbatim>\<open>services/message_service.py\<close>): save, delivered, read, unsend.
  \<^item> \<open>Websocket\<close> (\<^verbatim>\<open>routes/websocket.py\<close>): ticket, frame dispatcher, receive loop with its
    clean-up, and the relay of published frames to the socket.
  \<^item> \<open>Ws_Manager\<close> (\<^verbatim>\<open>services/ws_manager.py\<close>): the presence registry in Redis, refined from
    the set of connected devices, and the race of \<open>unregister\<close>, split into its two steps.
  \<^item> \<open>Chats\<close>, \<open>Receipts\<close> (\<^verbatim>\<open>routes/chats.py\<close>, \<^verbatim>\<open>routes/receipts.py\<close>): the conversation list, the
    paged history, receipts and typing indicators.
  \<^item> \<open>Self_Destruct\<close> (\<^verbatim>\<open>services/self_destruct_worker.py\<close>): the sweep and the loop of the worker;
    the step relation of the message table shows that a deadline is fixed when a message is stored.

  \<^bold>\<open>Groups, administration, media.\<close>
  \<^item> \<open>Group_Routes\<close> (\<^verbatim>\<open>routes/groups.py\<close>, \<^verbatim>\<open>models/group.py\<close>): roles, join requests; in every
    reachable database a membership is the creator's or approved.
  \<^item> \<open>Admin\<close> (\<^verbatim>\<open>routes/admin.py\<close>, \<^verbatim>\<open>routes/broadcasts.py\<close>), \<open>Push\<close> (\<^verbatim>\<open>services/push_service.py\<close>).
  \<^item> \<open>Storage\<close> (\<^verbatim>\<open>services/storage_service.py\<close>), \<open>Media\<close> (\<^verbatim>\<open>routes/media.py\<close>): chunked uploads;
    the locale \<open>uploads\<close> joins the Redis and the object store contracts.
  \<^item> \<open>Ocr\<close> (\<^verbatim>\<open>ocr.py\<close>, \<^verbatim>\<open>redis.py\<close>, \<^verbatim>\<open>push.py\<close>, \<^verbatim>\<open>routes/ocr.py\<close>): keyword alerts on uploaded media.

  \<^bold>\<open>Key distribution.\<close>
  \<^item> \<open>Encryption\<close> (\<^verbatim>\<open>services/encryption_service.py\<close>, \<^verbatim>\<open>routes/keys.py\<close>): the identity key, the
    prekeys and the sessions of a user as JSON documents in Redis, whose types every request keeps; the
    prekeys advertised are the uploaded identifiers, each with the mock key the server makes for it.
  \<^item> \<open>Base64\<close>, \<open>Redis_Hash\<close>: the encoding and the hash commands the second backend stores keys with.
  \<^item> \<open>Signal_Service\<close> (\<^verbatim>\<open>backend/app/services/encryption_service.py\<close>, \<^verbatim>\<open>backend/app/api/routes/keys.py\<close>):
    one-time prekeys in a Redis hash beside their private halves under keys that expire. A private half
    is handed out at most once (\<open>prekey_used_once\<close>), but the public list outlives the private halves.
  \<^item> \<open>Signal_Messages\<close> (the same service): encryption and decryption with the stored session, over the Signal
    library as a parameter of which nothing is assumed; the recipient of a first message has no session to read it with
    (\<open>first_contact_unreadable\<close>).

  \<^bold>\<open>The second backend.\<close>
  \<^item> \<open>Legacy_Tables\<close>: sequences, foreign keys and pages of a table, and the contract of a commit.
  \<^item> \<open>Communities\<close>, \<open>Channels\<close> (\<^verbatim>\<open>models\<close>, \<^verbatim>\<open>schemas\<close> and \<^verbatim>\<open>api/routes\<close> of the same names): every route
    as an operation on the tables; invariants over all histories of requests: the member count of a
    community is its members but the owner, the subscriber count of a channel is its subscriptions.
  \<^item> \<open>Ai_Service\<close> (\<^verbatim>\<open>services/ai_service.py\<close>, \<^verbatim>\<open>api/routes/chats.py\<close>): the cached calls of a remote model
    and the chat routes over them; the remote service is a function of the request that may fail.
  \<^item> \<open>Legacy_Media\<close> (\<^verbatim>\<open>api/routes/media.py\<close>): the keyword alerts with debouncing and bounded histories.

  \<^bold>\<open>Assembly.\<close>
  \<^item> \<open>Application\<close> (\<^verbatim>\<open>app/main.py\<close>, \<^verbatim>\<open>backend/app/main.py\<close>): the route tables in the order of inclusion, the
    middleware and the lifespan. The framework enters through the locale \<open>routing\<close> and the law \<open>host_law\<close>. No route of
    the first application hides another (\<open>every_route_reached\<close>). The second does not start, because modules it imports
    raise (\<open>backend_app_as_it_is\<close>); if it did, the channels would hide the communities. Its routes are modelled function by
    function, as they would run with the imports repaired.
  \<^item> \<open>Scripts\<close> (\<^verbatim>\<open>scripts/seed_dev_users.py\<close>, \<^verbatim>\<open>scripts/dev_get_otp.py\<close>): seeding as one transaction, and the display
    of an outstanding code.
  \<^item> \<open>Journeys\<close>: properties that follow one action through several components: a login from the request for a code
    to the accepted token, a ticket to what its socket may publish, a message from the socket to both
    histories, and a self-destructing message from its deadline to its absence from every history.

  \<^bold>\<open>Bounds and fuel.\<close> \<open>scan_once\<close> of \<open>Json\<close> recurses on fuel; \<open>loads\<close> supplies the length of
  its input, and \<open>loads_dumps\<close> shows that this is enough for every document the server writes. All
  other definitions are total without fuel: the receive and relay loops recurse on the
  frames that arrive, and what happens when no more arrive is their base case. The loop that draws an unused
  prekey identifier may run forever: \<open>draw_id\<close> is a \<^theory_text>\<open>partial_function\<close>, and \<open>prekey_generation_returns\<close>
  shows when it returns. \<^verbatim>\<open>INCR\<close> is specified up to
  \<open>2 ^ 63 - 1\<close>; counters are bounded far below by the limits that guard them.

  \<^bold>\<open>Not modelled.\<close> The asyncio scheduling of the worker and the listeners (their bodies are
  modelled), true parallelism beyond the steps stated for \<open>unregister\<close>, the environment file of the
  migrations (\<^verbatim>\<open>alembic/env.py\<close>), logging, and the web and
  mobile clients, which are other languages. The database script \<^verbatim>\<open>scripts/init_db.sql\<close>
  is not Python and not modelled either: roles, row security, and a CHECK that a message has a recipient or a group but not
  both, which every row stored by the socket satisfies. Of the second backend: the tables of \<^verbatim>\<open>models/creator.py\<close> and
  \<^verbatim>\<open>schemas/creator.py\<close>, which no operation reads or writes (that importing them raises, and with them
  \<^verbatim>\<open>schemas/community.py\<close>, is part of \<open>backend_app\<close> in \<open>Application\<close>), \<^verbatim>\<open>redis.py\<close>, its connection pool, and the modules its
  routes import that the repository does not hold (\<^verbatim>\<open>app.core\<close>, the user and chat models), which are
  parameters.
\<close>

end
